theory Spec2Isabelle
  imports Complex_Main "HOL-Library.Monad_Syntax"
begin

section \<open>Dense visual odometry tracker (tracker.hpp)\<close>

text \<open>
  The development embeds the host code of class \<open>Tracker\<close>: the constructor, \<open>align\<close>
  and the private member functions they call. The CUDA kernels (alignment.cuh), the image
  preprocessing (preprocessing.cuh), the Lie algebra helpers (lieAlgebra.hpp), Eigen and
  cuBLAS are not part of tracker.hpp; they enter the model as the fields of one record
  \<open>env\<close>, so every theorem holds for whatever these routines compute.
\<close>

subsection \<open>Single precision values on the host\<close>

text \<open>
  A C \<open>float\<close> is a finite value, an infinity or a NaN. Finite values carry their exact
  real value; the rounding to binary32 that ends every arithmetic operation is the field
  \<open>round32\<close> of the environment. The two zeros are one value \<open>Fin 0\<close>: the host code
  only compares zeros with \<open>==\<close>, and a zero divisor is taken as \<open>+0\<close>.
\<close>

datatype float = Fin real | PInf | NInf | NaN

fun fneg :: "float \<Rightarrow> float" where
  "fneg (Fin a) = Fin (- a)"
| "fneg PInf = NInf"
| "fneg NInf = PInf"
| "fneg NaN = NaN"

fun fabs :: "float \<Rightarrow> float" where
  "fabs (Fin a) = Fin \<bar>a\<bar>"
| "fabs PInf = PInf"
| "fabs NInf = PInf"
| "fabs NaN = NaN"

fun fdiv :: "(real \<Rightarrow> float) \<Rightarrow> float \<Rightarrow> float \<Rightarrow> float" where
  "fdiv rnd NaN y = NaN"
| "fdiv rnd x NaN = NaN"
| "fdiv rnd (Fin a) (Fin b) =
     (if b = 0 then (if a = 0 then NaN else if 0 < a then PInf else NInf)
      else rnd (a / b))"
| "fdiv rnd (Fin a) PInf = Fin 0"
| "fdiv rnd (Fin a) NInf = Fin 0"
| "fdiv rnd PInf (Fin b) = (if 0 \<le> b then PInf else NInf)"
| "fdiv rnd NInf (Fin b) = (if 0 \<le> b then NInf else PInf)"
| "fdiv rnd PInf PInf = NaN"
| "fdiv rnd PInf NInf = NaN"
| "fdiv rnd NInf PInf = NaN"
| "fdiv rnd NInf NInf = NaN"

fun fsub :: "(real \<Rightarrow> float) \<Rightarrow> float \<Rightarrow> float \<Rightarrow> float" where
  "fsub rnd NaN y = NaN"
| "fsub rnd x NaN = NaN"
| "fsub rnd (Fin a) (Fin b) = rnd (a - b)"
| "fsub rnd (Fin a) PInf = NInf"
| "fsub rnd (Fin a) NInf = PInf"
| "fsub rnd PInf (Fin b) = PInf"
| "fsub rnd NInf (Fin b) = NInf"
| "fsub rnd PInf PInf = NaN"
| "fsub rnd NInf NInf = NaN"
| "fsub rnd PInf NInf = PInf"
| "fsub rnd NInf PInf = NInf"

text \<open>
  \<open>x > c\<close> and \<open>x == 0\<close> for a float \<open>x\<close> and a double constant \<open>c\<close>: the float is
  promoted exactly, and every comparison with a NaN is false.
\<close>

fun fgt :: "float \<Rightarrow> real \<Rightarrow> bool" where
  "fgt (Fin a) c = (c < a)"
| "fgt PInf c = True"
| "fgt NInf c = False"
| "fgt NaN c = False"

fun feq0 :: "float \<Rightarrow> bool" where
  "feq0 (Fin a) = (a = 0)"
| "feq0 x = False"

text \<open>The double literals \<open>0.995\<close> and \<open>1e-3\<close>, as the exact values of their binary64 forms.\<close>

definition DOUBLE_0_995 :: real where
  "DOUBLE_0_995 = 8962163258467287 / 2 ^ 53"

definition DOUBLE_1e_3 :: real where
  "DOUBLE_1e_3 = 1152921504606847 / 2 ^ 60"

text \<open>
  The member constants: \<open>VARIANCE_INITIAL = 0.000625f\<close> and
  \<open>BIG_FLOAT = std::numeric_limits<float>::max()\<close>, as the exact values of their
  binary32 forms.
\<close>

definition VARIANCE_INITIAL :: float where
  "VARIANCE_INITIAL = Fin (5368709 / 2 ^ 33)"

definition BIG_FLOAT :: float where
  "BIG_FLOAT = Fin 340282346638528859811704183484516925440"

subsection \<open>C integers\<close>

text \<open>
  \<open>int\<close> values are modelled by unbounded integers: \<open>/\<close> truncates towards zero and
  \<open>1 << level\<close> is \<open>2 ^ level\<close>. In \<open>align\<close> the 32-bit range is not modelled
  (\<open>1 << level\<close> is undefined in C for \<open>level < 0\<close> or \<open>level > 30\<close>; here a negative
  shift gives 1). The constructor is where the levels and the sizes are first used:
  there a level outside \<open>0 .. 30\<close> has no result, and the sizes of the requests for
  memory are computed as the code computes them, by products of \<open>int\<close> that wrap around
  in 32 bits (\<open>int32\<close>) and are then converted to the 64-bit \<open>size_t\<close>, whose arithmetic
  is modulo \<open>2\<^sup>6\<^sup>4\<close>.
\<close>

definition c_div :: "int \<Rightarrow> int \<Rightarrow> int" where
  "c_div a b = sgn a * sgn b * (\<bar>a\<bar> div \<bar>b\<bar>)"

definition shl1 :: "int \<Rightarrow> int" where
  "shl1 level = 2 ^ nat level"

definition level_size :: "int \<Rightarrow> int \<Rightarrow> int" where
  "level_size full level = c_div full (shl1 level)"

definition ceil_div_1024 :: "int \<Rightarrow> int" where
  "ceil_div_1024 sz = c_div (sz + 1024 - 1) 1024"

definition int32 :: "int \<Rightarrow> int" where
  "int32 x = (x + 2147483648) mod 4294967296 - 2147483648"

definition mul32 :: "int \<Rightarrow> int \<Rightarrow> int" where
  "mul32 x y = int32 (x * y)"

definition size_t :: "int \<Rightarrow> int" where
  "size_t x = x mod 18446744073709551616"

subsection \<open>Data\<close>

text \<open>
  Host arrays, device arrays and Eigen vectors and matrices (through \<open>.data()\<close>, column
  major) are lists of floats. A copy of a whole Eigen vector or matrix to the device copies
  the list. Device memory that was allocated and not yet written is the empty list.
\<close>

type_synonym buf = "float list"
type_synonym Vector3f = "float list"
type_synonym Vector6f = "float list"
type_synonym Matrix3f = "float list"
type_synonym Matrix4f = "float list"
type_synonym Matrix6f = "float list"

datatype SolvingMethod = GAUSS_NEWTON | LEVENBERG_MARQUARDT | GRADIENT_DESCENT

record PyramidLevel =
  gray :: buf
  depth :: buf
  gray_dx :: buf
  gray_dy :: buf

text \<open>
  The constant memory symbols and texture references of alignment.cuh, which the kernels
  read without receiving them as arguments. A texture reference is \<open>None\<close> while unbound.
\<close>

record globals =
  const_K_pyr :: buf
  const_RK_inv :: buf
  const_translation :: buf
  texRef_grayImg :: "buf option"
  texRef_gray_dx :: "buf option"
  texRef_gray_dy :: "buf option"

datatype cuda_call = Malloc int | Free

text \<open>
  The four reduction buffers of the build without cuBLAS are reached through member
  pointers that the code swaps and, in \<open>calculate_b\<close>, redirects to \<open>d_b\<close>; they are
  modelled as pointers into a small store. All other device pointers never change after
  allocation and are modelled by the contents they point to. Writes are taken to stay
  inside the allocation written to (the extents are decided inside the kernels).
\<close>

datatype ptr = Buf_pre_A | Buf_pre_A_aux | Buf_pre_b | Buf_pre_b_aux | Buf_b

record Tracker =
  solvingMethod :: SolvingMethod
  maxIterationsPerLevel :: int
  maxLevel :: int
  minLevel :: int
  width :: int
  height :: int
  useTDistWeights :: bool
  A :: Matrix6f
  b :: Vector6f
  error :: float
  d_x_prime :: buf
  d_y_prime :: buf
  d_z_prime :: buf
  d_u_warped :: buf
  d_v_warped :: buf
  d_J :: buf
  d_JTW :: buf
  d_W :: buf
  d_r :: buf
  d_A :: buf
  d_error :: buf
  d_cur :: "PyramidLevel list"
  d_prev :: "PyramidLevel list"
  temp_swap :: "PyramidLevel list"
  R :: Matrix3f
  RK_inv :: Matrix3f
  t :: Vector3f
  d_pre_A :: ptr
  d_pre_A_aux :: ptr
  d_pre_b :: ptr
  d_pre_b_aux :: ptr
  store :: "ptr \<Rightarrow> buf"
  K_pyr :: "Matrix3f list"
  K_inv_pyr :: "Matrix3f list"
  xi_delta :: Vector6f
  xi :: Vector6f
  xi_total :: Vector6f
  dev :: globals
  cuda_log :: "cuda_call list"

text \<open>
  The code outside tracker.hpp. \<open>ENABLE_CUBLAS\<close> is the preprocessor switch. Every
  kernel is a function of the contents of the arrays it is launched on, of the sizes it
  is given and of the constant and texture memory; it returns the contents of its output
  arrays. \<open>cudaMalloc_ok\<close> is the CUDA runtime deciding a request for memory: whether
  \<open>cudaMalloc\<close> of so many bytes succeeds after the calls logged so far. \<open>invertKMat\<close>
  has no value where it does not return.
\<close>

record env =
  ENABLE_CUBLAS :: bool
  cudaMalloc_ok :: "cuda_call list \<Rightarrow> int \<Rightarrow> bool"
  round32 :: "real \<Rightarrow> float"
  lieExp :: "Vector6f \<Rightarrow> Matrix4f"
  lieLog :: "Matrix4f \<Rightarrow> Vector6f"
  convertSE3ToT :: "Vector6f \<Rightarrow> Matrix3f \<times> Vector3f"
  mat4_mul :: "Matrix4f \<Rightarrow> Matrix4f \<Rightarrow> Matrix4f"
  mat4_inverse :: "Matrix4f \<Rightarrow> Matrix4f"
  mat3_mul :: "Matrix3f \<Rightarrow> Matrix3f \<Rightarrow> Matrix3f"
  ldlt_solve :: "Matrix6f \<Rightarrow> Vector6f \<Rightarrow> Vector6f"
  invertKMat :: "Matrix3f \<Rightarrow> Matrix3f option"
  downsampleK :: "Matrix3f \<Rightarrow> Matrix3f"
  imresize_CUDA :: "buf \<Rightarrow> int \<Rightarrow> int \<Rightarrow> int \<Rightarrow> int \<Rightarrow> int \<Rightarrow> bool \<Rightarrow> buf"
  image_derivatives_CUDA :: "buf \<Rightarrow> int \<Rightarrow> int \<Rightarrow> buf \<times> buf"
  d_transform_points :: "globals \<Rightarrow> buf \<Rightarrow> int \<Rightarrow> int \<Rightarrow> int \<Rightarrow> buf \<times> buf \<times> buf \<times> buf \<times> buf"
  d_calculate_jacobian :: "globals \<Rightarrow> buf \<Rightarrow> buf \<Rightarrow> buf \<Rightarrow> buf \<Rightarrow> buf \<Rightarrow> int \<Rightarrow> int \<Rightarrow> int \<Rightarrow> buf"
  d_calculate_residuals :: "globals \<Rightarrow> buf \<Rightarrow> buf \<Rightarrow> buf \<Rightarrow> int \<Rightarrow> int \<Rightarrow> int \<Rightarrow> buf"
  d_squares_sum :: "buf \<Rightarrow> int \<Rightarrow> int \<Rightarrow> buf"
  d_sum :: "buf \<Rightarrow> int \<Rightarrow> int \<Rightarrow> buf"
  d_set_uniform_weights :: "int \<Rightarrow> int \<Rightarrow> buf"
  d_calculate_tdist_variance :: "buf \<Rightarrow> int \<Rightarrow> int \<Rightarrow> float \<Rightarrow> buf"
  d_calculate_tdist_weights :: "buf \<Rightarrow> int \<Rightarrow> int \<Rightarrow> float \<Rightarrow> buf"
  d_calculate_jtw :: "buf \<Rightarrow> buf \<Rightarrow> int \<Rightarrow> int \<Rightarrow> buf"
  d_product_JacT_W_Jac :: "buf \<Rightarrow> buf \<Rightarrow> int \<Rightarrow> int \<Rightarrow> buf"
  d_product_JacT_W_res :: "buf \<Rightarrow> buf \<Rightarrow> buf \<Rightarrow> int \<Rightarrow> int \<Rightarrow> buf"
  d_reduce_pre_M_towards_M :: "buf \<Rightarrow> int \<Rightarrow> int \<Rightarrow> int \<Rightarrow> int \<Rightarrow> buf"
  cublasSgemm :: "int \<Rightarrow> int \<Rightarrow> int \<Rightarrow> buf \<Rightarrow> buf \<Rightarrow> buf"
  cublasSasum :: "int \<Rightarrow> buf \<Rightarrow> float"


subsection \<open>Vectors, copies and the CUDA runtime\<close>

text \<open>
  \<open>operator[]\<close> of \<open>std::vector\<close> and \<open>cudaMemcpy\<close> have no defined result outside
  the vector or the source array: the model returns \<open>None\<close> there, and \<open>None\<close> is passed
  on by every caller. \<open>None\<close> is also the value of a reduction loop that never ends.
\<close>

definition vec_at :: "'a list \<Rightarrow> int \<Rightarrow> 'a option" where
  "vec_at xs i = (if 0 \<le> i \<and> i < int (length xs) then Some (xs ! nat i) else None)"

definition vec_set :: "'a list \<Rightarrow> int \<Rightarrow> 'a \<Rightarrow> 'a list option" where
  "vec_set xs i v = (if 0 \<le> i \<and> i < int (length xs) then Some (xs[nat i := v]) else None)"

definition vec_resize :: "int \<Rightarrow> 'a \<Rightarrow> 'a list option" where
  "vec_resize n v = (if 0 \<le> n then Some (replicate (nat n) v) else None)"

definition memcpy :: "int \<Rightarrow> buf \<Rightarrow> buf option" where
  "memcpy n src = (if 0 \<le> n \<and> nat n \<le> length src then Some (take (nat n) src) else None)"

definition write_at :: "buf \<Rightarrow> int \<Rightarrow> buf \<Rightarrow> buf" where
  "write_at old off src =
     take (nat off) old @ replicate (nat off - length old) (Fin 0) @ src
       @ drop (nat off + length src) old"

definition cudaMalloc :: "int \<Rightarrow> Tracker \<Rightarrow> Tracker" where
  "cudaMalloc bytes s = s\<lparr>cuda_log := cuda_log s @ [Malloc bytes]\<rparr>"

definition cudaFree :: "Tracker \<Rightarrow> Tracker" where
  "cudaFree s = s\<lparr>cuda_log := cuda_log s @ [Free]\<rparr>"

text \<open>
  Modelled from the spec: the macro \<open>CUDA_CHECK\<close> of common.h, which is not among the
  sources. The spec calls a failed allocation at construction fatal: \<open>cudaMalloc\<close>
  followed by \<open>CUDA_CHECK\<close> has no result when the runtime refuses the request.
  \<open>cudaMallocs\<close> is a run of such calls, in their order.
\<close>

definition cudaMalloc_checked :: "env \<Rightarrow> int \<Rightarrow> Tracker \<Rightarrow> Tracker option" where
  "cudaMalloc_checked env bytes s =
     (if cudaMalloc_ok env (cuda_log s) bytes then Some (cudaMalloc bytes s) else None)"

fun cudaMallocs :: "env \<Rightarrow> int list \<Rightarrow> Tracker \<Rightarrow> Tracker option" where
  "cudaMallocs env [] s = Some s"
| "cudaMallocs env (bytes # rest) s =
     (case cudaMalloc_checked env bytes s of
        None \<Rightarrow> None
      | Some s' \<Rightarrow> cudaMallocs env rest s')"

definition sizeof_float :: int where
  "sizeof_float = 4"

text \<open>\<open>n * sizeof(float)\<close> for an \<open>int n\<close>: the product is taken in \<open>size_t\<close>.\<close>

definition float_bytes :: "int \<Rightarrow> int" where
  "float_bytes n = size_t (size_t n * sizeof_float)"

definition vec_neg :: "float list \<Rightarrow> float list" where
  "vec_neg v = map fneg v"

definition Zero :: "nat \<Rightarrow> float list" where
  "Zero n = replicate n (Fin 0)"

subsection \<open>Counting loops\<close>

text \<open>
  \<open>for (int level = lo; level <= hi; level++)\<close> and
  \<open>for (int level = hi; level >= lo; level--)\<close>, with a body that may fail.
\<close>

function for_up :: "int \<Rightarrow> int \<Rightarrow> (int \<Rightarrow> 'a \<Rightarrow> 'a option) \<Rightarrow> 'a \<Rightarrow> 'a option" where
  "for_up level hi body x =
     (if level \<le> hi then
        (case body level x of None \<Rightarrow> None | Some x' \<Rightarrow> for_up (level + 1) hi body x')
      else Some x)"
  by pat_completeness auto
termination
  by (relation "measure (\<lambda>(level, hi, body, x). nat (hi + 1 - level))") auto

function for_down :: "int \<Rightarrow> int \<Rightarrow> (int \<Rightarrow> 'a \<Rightarrow> 'a option) \<Rightarrow> 'a \<Rightarrow> 'a option" where
  "for_down level lo body x =
     (if level \<ge> lo then
        (case body level x of None \<Rightarrow> None | Some x' \<Rightarrow> for_down (level - 1) lo body x')
      else Some x)"
  by pat_completeness auto
termination
  by (relation "measure (\<lambda>(level, lo, body, x). nat (level + 1 - lo))") auto

declare for_up.simps [simp del]
declare for_down.simps [simp del]

subsection \<open>Preprocessing\<close>

text \<open>The bodies of the two loops over the levels of the camera matrix.\<close>

definition fill_K_level :: "env \<Rightarrow> int \<Rightarrow> Tracker \<Rightarrow> Tracker option" where
  "fill_K_level env level s0 = do {
     below \<leftarrow> vec_at (K_pyr s0) (level - 1);
     k \<leftarrow> vec_set (K_pyr s0) level (downsampleK env below);
     let s = s0\<lparr>K_pyr := k\<rparr>;
     here \<leftarrow> vec_at (K_pyr s) level;
     inv \<leftarrow> invertKMat env here;
     i \<leftarrow> vec_set (K_inv_pyr s) level inv;
     Some (s\<lparr>K_inv_pyr := i\<rparr>)
   }"

definition fill_K_levels :: "env \<Rightarrow> Matrix3f \<Rightarrow> Tracker \<Rightarrow> Tracker option" where
  "fill_K_levels env K s0 = do {
     k0 \<leftarrow> vec_set (K_pyr s0) 0 K;
     let s = s0\<lparr>K_pyr := k0\<rparr>;
     here \<leftarrow> vec_at (K_pyr s) 0;
     inv \<leftarrow> invertKMat env here;
     i0 \<leftarrow> vec_set (K_inv_pyr s) 0 inv;
     let s = s\<lparr>K_inv_pyr := i0\<rparr>;
     for_up 1 (maxLevel s) (fill_K_level env) s
   }"

definition load_K_level :: "int \<Rightarrow> Tracker \<Rightarrow> Tracker option" where
  "load_K_level level s = do {
     here \<leftarrow> vec_at (K_pyr s) level;
     Some (s\<lparr>dev := (dev s)\<lparr>const_K_pyr := write_at (const_K_pyr (dev s)) (9 * level) here\<rparr>\<rparr>)
   }"

definition load_K_to_device :: "Tracker \<Rightarrow> Tracker option" where
  "load_K_to_device s = for_up 0 (maxLevel s) load_K_level s"

text \<open>
  \<open>fill_pyramid\<close> works on the pyramid it receives by reference; the caller stores the
  result in \<open>d_cur\<close> or \<open>d_prev\<close>. \<open>resize_level\<close> and \<open>derive_level\<close> are the bodies of
  its two loops. Whatever \<open>imresize_CUDA\<close> allocates and frees inside is outside
  tracker.hpp and is not logged.
\<close>

definition resize_level :: "env \<Rightarrow> Tracker \<Rightarrow> int \<Rightarrow> PyramidLevel list
    \<Rightarrow> PyramidLevel list option" where
  "resize_level env s level d_img0 = do {
     let level_width = level_size (width s) level;
     let level_height = level_size (height s) level;
     below \<leftarrow> vec_at d_img0 (level - 1);
     here \<leftarrow> vec_at d_img0 level;
     d_img \<leftarrow> vec_set d_img0 level (here\<lparr>gray := imresize_CUDA env (gray below)
         (2 * level_width) (2 * level_height) level_width level_height 1 False\<rparr>);
     below \<leftarrow> vec_at d_img (level - 1);
     here \<leftarrow> vec_at d_img level;
     vec_set d_img level (here\<lparr>depth := imresize_CUDA env (depth below)
         (2 * level_width) (2 * level_height) level_width level_height 1 True\<rparr>)
   }"

definition derive_level :: "env \<Rightarrow> Tracker \<Rightarrow> int \<Rightarrow> PyramidLevel list
    \<Rightarrow> PyramidLevel list option" where
  "derive_level env s level d_img = do {
     let level_width = level_size (width s) level;
     let level_height = level_size (height s) level;
     here \<leftarrow> vec_at d_img level;
     let (dx, dy) = image_derivatives_CUDA env (gray here) level_width level_height;
     vec_set d_img level (here\<lparr>gray_dx := dx, gray_dy := dy\<rparr>)
   }"

definition fill_pyramid :: "env \<Rightarrow> Tracker \<Rightarrow> PyramidLevel list \<Rightarrow> buf \<Rightarrow> buf
    \<Rightarrow> PyramidLevel list option" where
  "fill_pyramid env s d_img0 grayImg depthImg = do {
     base \<leftarrow> vec_at d_img0 0;
     g0 \<leftarrow> memcpy (width s * height s) grayImg;
     d_img \<leftarrow> vec_set d_img0 0 (base\<lparr>gray := g0\<rparr>);
     base \<leftarrow> vec_at d_img 0;
     d0 \<leftarrow> memcpy (width s * height s) depthImg;
     d_img \<leftarrow> vec_set d_img 0 (base\<lparr>depth := d0\<rparr>);
     d_img \<leftarrow> for_up 1 (maxLevel s) (resize_level env s) d_img;
     for_up 0 (maxLevel s) (derive_level env s) d_img
   }"

subsection \<open>Alignment: kernel launches\<close>

definition transform_points :: "env \<Rightarrow> int \<Rightarrow> int \<Rightarrow> int \<Rightarrow> Tracker \<Rightarrow> Tracker option" where
  "transform_points env level level_width level_height s = do {
     prev \<leftarrow> vec_at (d_prev s) level;
     let (xp, yp, zp, uw, vw) =
           d_transform_points env (dev s) (depth prev) level_width level_height level;
     Some (s\<lparr>d_x_prime := xp, d_y_prime := yp, d_z_prime := zp,
             d_u_warped := uw, d_v_warped := vw\<rparr>)
   }"

definition calculate_jacobian :: "env \<Rightarrow> int \<Rightarrow> int \<Rightarrow> int \<Rightarrow> Tracker \<Rightarrow> Tracker option" where
  "calculate_jacobian env level level_width level_height s =
     Some (s\<lparr>d_J := d_calculate_jacobian env (dev s) (d_x_prime s) (d_y_prime s) (d_z_prime s)
                      (d_u_warped s) (d_v_warped s) level_width level_height level\<rparr>)"

definition calculate_residuals :: "env \<Rightarrow> int \<Rightarrow> int \<Rightarrow> int \<Rightarrow> Tracker \<Rightarrow> Tracker option" where
  "calculate_residuals env level level_width level_height s = do {
     prev \<leftarrow> vec_at (d_prev s) level;
     Some (s\<lparr>d_r := d_calculate_residuals env (dev s) (gray prev) (d_u_warped s) (d_v_warped s)
                      level_width level_height level\<rparr>)
   }"

text \<open>
  The loop \<open>while (true)\<close> that \<open>calculate_error\<close> and \<open>reduce_array_GPU\<close> both contain:
  reduce \<open>d_aux\<close> into \<open>d_aux2\<close>, stop when one block did it, otherwise swap the two
  pointers and go on with the number of blocks as the new size.
\<close>

partial_function (option) sum_loop :: "env \<Rightarrow> buf \<Rightarrow> int \<Rightarrow> int \<Rightarrow> buf option" where
  "sum_loop env d_aux sz nblocks =
     (let d_aux2 = d_sum env d_aux sz nblocks in
      if nblocks = 1 then Some d_aux2
      else sum_loop env d_aux2 nblocks (ceil_div_1024 nblocks))"

declare sum_loop.simps [code]

definition calculate_error :: "env \<Rightarrow> int \<Rightarrow> int \<Rightarrow> int \<Rightarrow> Tracker \<Rightarrow> Tracker option" where
  "calculate_error env level level_width level_height s0 =
     (if ENABLE_CUBLAS env then
        (let n = level_width * level_height in
         Some (s0\<lparr>d_error := cublasSgemm env 1 1 n (d_r s0) (d_r s0)\<rparr>))
      else do {
        let sz = level_width * level_height;
        let nblocks = ceil_div_1024 sz;
        let s = cudaMalloc (nblocks * sizeof_float) s0;
        let d_aux = d_squares_sum env (d_r s) sz nblocks;
        let sz = nblocks;
        let nblocks = ceil_div_1024 sz;
        let s = cudaMalloc (nblocks * sizeof_float) s;
        d_aux2 \<leftarrow> sum_loop env d_aux sz nblocks;
        e \<leftarrow> memcpy 1 d_aux2;
        let s = s\<lparr>d_error := e\<rparr>;
        Some (cudaFree (cudaFree s))
      })"

definition reduce_array_GPU :: "env \<Rightarrow> buf \<Rightarrow> int \<Rightarrow> Tracker \<Rightarrow> (float \<times> Tracker) option" where
  "reduce_array_GPU env d_arr sz0 s0 = do {
     let nblocks = ceil_div_1024 sz0;
     let s = cudaMalloc (nblocks * sizeof_float) s0;
     let d_aux = d_sum env d_arr sz0 nblocks;
     let sz = nblocks;
     let nblocks = ceil_div_1024 sz;
     let s = cudaMalloc (nblocks * sizeof_float) s;
     d_aux2 \<leftarrow> sum_loop env d_aux sz nblocks;
     p_out \<leftarrow> vec_at d_aux2 0;
     Some (p_out, cudaFree (cudaFree s))
   }"

text \<open>
  The \<open>do ... while\<close> loop of \<open>calculate_weights\<close>. \<open>variance_pass\<close> is its body up to
  \<open>variance /= n\<close>, \<open>variance_gap\<close> the left side of its test. The loop returns the values
  of \<open>variance_init\<close>, \<open>variance\<close> and \<open>iterations\<close> at its exit.
\<close>

definition variance_pass :: "env \<Rightarrow> int \<Rightarrow> int \<Rightarrow> float \<Rightarrow> Tracker \<Rightarrow> (float \<times> Tracker) option" where
  "variance_pass env level_width level_height variance_init s0 =
     (let n = level_width * level_height;
          s = s0\<lparr>d_W := d_calculate_tdist_variance env (d_r s0) level_width level_height
                           variance_init\<rparr>
      in case (if ENABLE_CUBLAS env then Some (cublasSasum env n (d_W s), s)
               else reduce_array_GPU env (d_W s) n s) of
           None \<Rightarrow> None
         | Some (variance, s) \<Rightarrow>
             Some (fdiv (round32 env) variance (round32 env (real_of_int n)), s))"

definition variance_gap :: "env \<Rightarrow> float \<Rightarrow> float \<Rightarrow> float" where
  "variance_gap env variance variance_init =
     fabs (fsub (round32 env) (fdiv (round32 env) (Fin 1) variance)
                              (fdiv (round32 env) (Fin 1) variance_init))"

function variance_loop :: "env \<Rightarrow> int \<Rightarrow> int \<Rightarrow> float \<Rightarrow> int \<Rightarrow> Tracker
    \<Rightarrow> (float \<times> float \<times> int \<times> Tracker) option" where
  "variance_loop env level_width level_height variance iterations s0 =
     (let variance_init = variance
      in case variance_pass env level_width level_height variance_init s0 of
           None \<Rightarrow> None
         | Some (variance', s) \<Rightarrow>
             (let iterations' = iterations + 1
              in if fgt (variance_gap env variance' variance_init) DOUBLE_1e_3 \<and> iterations' < 5
                 then variance_loop env level_width level_height variance' iterations' s
                 else Some (variance_init, variance', iterations', s)))"
  by pat_completeness auto
termination
  by (relation "measure (\<lambda>(env, lw, lh, variance, iterations, s). nat (5 - iterations))") auto

declare variance_loop.simps [simp del]

text \<open>
  \<open>calculate_weights\<close> receives \<open>variance_init\<close> by reference; the model returns its
  final value with the state.
\<close>

definition calculate_weights :: "env \<Rightarrow> int \<Rightarrow> int \<Rightarrow> int \<Rightarrow> float \<Rightarrow> bool \<Rightarrow> Tracker
    \<Rightarrow> (float \<times> Tracker) option" where
  "calculate_weights env level level_width level_height variance_init useTDist s0 =
     (if \<not> useTDist then
        Some (variance_init, s0\<lparr>d_W := d_set_uniform_weights env level_width level_height\<rparr>)
      else do {
        let variance = variance_init;
        let iterations = 0;
        (variance_init, variance, iterations, s) \<leftarrow>
            variance_loop env level_width level_height variance iterations s0;
        let variance_init = variance;
        Some (variance_init,
              s\<lparr>d_W := d_calculate_tdist_weights env (d_r s) level_width level_height variance\<rparr>)
      })"

definition calculate_jtw :: "env \<Rightarrow> int \<Rightarrow> int \<Rightarrow> int \<Rightarrow> Tracker \<Rightarrow> Tracker" where
  "calculate_jtw env level level_width level_height s =
     (let lev_size = level_width * level_height in
      s\<lparr>d_JTW := d_calculate_jtw env (d_J s) (d_W s) lev_size 6\<rparr>)"

subsection \<open>Alignment: the normal equations\<close>

text \<open>
  The two loops \<open>while (true)\<close> of the build without cuBLAS work on the member pointers
  and on the device memory they point to, and on nothing else; they return the two
  pointers (swapped at the end of every pass) and the memory.
\<close>

type_synonym reduction = "ptr \<times> ptr \<times> (ptr \<Rightarrow> buf)"

partial_function (option) reduce_A_loop :: "env \<Rightarrow> int \<Rightarrow> int \<Rightarrow> ptr \<Rightarrow> ptr \<Rightarrow> (ptr \<Rightarrow> buf)
    \<Rightarrow> reduction option" where
  "reduce_A_loop env sz numblocksZ pre_A pre_A_aux mem =
     (let mem' = mem(pre_A_aux := d_reduce_pre_M_towards_M env (mem pre_A) sz 6 6 numblocksZ)
      in if numblocksZ = 1 then Some (pre_A_aux, pre_A, mem')
         else reduce_A_loop env numblocksZ (ceil_div_1024 numblocksZ) pre_A_aux pre_A mem')"

declare reduce_A_loop.simps [code]

definition calculate_A :: "env \<Rightarrow> int \<Rightarrow> int \<Rightarrow> int \<Rightarrow> Tracker \<Rightarrow> Tracker option" where
  "calculate_A env level level_width level_height s0 =
     (if ENABLE_CUBLAS env then do {
        let n = level_width * level_height;
        let s = (if \<not> useTDistWeights s0
                 then s0\<lparr>d_A := cublasSgemm env 6 6 n (d_J s0) (d_J s0)\<rparr>
                 else (let s1 = calculate_jtw env level level_width level_height s0
                       in s1\<lparr>d_A := cublasSgemm env 6 6 n (d_JTW s1) (d_J s1)\<rparr>));
        a \<leftarrow> memcpy (6 * 6) (d_A s);
        Some (s\<lparr>A := a\<rparr>)
      }
      else do {
        let sz = level_width * level_height;
        let numblocksZ = ceil_div_1024 sz;
        let s = s0\<lparr>store := (store s0)(d_pre_A s0 :=
                     d_product_JacT_W_Jac env (d_J s0) (d_W s0) sz numblocksZ)\<rparr>;
        let sz = numblocksZ;
        let numblocksZ = ceil_div_1024 sz;
        (pre_A, pre_A_aux, mem) \<leftarrow>
            reduce_A_loop env sz numblocksZ (d_pre_A s) (d_pre_A_aux s) (store s);
        let s = s\<lparr>d_pre_A := pre_A, d_pre_A_aux := pre_A_aux, store := mem\<rparr>;
        a \<leftarrow> memcpy (6 * 6) (store s (d_pre_A s));
        Some (s\<lparr>A := a\<rparr>)
      })"

partial_function (option) reduce_b_loop :: "env \<Rightarrow> int \<Rightarrow> int \<Rightarrow> ptr \<Rightarrow> ptr \<Rightarrow> (ptr \<Rightarrow> buf)
    \<Rightarrow> reduction option" where
  "reduce_b_loop env sz numblocksZ pre_b pre_b_aux0 mem =
     (let pre_b_aux = (if numblocksZ = 1 then Buf_b else pre_b_aux0);
          mem' = mem(pre_b_aux := d_reduce_pre_M_towards_M env (mem pre_b) sz 6 1 numblocksZ)
      in if numblocksZ = 1 then Some (pre_b_aux, pre_b, mem')
         else reduce_b_loop env numblocksZ (ceil_div_1024 numblocksZ) pre_b_aux pre_b mem')"

declare reduce_b_loop.simps [code]

definition calculate_b :: "env \<Rightarrow> int \<Rightarrow> int \<Rightarrow> int \<Rightarrow> Tracker \<Rightarrow> Tracker option" where
  "calculate_b env level level_width level_height s0 =
     (if ENABLE_CUBLAS env then do {
        let n = level_width * level_height;
        let s = (if \<not> useTDistWeights s0
                 then s0\<lparr>store := (store s0)(Buf_b := cublasSgemm env 6 1 n (d_J s0) (d_r s0))\<rparr>
                 else s0\<lparr>store := (store s0)(Buf_b := cublasSgemm env 6 1 n (d_JTW s0) (d_r s0))\<rparr>);
        v \<leftarrow> memcpy 6 (store s Buf_b);
        Some (s\<lparr>b := v\<rparr>)
      }
      else do {
        let sz = level_width * level_height;
        let numblocksZ = ceil_div_1024 sz;
        let s = s0\<lparr>store := (store s0)(d_pre_b s0 :=
                     d_product_JacT_W_res env (d_J s0) (d_W s0) (d_r s0) sz numblocksZ)\<rparr>;
        let sz = numblocksZ;
        let numblocksZ = ceil_div_1024 sz;
        (pre_b, pre_b_aux, mem) \<leftarrow>
            reduce_b_loop env sz numblocksZ (d_pre_b s) (d_pre_b_aux s) (store s);
        let s = s\<lparr>d_pre_b := pre_b, d_pre_b_aux := pre_b_aux, store := mem\<rparr>;
        v \<leftarrow> memcpy 6 (store s (d_pre_b s));
        Some (s\<lparr>b := v\<rparr>)
      })"


subsection \<open>Textures and allocation\<close>

definition bind_textures :: "int \<Rightarrow> int \<Rightarrow> int \<Rightarrow> Tracker \<Rightarrow> Tracker option" where
  "bind_textures level level_width level_height s = do {
     cur \<leftarrow> vec_at (d_cur s) level;
     Some (s\<lparr>dev := (dev s)\<lparr>texRef_grayImg := Some (gray cur),
                               texRef_gray_dx := Some (gray_dx cur),
                               texRef_gray_dy := Some (gray_dy cur)\<rparr>\<rparr>)
   }"

definition unbind_textures :: "Tracker \<Rightarrow> Tracker" where
  "unbind_textures s =
     s\<lparr>dev := (dev s)\<lparr>texRef_grayImg := None, texRef_gray_dx := None, texRef_gray_dy := None\<rparr>\<rparr>"

text \<open>
  \<open>allocateGPUMemory\<close>: the requests in the order of the calls, each followed by
  \<open>CUDA_CHECK\<close>. The sizes are those of the source: \<open>6*width*height*sizeof(float)\<close>
  multiplies in \<open>int\<close> from the left and converts the product to \<open>size_t\<close> for the last
  factor. The pyramid loop asks for eight rasters of the size of each level; its
  \<open>1 << level\<close> is defined for the levels \<open>0 .. 30\<close> only.
\<close>

definition pyramid_mallocs :: "env \<Rightarrow> int \<Rightarrow> Tracker \<Rightarrow> Tracker option" where
  "pyramid_mallocs env level s =
     (if 0 \<le> level \<and> level \<le> 30 \<and>
         level < int (length (d_cur s)) \<and> level < int (length (d_prev s))
      then (let level_width = level_size (width s) level;
                level_height = level_size (height s) level;
                bytes = float_bytes (mul32 level_width level_height)
            in cudaMallocs env [bytes, bytes, bytes, bytes, bytes, bytes, bytes, bytes] s)
      else None)"

definition allocateGPUMemory :: "env \<Rightarrow> Tracker \<Rightarrow> Tracker option" where
  "allocateGPUMemory env s0 = do {
     let w = width s0;
     let h = height s0;
     s \<leftarrow> cudaMallocs env
            [float_bytes (mul32 (mul32 6 w) h),
             float_bytes (mul32 (mul32 6 w) h),
             float_bytes (mul32 w h),
             float_bytes (mul32 w h),
             float_bytes (mul32 w h),
             float_bytes (mul32 w h),
             float_bytes (mul32 w h),
             float_bytes (mul32 w h),
             float_bytes (mul32 w h),
             float_bytes 6,
             float_bytes (mul32 6 6),
             size_t sizeof_float] s0;
     s \<leftarrow> for_up 0 (maxLevel s) (pyramid_mallocs env) s;
     if ENABLE_CUBLAS env then Some s
     else do {
       s \<leftarrow> cudaMallocs env
              [size_t (float_bytes (mul32 (mul32 (mul32 6 6) w) h) + 1023) div 1024,
               size_t (float_bytes (mul32 (mul32 (mul32 6 6) w) h) + 1023) div 1024,
               size_t (float_bytes (mul32 (mul32 (mul32 6 1) w) h) + 1023) div 1024,
               size_t (float_bytes (mul32 (mul32 (mul32 6 1) w) h) + 1023) div 1024] s;
       Some (s\<lparr>d_pre_A := Buf_pre_A, d_pre_A_aux := Buf_pre_A_aux,
               d_pre_b := Buf_pre_b, d_pre_b_aux := Buf_pre_b_aux\<rparr>)
     }
   }"

subsection \<open>The constructor\<close>

text \<open>
  The member initialisers, then the body. Members without an initialiser and device
  memory start as empty arrays (\<open>error\<close> as \<open>NaN\<close>); \<open>define_texture_parameters\<close> only
  sets the filter modes of the texture references and has no counterpart in the state.
  \<open>resize\<close> of a vector to a negative \<open>int\<close> has no result. Of the runtime calls of the
  constructor the requests for memory can be refused; the query of the device, the
  copies of data that is there and the kernel launches are taken to succeed.
\<close>

definition empty_level :: PyramidLevel where
  "empty_level = \<lparr>gray = [], depth = [], gray_dx = [], gray_dy = []\<rparr>"

definition empty_globals :: globals where
  "empty_globals = \<lparr>const_K_pyr = [], const_RK_inv = [], const_translation = [],
     texRef_grayImg = None, texRef_gray_dx = None, texRef_gray_dy = None\<rparr>"

definition initial_members :: "int \<Rightarrow> int \<Rightarrow> int \<Rightarrow> int \<Rightarrow> bool \<Rightarrow> int \<Rightarrow> SolvingMethod
    \<Rightarrow> Tracker" where
  "initial_members w h minL maxL useTDist maxIterations method =
     \<lparr>solvingMethod = method, maxIterationsPerLevel = maxIterations, maxLevel = maxL,
      minLevel = minL, width = w, height = h, useTDistWeights = useTDist,
      A = Zero 36, b = Zero 6, error = NaN,
      d_x_prime = [], d_y_prime = [], d_z_prime = [], d_u_warped = [], d_v_warped = [],
      d_J = [], d_JTW = [], d_W = [], d_r = [], d_A = [], d_error = [],
      d_cur = [], d_prev = [], temp_swap = [],
      R = [], RK_inv = [], t = [],
      d_pre_A = Buf_pre_A, d_pre_A_aux = Buf_pre_A_aux,
      d_pre_b = Buf_pre_b, d_pre_b_aux = Buf_pre_b_aux, store = (\<lambda>p. []),
      K_pyr = [], K_inv_pyr = [],
      xi_delta = [], xi = Zero 6, xi_total = Zero 6,
      dev = empty_globals, cuda_log = []\<rparr>"

definition Tracker_new :: "env \<Rightarrow> buf \<Rightarrow> buf \<Rightarrow> int \<Rightarrow> int \<Rightarrow> Matrix3f \<Rightarrow> int \<Rightarrow> int \<Rightarrow> bool
    \<Rightarrow> int \<Rightarrow> SolvingMethod \<Rightarrow> Tracker option" where
  "Tracker_new env grayFirstFrame depthFirstFrame w h K minL maxL useTDist maxIterations method = do {
     let s = initial_members w h minL maxL useTDist maxIterations method;
     cur \<leftarrow> vec_resize (maxL + 1) empty_level;
     prev \<leftarrow> vec_resize (maxL + 1) empty_level;
     let s = s\<lparr>d_cur := cur, d_prev := prev\<rparr>;
     s \<leftarrow> allocateGPUMemory env s;
     ks \<leftarrow> vec_resize (maxL + 1) [];
     kis \<leftarrow> vec_resize (maxL + 1) [];
     let s = s\<lparr>K_pyr := ks, K_inv_pyr := kis\<rparr>;
     s \<leftarrow> fill_K_levels env K s;
     s \<leftarrow> load_K_to_device s;
     prev \<leftarrow> fill_pyramid env s (d_prev s) grayFirstFrame depthFirstFrame;
     Some (s\<lparr>d_prev := prev\<rparr>)
   }"

subsection \<open>align\<close>

text \<open>One pass of the body of the inner loop, up to the copy of the error to the host.\<close>

definition iteration :: "env \<Rightarrow> int \<Rightarrow> int \<Rightarrow> int \<Rightarrow> float \<Rightarrow> Tracker \<Rightarrow> (float \<times> Tracker) option" where
  "iteration env level level_width level_height variance0 s0 = do {
     let (rot, tra) = convertSE3ToT env (xi s0);
     let s = s0\<lparr>R := rot, t := tra\<rparr>;
     K_inv \<leftarrow> vec_at (K_inv_pyr s) level;
     let s = s\<lparr>RK_inv := mat3_mul env (R s) K_inv\<rparr>;
     let s = s\<lparr>dev := (dev s)\<lparr>const_RK_inv := RK_inv s\<rparr>\<rparr>;
     let s = s\<lparr>dev := (dev s)\<lparr>const_translation := t s\<rparr>\<rparr>;
     s \<leftarrow> transform_points env level level_width level_height s;
     s \<leftarrow> calculate_residuals env level level_width level_height s;
     s \<leftarrow> calculate_jacobian env level level_width level_height s;
     s \<leftarrow> calculate_error env level level_width level_height s;
     (variance, s) \<leftarrow> calculate_weights env level level_width level_height variance0
                        (useTDistWeights s) s;
     s \<leftarrow> calculate_A env level level_width level_height s;
     s \<leftarrow> calculate_b env level level_width level_height s;
     let s = s\<lparr>xi_delta := vec_neg (ldlt_solve env (A s) (b s))\<rparr>;
     let s = s\<lparr>xi := lieLog env (mat4_mul env (lieExp env (xi_delta s)) (lieExp env (xi s)))\<rparr>;
     e \<leftarrow> vec_at (d_error s) 0;
     Some (variance, s\<lparr>error := e\<rparr>)
   }"

text \<open>
  The inner loop \<open>for (int i = 0; i < maxIterationsPerLevel; i++)\<close> with its \<open>break\<close>.
  \<open>error_prev\<close> and \<open>variance\<close> are the locals of the enclosing level; the bound is
  passed in since no code assigns the member. \<open>error_test\<close> is the condition of the
  \<open>break\<close>.
\<close>

definition error_test :: "env \<Rightarrow> float \<Rightarrow> float \<Rightarrow> bool" where
  "error_test env e error_prev \<longleftrightarrow>
     fgt (fdiv (round32 env) e error_prev) DOUBLE_0_995 \<or> feq0 e"

function iterations :: "env \<Rightarrow> int \<Rightarrow> int \<Rightarrow> int \<Rightarrow> int \<Rightarrow> int \<Rightarrow> float \<Rightarrow> float \<Rightarrow> Tracker
    \<Rightarrow> Tracker option" where
  "iterations env level level_width level_height maxIterations i error_prev variance s =
     (if i < maxIterations then
        (case iteration env level level_width level_height variance s of
           None \<Rightarrow> None
         | Some (variance', s') \<Rightarrow>
             if error_test env (error s') error_prev
             then Some s'
             else iterations env level level_width level_height maxIterations (i + 1)
                    (error s') variance' s')
      else Some s)"
  by pat_completeness auto
termination
  by (relation "measure (\<lambda>(env, level, lw, lh, maxIterations, i, e, v, s). nat (maxIterations - i))")
     auto

declare iterations.simps [simp del]

definition process_level :: "env \<Rightarrow> int \<Rightarrow> Tracker \<Rightarrow> Tracker option" where
  "process_level env level s0 = do {
     let level_width = level_size (width s0) level;
     let level_height = level_size (height s0) level;
     let error_prev = BIG_FLOAT;
     s \<leftarrow> bind_textures level level_width level_height s0;
     let variance = VARIANCE_INITIAL;
     s \<leftarrow> iterations env level level_width level_height (maxIterationsPerLevel s) 0
            error_prev variance s;
     Some (unbind_textures s)
   }"

definition align :: "env \<Rightarrow> buf \<Rightarrow> buf \<Rightarrow> Tracker \<Rightarrow> (Vector6f \<times> Tracker) option" where
  "align env grayCur depthCur s0 = do {
     cur \<leftarrow> fill_pyramid env s0 (d_cur s0) grayCur depthCur;
     let s = s0\<lparr>d_cur := cur\<rparr>;
     s \<leftarrow> for_down (maxLevel s) (minLevel s) (process_level env) s;
     let s = s\<lparr>temp_swap := d_cur s\<rparr>;
     let s = s\<lparr>d_cur := d_prev s\<rparr>;
     let s = s\<lparr>d_prev := temp_swap s\<rparr>;
     let s = s\<lparr>xi_total := lieLog env (mat4_mul env (lieExp env (xi_total s))
                                 (mat4_inverse env (lieExp env (xi s))))\<rparr>;
     Some (xi_total s, s)
   }"


subsection \<open>Notions used to state the properties\<close>

text \<open>The body of a loop run over a list of levels, in the order of the list.\<close>

fun each :: "(int \<Rightarrow> 'a \<Rightarrow> 'a option) \<Rightarrow> int list \<Rightarrow> 'a \<Rightarrow> 'a option" where
  "each body [] x = Some x"
| "each body (level # levels) x =
     (case body level x of None \<Rightarrow> None | Some x' \<Rightarrow> each body levels x')"

text \<open>The state and the variance after \<open>k\<close> passes of the body of the inner loop.\<close>

fun after :: "env \<Rightarrow> int \<Rightarrow> int \<Rightarrow> int \<Rightarrow> nat \<Rightarrow> float \<times> Tracker \<Rightarrow> (float \<times> Tracker) option" where
  "after env level lw lh 0 vs = Some vs"
| "after env level lw lh (Suc k) vs =
     (case iteration env level lw lh (fst vs) (snd vs) of
        None \<Rightarrow> None
      | Some vs' \<Rightarrow> after env level lw lh k vs')"

text \<open>
  The error read back in pass \<open>j\<close> (counted from 1), and the error that the test of pass
  \<open>j\<close> divides by: the initial \<open>error_prev\<close> in the first pass, the error read back in
  pass \<open>j - 1\<close> afterwards.
\<close>

definition error_after :: "env \<Rightarrow> int \<Rightarrow> int \<Rightarrow> int \<Rightarrow> float \<times> Tracker \<Rightarrow> nat \<Rightarrow> float" where
  "error_after env level lw lh vs j =
     (case after env level lw lh j vs of None \<Rightarrow> NaN | Some vs' \<Rightarrow> error (snd vs'))"

definition error_before :: "env \<Rightarrow> int \<Rightarrow> int \<Rightarrow> int \<Rightarrow> float \<Rightarrow> float \<times> Tracker \<Rightarrow> nat \<Rightarrow> float" where
  "error_before env level lw lh error_prev vs j =
     (if j \<le> 1 then error_prev else error_after env level lw lh vs (j - 1))"

text \<open>The variance and the state after \<open>k\<close> passes of the body of the variance loop.\<close>

fun variance_after :: "env \<Rightarrow> int \<Rightarrow> int \<Rightarrow> nat \<Rightarrow> float \<times> Tracker \<Rightarrow> (float \<times> Tracker) option" where
  "variance_after env lw lh 0 vs = Some vs"
| "variance_after env lw lh (Suc k) vs =
     (case variance_pass env lw lh (fst vs) (snd vs) of
        None \<Rightarrow> None
      | Some vs' \<Rightarrow> variance_after env lw lh k vs')"

definition variance_at :: "env \<Rightarrow> int \<Rightarrow> int \<Rightarrow> float \<times> Tracker \<Rightarrow> nat \<Rightarrow> float" where
  "variance_at env lw lh vs j =
     (case variance_after env lw lh j vs of None \<Rightarrow> NaN | Some vs' \<Rightarrow> fst vs')"

text \<open>\<open>x < c\<close> for a float \<open>x\<close> and a double constant \<open>c\<close>.\<close>

fun flt :: "float \<Rightarrow> real \<Rightarrow> bool" where
  "flt (Fin a) c = (a < c)"
| "flt NInf c = True"
| "flt PInf c = False"
| "flt NaN c = False"

text \<open>
  Positive definiteness of a 6 x 6 matrix given by its 36 entries in column major order:
  all entries finite and the quadratic form positive away from zero.
\<close>

fun the_real :: "float \<Rightarrow> real" where
  "the_real (Fin a) = a"
| "the_real x = 0"

fun is_Fin :: "float \<Rightarrow> bool" where
  "is_Fin (Fin a) = True"
| "is_Fin x = False"

definition positive_definite :: "Matrix6f \<Rightarrow> bool" where
  "positive_definite m \<longleftrightarrow>
     length m = 36 \<and> list_all is_Fin m \<and>
     (\<forall>v :: nat \<Rightarrow> real. (\<exists>i<6. v i \<noteq> 0) \<longrightarrow>
        0 < (\<Sum>i<6. \<Sum>j<6. v i * the_real (m ! (i + 6 * j)) * v j))"

text \<open>
  Two pyramids that differ in their depth rasters at most; two states that differ in the
  depth rasters of \<open>d_cur\<close> at most; and two states that differ in the depth rasters of
  \<open>d_prev\<close> and of \<open>temp_swap\<close> at most, where \<open>align\<close> leaves the frame it was given.
\<close>

definition level_eq :: "PyramidLevel \<Rightarrow> PyramidLevel \<Rightarrow> bool" where
  "level_eq l1 l2 \<longleftrightarrow> gray l1 = gray l2 \<and> gray_dx l1 = gray_dx l2 \<and> gray_dy l1 = gray_dy l2"

definition same_but_depth :: "PyramidLevel list \<Rightarrow> PyramidLevel list \<Rightarrow> bool" where
  "same_but_depth c1 c2 \<longleftrightarrow> list_all2 level_eq c1 c2"

definition cur_rel :: "Tracker \<Rightarrow> Tracker \<Rightarrow> bool" where
  "cur_rel s1 s2 \<longleftrightarrow> s1 = s2\<lparr>d_cur := d_cur s1\<rparr> \<and> same_but_depth (d_cur s1) (d_cur s2)"

definition differ_in_new_depth :: "Tracker \<Rightarrow> Tracker \<Rightarrow> bool" where
  "differ_in_new_depth s1 s2 \<longleftrightarrow>
     s1 = s2\<lparr>d_prev := d_prev s1, temp_swap := temp_swap s1\<rparr> \<and>
     same_but_depth (d_prev s1) (d_prev s2) \<and> same_but_depth (temp_swap s1) (temp_swap s2)"

text \<open>
  The members that the optimisation of a level never assigns, and the same with the pose
  estimate \<open>xi\<close> added, for the steps of an inner iteration that come before its update.
\<close>

definition keeps :: "Tracker \<Rightarrow> Tracker \<Rightarrow> bool" where
  "keeps s s' \<longleftrightarrow>
     solvingMethod s' = solvingMethod s \<and> maxIterationsPerLevel s' = maxIterationsPerLevel s \<and>
     maxLevel s' = maxLevel s \<and> minLevel s' = minLevel s \<and> width s' = width s \<and>
     height s' = height s \<and> useTDistWeights s' = useTDistWeights s \<and>
     d_cur s' = d_cur s \<and> d_prev s' = d_prev s \<and> temp_swap s' = temp_swap s \<and>
     K_pyr s' = K_pyr s \<and> K_inv_pyr s' = K_inv_pyr s \<and> xi_total s' = xi_total s \<and>
     const_K_pyr (dev s') = const_K_pyr (dev s)"

definition keeps_pose :: "Tracker \<Rightarrow> Tracker \<Rightarrow> bool" where
  "keeps_pose s s' \<longleftrightarrow> keeps s s' \<and> xi s' = xi s"

text \<open>
  The requests that the constructor makes for device memory, in bytes and in the order of
  the calls of \<open>allocateGPUMemory\<close>: two work arrays of six values for each pixel of the
  full image, seven of one value for each pixel, the three small results, eight rasters
  for each level of the pyramid, each of the size of its level, and in a build without
  cuBLAS the four arrays of the partial sums. \<open>accepted\<close> says that the runtime grants
  a run of requests, one after the other.
\<close>

definition level_bytes :: "int \<Rightarrow> int \<Rightarrow> int \<Rightarrow> int" where
  "level_bytes w h level = float_bytes (mul32 (level_size w level) (level_size h level))"

definition work_requests :: "int \<Rightarrow> int \<Rightarrow> int list" where
  "work_requests w h =
     replicate 2 (float_bytes (mul32 (mul32 6 w) h)) @ replicate 7 (float_bytes (mul32 w h)) @
     [float_bytes 6, float_bytes (mul32 6 6), size_t sizeof_float]"

definition pyramid_requests :: "int \<Rightarrow> int \<Rightarrow> int list \<Rightarrow> int list" where
  "pyramid_requests w h levels = concat (map (\<lambda>l. replicate 8 (level_bytes w h l)) levels)"

definition partial_sum_requests :: "int \<Rightarrow> int \<Rightarrow> int list" where
  "partial_sum_requests w h =
     replicate 2 (size_t (float_bytes (mul32 (mul32 (mul32 6 6) w) h) + 1023) div 1024) @
     replicate 2 (size_t (float_bytes (mul32 (mul32 (mul32 6 1) w) h) + 1023) div 1024)"

definition constructor_requests :: "bool \<Rightarrow> int \<Rightarrow> int \<Rightarrow> int \<Rightarrow> int list" where
  "constructor_requests cublas w h maxL =
     work_requests w h @ pyramid_requests w h [0..maxL] @
     (if cublas then [] else partial_sum_requests w h)"

fun accepted :: "env \<Rightarrow> cuda_call list \<Rightarrow> int list \<Rightarrow> bool" where
  "accepted env calls [] = True"
| "accepted env calls (bytes # rest) =
     (cudaMalloc_ok env calls bytes \<and> accepted env (calls @ [Malloc bytes]) rest)"

text \<open>
  The calls that one reduction of an array of \<open>n\<close> values makes in a build without
  cuBLAS, in \<open>calculate_error\<close> and in \<open>reduce_array_GPU\<close>: two requests and two releases.
\<close>

definition reduction_calls :: "int \<Rightarrow> cuda_call list" where
  "reduction_calls n =
     [Malloc (ceil_div_1024 n * sizeof_float),
      Malloc (ceil_div_1024 (ceil_div_1024 n) * sizeof_float), Free, Free]"


text \<open>A tracker with the three options that no code of the constructor reads set anew.\<close>

definition with_options :: "SolvingMethod \<Rightarrow> int \<Rightarrow> int \<Rightarrow> Tracker \<Rightarrow> Tracker" where
  "with_options solving maxIterations minL s =
     s\<lparr>solvingMethod := solving, maxIterationsPerLevel := maxIterations, minLevel := minL\<rparr>"

subsection \<open>A small environment for concrete runs\<close>

text \<open>
  Frames of one pixel on one level. Values that binary32 represents are their own
  rounding, and values beyond its range round to an infinity. The pose twists of the runs
  below are multiples of one fixed twist; on such twists the exponential map turns
  addition into the group product, so the group element \<open>exp v\<close> is represented by \<open>v\<close>
  itself, the product by the sum and the inverse by the negation. The solver divides by
  the pivots of a diagonal matrix and returns 0 where the pivot is 0. The runtime grants
  every request for at most \<open>2\<^sup>3\<^sup>0\<close> bytes.

  The pixel is valid when the depth of the previous frame is positive. A valid pixel has
  the residual \<open>r0\<close> and the Jacobian row \<open>jac\<close>, which are parameters; an invalid pixel
  has residual 0 and a zero Jacobian row. The products are those of one pixel: the error
  is the square of the residual, the matrix the outer product of the (weighted) Jacobian
  row with itself, the right hand side the row times the residual. The products of
  cuBLAS and the reductions have the size of their result (36, 6 or 1 values) whatever
  they are given, filled up with zeros.
\<close>

fun fmul :: "(real \<Rightarrow> float) \<Rightarrow> float \<Rightarrow> float \<Rightarrow> float" where
  "fmul rnd NaN y = NaN"
| "fmul rnd x NaN = NaN"
| "fmul rnd (Fin a) (Fin c) = rnd (a * c)"
| "fmul rnd (Fin a) PInf = (if a = 0 then NaN else if 0 < a then PInf else NInf)"
| "fmul rnd (Fin a) NInf = (if a = 0 then NaN else if 0 < a then NInf else PInf)"
| "fmul rnd PInf (Fin c) = (if c = 0 then NaN else if 0 < c then PInf else NInf)"
| "fmul rnd NInf (Fin c) = (if c = 0 then NaN else if 0 < c then NInf else PInf)"
| "fmul rnd PInf PInf = PInf"
| "fmul rnd NInf NInf = PInf"
| "fmul rnd PInf NInf = NInf"
| "fmul rnd NInf PInf = NInf"

definition fadd :: "(real \<Rightarrow> float) \<Rightarrow> float \<Rightarrow> float \<Rightarrow> float" where
  "fadd rnd x y = fsub rnd x (fneg y)"

definition demo_round :: "real \<Rightarrow> float" where
  "demo_round x =
     (if 340282346638528859811704183484516925440 < x then PInf
      else if x < - 340282346638528859811704183484516925440 then NInf
      else Fin x)"

definition demo_solve :: "Matrix6f \<Rightarrow> Vector6f \<Rightarrow> Vector6f" where
  "demo_solve m v =
     map (\<lambda>i. if feq0 (m ! (7 * i)) then Fin 0 else fdiv demo_round (v ! i) (m ! (7 * i)))
       [0, 1, 2, 3, 4, 5]"

definition demo_dot :: "buf \<Rightarrow> buf \<Rightarrow> buf" where
  "demo_dot xs ys =
     (case (xs, ys) of (x # _, y # _) \<Rightarrow> [fmul demo_round x y] | _ \<Rightarrow> [Fin 0])"

definition demo_scale :: "buf \<Rightarrow> buf \<Rightarrow> buf" where
  "demo_scale ws xs = (case ws of w # _ \<Rightarrow> map (fmul demo_round w) xs | [] \<Rightarrow> xs)"

definition demo_outer :: "buf \<Rightarrow> buf \<Rightarrow> buf" where
  "demo_outer xs ys = concat (map (\<lambda>y. map (\<lambda>x. fmul demo_round x y) xs) ys)"

definition demo_valid :: "buf \<Rightarrow> bool" where
  "demo_valid dep = (case dep of d # _ \<Rightarrow> fgt d 0 | [] \<Rightarrow> False)"

text \<open>
  Modelled from the spec: the Student-t terms of alignment.cuh, which is not among the
  sources, with \<open>\<nu> = 5\<close>: the weight \<open>(\<nu> + 1) / (\<nu> + r\<^sup>2 / \<sigma>\<^sup>2)\<close> and the weighted
  squared residual.
\<close>

definition tdist_weight :: "float \<Rightarrow> float \<Rightarrow> float" where
  "tdist_weight r variance =
     fdiv demo_round (Fin 6)
       (fadd demo_round (Fin 5) (fdiv demo_round (fmul demo_round r r) variance))"

definition tdist_term :: "float \<Rightarrow> float \<Rightarrow> float" where
  "tdist_term r variance = fmul demo_round (fmul demo_round r r) (tdist_weight r variance)"

definition demo_env :: "bool \<Rightarrow> float \<Rightarrow> buf \<Rightarrow> env" where
  "demo_env cublas r0 jac =
     \<lparr>ENABLE_CUBLAS = cublas,
      cudaMalloc_ok = (\<lambda>calls bytes. bytes \<le> 1073741824),
      round32 = demo_round,
      lieExp = (\<lambda>x. x),
      lieLog = (\<lambda>g. g),
      convertSE3ToT = (\<lambda>x. (Zero 9, take 3 (drop 3 x))),
      mat4_mul = (\<lambda>g h. map2 (fadd demo_round) g h),
      mat4_inverse = map fneg,
      mat3_mul = (\<lambda>rot k. k),
      ldlt_solve = demo_solve,
      invertKMat = Some,
      downsampleK = (\<lambda>k. k),
      imresize_CUDA = (\<lambda>src w_in h_in w_out h_out nc isDepth. take 1 src),
      image_derivatives_CUDA = (\<lambda>img w h. ([Fin 0], [Fin 0])),
      d_transform_points = (\<lambda>g dep w h level.
         (dep, dep, dep, if demo_valid dep then ([Fin 0], [Fin 0]) else ([NaN], [NaN]))),
      d_calculate_jacobian = (\<lambda>g xp yp zp uw vw w h level.
         if uw = [Fin 0] then jac else Zero 6),
      d_calculate_residuals = (\<lambda>g img uw vw w h level.
         if uw = [Fin 0] then [r0] else [Fin 0]),
      d_squares_sum = (\<lambda>xs sz nblocks. demo_dot xs xs),
      d_sum = (\<lambda>xs sz nblocks. take 1 (xs @ [Fin 0])),
      d_set_uniform_weights = (\<lambda>w h. [Fin 1]),
      d_calculate_tdist_variance = (\<lambda>rs w h variance. map (\<lambda>r. tdist_term r variance) rs),
      d_calculate_tdist_weights = (\<lambda>rs w h variance. map (\<lambda>r. tdist_weight r variance) rs),
      d_calculate_jtw = (\<lambda>jc ws sz cols. demo_scale ws jc),
      d_product_JacT_W_Jac = (\<lambda>jc ws sz z. demo_outer (demo_scale ws jc) jc),
      d_product_JacT_W_res = (\<lambda>jc ws rs sz z. demo_scale rs (demo_scale ws jc)),
      d_reduce_pre_M_towards_M = (\<lambda>xs sz rows cols nblocks.
         take (nat (rows * cols)) (xs @ Zero (nat (rows * cols)))),
      cublasSgemm = (\<lambda>rows cols k xs ys.
         if rows = 1 then demo_dot xs ys
         else if cols = 6 then take 36 (demo_outer xs ys @ Zero 36)
         else take 6 (demo_scale ys xs @ Zero 6)),
      cublasSasum = (\<lambda>n xs. case xs of [] \<Rightarrow> Fin 0 | x # _ \<Rightarrow> fabs x)\<rparr>"

definition unit_vec :: "nat \<Rightarrow> nat \<Rightarrow> float list" where
  "unit_vec n i = (Zero n)[i := Fin 1]"

text \<open>
  The tracker of a first frame of one pixel with gray value 0 and the given depth, on
  one level, with the identity as camera matrix.
\<close>

definition demo_K :: Matrix3f where
  "demo_K = [Fin 1, Fin 0, Fin 0, Fin 0, Fin 1, Fin 0, Fin 0, Fin 0, Fin 1]"

definition demo_tracker :: "env \<Rightarrow> buf \<Rightarrow> bool \<Rightarrow> int \<Rightarrow> SolvingMethod \<Rightarrow> Tracker option" where
  "demo_tracker env depthFirstFrame useTDist maxIterations method =
     Tracker_new env [Fin 0] depthFirstFrame 1 1 demo_K 0 0 useTDist maxIterations method"


text \<open>The runs used below: two iterations at most, uniform weights, the build with cuBLAS.\<close>

definition demo_cublas :: env where
  "demo_cublas = demo_env True (Fin 1) (unit_vec 6 0)"


text \<open>A valid pixel whose residual is 0, as between two equal frames.\<close>

definition demo_still :: env where
  "demo_still = demo_env True (Fin 0) (unit_vec 6 0)"

text \<open>The same two pixels in a build without cuBLAS.\<close>

definition demo_plain :: env where
  "demo_plain = demo_env False (Fin 1) (unit_vec 6 0)"

definition demo_still_plain :: env where
  "demo_still_plain = demo_env False (Fin 0) (unit_vec 6 0)"

section \<open>Properties\<close>

subsection \<open>Loops as folds\<close>

lemma for_down_each: "for_down hi lo body x = each body (rev [lo..hi]) x"
proof (induction hi lo body x rule: for_down.induct)
  case (1 level lo body x)
  show ?case
  proof (cases "lo \<le> level")
    case True
    then have "[lo..level] = [lo..level - 1] @ [level]"
      by (simp add: upto_rec2)
    then show ?thesis
      using 1 True by (subst for_down.simps) (simp split: option.splits)
  next
    case False
    then show ?thesis by (subst for_down.simps) simp
  qed
qed

lemma for_up_each: "for_up lo hi body x = each body [lo..hi] x"
proof (induction lo hi body x rule: for_up.induct)
  case (1 level hi body x)
  show ?case
  proof (cases "level \<le> hi")
    case True
    then have "[level..hi] = level # [level + 1..hi]"
      by (simp add: upto_rec1)
    then show ?thesis
      using 1 True by (subst for_up.simps) (simp split: option.splits)
  next
    case False
    then show ?thesis by (subst for_up.simps) simp
  qed
qed

lemma each_invariant:
  "each body levels x = Some y \<Longrightarrow> P x \<Longrightarrow>
   (\<forall>level\<in>set levels. \<forall>z z'. P z \<longrightarrow> body level z = Some z' \<longrightarrow> P z') \<Longrightarrow> P y"
proof (induction levels arbitrary: x)
  case Nil
  then show ?case by simp
next
  case (Cons level levels)
  from Cons.prems(1) obtain x' where b: "body level x = Some x'"
    and r: "each body levels x' = Some y"
    by (auto split: option.splits)
  have "level \<in> set (level # levels)" by simp
  from bspec [OF Cons.prems(3) this]
  have "\<forall>z z'. P z \<longrightarrow> body level z = Some z' \<longrightarrow> P z'" .
  from this [rule_format, OF Cons.prems(2) b] have px: "P x'" .
  have rest: "\<forall>l\<in>set levels. \<forall>z z'. P z \<longrightarrow> body l z = Some z' \<longrightarrow> P z'"
  proof
    fix l assume "l \<in> set levels"
    then have "l \<in> set (level # levels)" by simp
    from bspec [OF Cons.prems(3) this]
    show "\<forall>z z'. P z \<longrightarrow> body l z = Some z' \<longrightarrow> P z'" .
  qed
  from Cons.IH [OF r px rest] show ?case .
qed

subsection \<open>What the steps of an iteration leave alone\<close>

lemma keeps_refl [simp]: "keeps s s"
  by (simp add: keeps_def)

lemma keeps_trans: "keeps s s' \<Longrightarrow> keeps s' s'' \<Longrightarrow> keeps s s''"
  by (simp add: keeps_def)

lemma keeps_pose_refl [simp]: "keeps_pose s s"
  by (simp add: keeps_pose_def)

lemma keeps_pose_trans: "keeps_pose s s' \<Longrightarrow> keeps_pose s' s'' \<Longrightarrow> keeps_pose s s''"
  by (auto simp: keeps_pose_def intro: keeps_trans)

lemma transform_points_keeps:
  "transform_points env level lw lh s = Some s' \<Longrightarrow> keeps_pose s s' \<and> cuda_log s' = cuda_log s"
  by (auto simp: transform_points_def keeps_pose_def keeps_def bind_eq_Some_conv case_prod_beta)

lemma calculate_jacobian_keeps:
  "calculate_jacobian env level lw lh s = Some s' \<Longrightarrow> keeps_pose s s' \<and> cuda_log s' = cuda_log s"
  by (auto simp: calculate_jacobian_def keeps_pose_def keeps_def)

lemma calculate_residuals_keeps:
  "calculate_residuals env level lw lh s = Some s' \<Longrightarrow> keeps_pose s s' \<and> cuda_log s' = cuda_log s"
  by (auto simp: calculate_residuals_def keeps_pose_def keeps_def bind_eq_Some_conv)

lemma calculate_error_keeps:
  "calculate_error env level lw lh s = Some s' \<Longrightarrow>
     keeps_pose s s' \<and> (ENABLE_CUBLAS env \<longrightarrow> cuda_log s' = cuda_log s)"
  by (auto simp: calculate_error_def keeps_pose_def keeps_def bind_eq_Some_conv Let_def
      cudaMalloc_def cudaFree_def split: if_splits)

lemma reduce_array_GPU_keeps:
  "reduce_array_GPU env arr n s = Some (x, s') \<Longrightarrow> keeps_pose s s' \<and> d_r s' = d_r s"
  by (auto simp: reduce_array_GPU_def keeps_pose_def keeps_def bind_eq_Some_conv Let_def
      cudaMalloc_def cudaFree_def split: if_splits)

lemma variance_pass_keeps:
  "variance_pass env lw lh v s = Some (v', s') \<Longrightarrow>
     keeps_pose s s' \<and> d_r s' = d_r s \<and> (ENABLE_CUBLAS env \<longrightarrow> cuda_log s' = cuda_log s)"
  by (auto simp: variance_pass_def keeps_pose_def keeps_def Let_def
      dest!: reduce_array_GPU_keeps split: if_splits option.splits)

lemma variance_loop_keeps:
  "variance_loop env lw lh v k s = Some (vi, v', k', s') \<Longrightarrow>
     keeps_pose s s' \<and> d_r s' = d_r s \<and> (ENABLE_CUBLAS env \<longrightarrow> cuda_log s' = cuda_log s)"
proof (induction env lw lh v k s rule: variance_loop.induct)
  case (1 env lw lh v k s)
  from "1.prems" obtain v1 s1 where p: "variance_pass env lw lh v s = Some (v1, s1)"
    by (subst (asm) variance_loop.simps) (auto simp: Let_def split: option.splits)
  note k1 = variance_pass_keeps [OF p]
  show ?case
  proof (cases "fgt (variance_gap env v1 v) DOUBLE_1e_3 \<and> k + 1 < 5")
    case True
    with "1.prems" p have "variance_loop env lw lh v1 (k + 1) s1 = Some (vi, v', k', s')"
      by (subst (asm) variance_loop.simps) (simp add: Let_def)
    from "1.IH" [OF refl p refl refl True this] k1
    show ?thesis by (auto intro: keeps_pose_trans)
  next
    case False
    with "1.prems" p have "s' = s1"
      by (subst (asm) variance_loop.simps) (auto simp: Let_def)
    with k1 show ?thesis by simp
  qed
qed

lemma calculate_weights_keeps:
  "calculate_weights env level lw lh v u s = Some (v', s') \<Longrightarrow>
     keeps_pose s s' \<and> (ENABLE_CUBLAS env \<longrightarrow> cuda_log s' = cuda_log s)"
  by (auto simp: calculate_weights_def keeps_pose_def keeps_def bind_eq_Some_conv Let_def
      dest!: variance_loop_keeps split: if_splits)

lemma calculate_A_keeps:
  "calculate_A env level lw lh s = Some s' \<Longrightarrow>
     keeps_pose s s' \<and> cuda_log s' = cuda_log s"
  by (auto simp: calculate_A_def calculate_jtw_def keeps_pose_def keeps_def bind_eq_Some_conv
      Let_def split: if_splits)

lemma calculate_b_keeps:
  "calculate_b env level lw lh s = Some s' \<Longrightarrow>
     keeps_pose s s' \<and> cuda_log s' = cuda_log s \<and> A s' = A s"
  by (auto simp: calculate_b_def keeps_pose_def keeps_def bind_eq_Some_conv
      Let_def split: if_splits)

text \<open>
  An iteration that returns has run its seven steps on the device, which keep the pose,
  and then assigned \<open>xi_delta\<close>, \<open>xi\<close> and \<open>error\<close>, in this order.
\<close>

lemma iteration_SomeD:
  assumes "iteration env level lw lh v s = Some (v', s')"
  shows "\<exists>sb e. keeps_pose s sb \<and> (ENABLE_CUBLAS env \<longrightarrow> cuda_log sb = cuda_log s) \<and>
           vec_at (d_error sb) 0 = Some e \<and>
           s' = sb\<lparr>xi_delta := vec_neg (ldlt_solve env (A sb) (b sb)),
                   xi := lieLog env (mat4_mul env
                           (lieExp env (vec_neg (ldlt_solve env (A sb) (b sb))))
                           (lieExp env (xi sb))),
                   error := e\<rparr>"
proof -
  obtain rot tra where c: "convertSE3ToT env (xi s) = (rot, tra)"
    by (cases "convertSE3ToT env (xi s)")
  from assms c obtain K_inv s0 s1 s2 s3 s4 v5 s5 s6 s7 e where
    s0: "s0 = s\<lparr>R := rot, t := tra, RK_inv := mat3_mul env rot K_inv,
                dev := (dev s)\<lparr>const_RK_inv := mat3_mul env rot K_inv, const_translation := tra\<rparr>\<rparr>"
    and t1: "transform_points env level lw lh s0 = Some s1"
    and t2: "calculate_residuals env level lw lh s1 = Some s2"
    and t3: "calculate_jacobian env level lw lh s2 = Some s3"
    and t4: "calculate_error env level lw lh s3 = Some s4"
    and t5: "calculate_weights env level lw lh v (useTDistWeights s4) s4 = Some (v5, s5)"
    and t6: "calculate_A env level lw lh s5 = Some s6"
    and t7: "calculate_b env level lw lh s6 = Some s7"
    and e: "vec_at (d_error s7) 0 = Some e"
    and s': "s' = s7\<lparr>xi_delta := vec_neg (ldlt_solve env (A s7) (b s7)),
                    xi := lieLog env (mat4_mul env
                            (lieExp env (vec_neg (ldlt_solve env (A s7) (b s7))))
                            (lieExp env (xi s7))),
                    error := e\<rparr>"
    by (auto simp: iteration_def bind_eq_Some_conv Let_def)
  have k0: "keeps_pose s s0" "cuda_log s0 = cuda_log s"
    by (simp_all add: s0 keeps_pose_def keeps_def)
  note k = transform_points_keeps [OF t1] calculate_residuals_keeps [OF t2]
    calculate_jacobian_keeps [OF t3] calculate_error_keeps [OF t4]
    calculate_weights_keeps [OF t5] calculate_A_keeps [OF t6] calculate_b_keeps [OF t7]
  have "keeps_pose s s7"
    using k0 k by (blast intro: keeps_pose_trans)
  moreover have "ENABLE_CUBLAS env \<longrightarrow> cuda_log s7 = cuda_log s"
    using k0 k by simp
  ultimately show ?thesis using e s' by blast
qed

lemma iteration_keeps:
  "iteration env level lw lh v s = Some (v', s') \<Longrightarrow>
     keeps s s' \<and> (ENABLE_CUBLAS env \<longrightarrow> cuda_log s' = cuda_log s)"
  by (drule iteration_SomeD) (auto simp: keeps_pose_def keeps_def)

lemma iterations_keeps:
  "iterations env level lw lh n i ep v s = Some s' \<Longrightarrow>
     keeps s s' \<and> (ENABLE_CUBLAS env \<longrightarrow> cuda_log s' = cuda_log s)"
proof (induction env level lw lh n i ep v s rule: iterations.induct)
  case (1 env level lw lh n i ep v s)
  show ?case
  proof (cases "i < n")
    case False
    with "1.prems" show ?thesis by (subst (asm) iterations.simps) simp
  next
    case True
    with "1.prems" obtain v1 s1 where it: "iteration env level lw lh v s = Some (v1, s1)"
      by (subst (asm) iterations.simps) (auto split: option.splits)
    note k1 = iteration_keeps [OF it]
    show ?thesis
    proof (cases "error_test env (error s1) ep")
      case True
      with "1.prems" \<open>i < n\<close> it have "s' = s1"
        by (subst (asm) iterations.simps) simp
      with k1 show ?thesis by simp
    next
      case False
      with "1.prems" \<open>i < n\<close> it
      have "iterations env level lw lh n (i + 1) (error s1) v1 s1 = Some s'"
        by (subst (asm) iterations.simps) simp
      from "1.IH" [OF \<open>i < n\<close> it refl False this] k1
      show ?thesis by (auto intro: keeps_trans)
    qed
  qed
qed

lemma process_level_SomeD:
  assumes "process_level env level s = Some s'"
  shows "\<exists>s0 s1. bind_textures level (level_size (width s) level)
                    (level_size (height s) level) s = Some s0 \<and>
           iterations env level (level_size (width s) level) (level_size (height s) level)
             (maxIterationsPerLevel s) 0 BIG_FLOAT VARIANCE_INITIAL s0 = Some s1 \<and>
           s' = unbind_textures s1 \<and> keeps s s0 \<and> xi s0 = xi s \<and> cuda_log s0 = cuda_log s"
proof -
  from assms obtain s0 s1 where b0: "bind_textures level (level_size (width s) level)
        (level_size (height s) level) s = Some s0"
    and it: "iterations env level (level_size (width s) level) (level_size (height s) level)
        (maxIterationsPerLevel s0) 0 BIG_FLOAT VARIANCE_INITIAL s0 = Some s1"
    and s': "s' = unbind_textures s1"
    by (auto simp: process_level_def bind_eq_Some_conv Let_def)
  from b0 have "keeps s s0" "xi s0 = xi s" "cuda_log s0 = cuda_log s"
    by (auto simp: bind_textures_def bind_eq_Some_conv keeps_def)
  with b0 it s' show ?thesis by (auto simp: keeps_def)
qed

lemma process_level_keeps:
  assumes "process_level env level s = Some s'"
  shows "keeps s s' \<and> (ENABLE_CUBLAS env \<longrightarrow> cuda_log s' = cuda_log s)"
proof -
  from process_level_SomeD [OF assms] obtain s0 s1 where
    it: "iterations env level (level_size (width s) level) (level_size (height s) level)
        (maxIterationsPerLevel s) 0 BIG_FLOAT VARIANCE_INITIAL s0 = Some s1"
    and s': "s' = unbind_textures s1" and k0: "keeps s s0" "cuda_log s0 = cuda_log s"
    by blast
  note iterations_keeps [OF it]
  moreover have "keeps s1 s'" "cuda_log s' = cuda_log s1"
    by (simp_all add: s' unbind_textures_def keeps_def)
  ultimately show ?thesis using k0 by (auto intro: keeps_trans)
qed

lemma levels_keep:
  assumes "each (process_level env) levels s = Some s'"
  shows "keeps s s' \<and> (ENABLE_CUBLAS env \<longrightarrow> cuda_log s' = cuda_log s)"
proof (rule each_invariant [OF assms,
      where P = "\<lambda>x. keeps s x \<and> (ENABLE_CUBLAS env \<longrightarrow> cuda_log x = cuda_log s)"])
  show "keeps s s \<and> (ENABLE_CUBLAS env \<longrightarrow> cuda_log s = cuda_log s)" by simp
next
  show "\<forall>level\<in>set levels. \<forall>z z'.
          keeps s z \<and> (ENABLE_CUBLAS env \<longrightarrow> cuda_log z = cuda_log s) \<longrightarrow>
          process_level env level z = Some z' \<longrightarrow>
          keeps s z' \<and> (ENABLE_CUBLAS env \<longrightarrow> cuda_log z' = cuda_log s)"
  proof (intro ballI allI impI)
    fix level z z'
    assume a: "keeps s z \<and> (ENABLE_CUBLAS env \<longrightarrow> cuda_log z = cuda_log s)"
      and p: "process_level env level z = Some z'"
    from process_level_keeps [OF p] a
    show "keeps s z' \<and> (ENABLE_CUBLAS env \<longrightarrow> cuda_log z' = cuda_log s)"
      using keeps_trans [of s z z'] by simp
  qed
qed

lemma align_SomeD:
  assumes "align env grayCur depthCur s = Some (r, s')"
  shows "\<exists>cur s1. fill_pyramid env s (d_cur s) grayCur depthCur = Some cur \<and>
           each (process_level env) (rev [minLevel s..maxLevel s]) (s\<lparr>d_cur := cur\<rparr>) = Some s1 \<and>
           s' = s1\<lparr>temp_swap := cur, d_cur := d_prev s, d_prev := cur,
                   xi_total := lieLog env (mat4_mul env (lieExp env (xi_total s))
                                  (mat4_inverse env (lieExp env (xi s1))))\<rparr> \<and>
           r = xi_total s' \<and> keeps (s\<lparr>d_cur := cur\<rparr>) s1 \<and>
           (ENABLE_CUBLAS env \<longrightarrow> cuda_log s1 = cuda_log s)"
proof -
  from assms obtain cur s1 where f: "fill_pyramid env s (d_cur s) grayCur depthCur = Some cur"
    and l: "each (process_level env) (rev [minLevel s..maxLevel s]) (s\<lparr>d_cur := cur\<rparr>) = Some s1"
    and s': "s' = s1\<lparr>temp_swap := d_cur s1, d_cur := d_prev s1, d_prev := d_cur s1,
                   xi_total := lieLog env (mat4_mul env (lieExp env (xi_total s1))
                                  (mat4_inverse env (lieExp env (xi s1))))\<rparr>"
    and r: "r = xi_total s'"
    by (auto simp: align_def bind_eq_Some_conv Let_def for_down_each)
  from levels_keep [OF l] have k: "keeps (s\<lparr>d_cur := cur\<rparr>) s1"
    and c: "ENABLE_CUBLAS env \<longrightarrow> cuda_log s1 = cuda_log s"
    by simp_all
  from k have "d_cur s1 = cur" "d_prev s1 = d_prev s" "xi_total s1 = xi_total s"
    by (simp_all add: keeps_def)
  with f l s' r k c show ?thesis by auto
qed

subsection \<open>The accumulated pose\<close>

text \<open>
  C1. When \<open>align\<close> returns, the levels have been run from the pose estimate \<open>xi\<close> they
  started with to a final estimate; the new \<open>xi_total\<close> is
  \<open>log (exp xi_total * (exp xi)\<^sup>-\<^sup>1)\<close>, with the \<open>xi_total\<close> from before the call and the
  \<open>xi\<close> that the levels produced, and it is the value returned.
\<close>

theorem align_accumulates_inverse_increment:
  assumes "align env grayCur depthCur s = Some (r, s')"
  shows "r = xi_total s' \<and>
         xi_total s' = lieLog env (mat4_mul env (lieExp env (xi_total s))
                                     (mat4_inverse env (lieExp env (xi s')))) \<and>
         (\<exists>cur s1. fill_pyramid env s (d_cur s) grayCur depthCur = Some cur \<and>
            each (process_level env) (rev [minLevel s..maxLevel s]) (s\<lparr>d_cur := cur\<rparr>) = Some s1 \<and>
            xi s' = xi s1)"
proof -
  from align_SomeD [OF assms] obtain cur s1 where
    f: "fill_pyramid env s (d_cur s) grayCur depthCur = Some cur"
    and l: "each (process_level env) (rev [minLevel s..maxLevel s]) (s\<lparr>d_cur := cur\<rparr>) = Some s1"
    and s': "s' = s1\<lparr>temp_swap := cur, d_cur := d_prev s, d_prev := cur,
                   xi_total := lieLog env (mat4_mul env (lieExp env (xi_total s))
                                  (mat4_inverse env (lieExp env (xi s1))))\<rparr>"
    and r: "r = xi_total s'"
    by blast
  from s' have "xi s' = xi s1" by simp
  with f l s' r show ?thesis by auto
qed

theorem align_accumulates_inverse_increment_witness:
  "\<exists>s r s'. demo_tracker demo_cublas [Fin 1] False 2 GAUSS_NEWTON = Some s \<and>
     align demo_cublas [Fin 0] [Fin 0] s = Some (r, s') \<and>
     r = [Fin 2, Fin 0, Fin 0, Fin 0, Fin 0, Fin 0] \<and> r = xi_total s' \<and>
     xi s' = [Fin (- 2), Fin 0, Fin 0, Fin 0, Fin 0, Fin 0] \<and>
     xi_total s' = lieLog demo_cublas (mat4_mul demo_cublas (lieExp demo_cublas (xi_total s))
                     (mat4_inverse demo_cublas (lieExp demo_cublas (xi s'))))"
proof -
  have "map_option (\<lambda>p. (fst p, xi (snd p)))
          (Option.bind (demo_tracker demo_cublas [Fin 1] False 2 GAUSS_NEWTON)
             (align demo_cublas [Fin 0] [Fin 0]))
        = Some ([Fin 2, Fin 0, Fin 0, Fin 0, Fin 0, Fin 0],
                [Fin (- 2), Fin 0, Fin 0, Fin 0, Fin 0, Fin 0])"
    by code_simp
  then obtain s r s' where t: "demo_tracker demo_cublas [Fin 1] False 2 GAUSS_NEWTON = Some s"
    and a: "align demo_cublas [Fin 0] [Fin 0] s = Some (r, s')"
    and v: "r = [Fin 2, Fin 0, Fin 0, Fin 0, Fin 0, Fin 0]"
       "xi s' = [Fin (- 2), Fin 0, Fin 0, Fin 0, Fin 0, Fin 0]"
    by (auto simp: bind_eq_Some_conv)
  from align_accumulates_inverse_increment [OF a] t a v show ?thesis by blast
qed

subsection \<open>The update of an iteration\<close>

text \<open>
  C2. Every pass of the inner loop is one run of \<open>iteration\<close>. A run that returns has
  solved the system of the matrix \<open>A\<close> and the vector \<open>b\<close> it assembled with the LDLT solver
  of Eigen, stored the negated solution in \<open>xi_delta\<close>, and replaced the pose estimate by
  \<open>log (exp xi_delta * exp xi)\<close>: the negated solution is composed on the left of the
  estimate the pass started with.
\<close>

theorem iteration_solves_and_composes_on_the_left:
  assumes "iteration env level lw lh v s = Some (v', s')"
  shows "xi_delta s' = vec_neg (ldlt_solve env (A s') (b s')) \<and>
         xi s' = lieLog env (mat4_mul env (lieExp env (vec_neg (ldlt_solve env (A s') (b s'))))
                               (lieExp env (xi s)))"
proof -
  from iteration_SomeD [OF assms] obtain sb e where k: "keeps_pose s sb"
    and s': "s' = sb\<lparr>xi_delta := vec_neg (ldlt_solve env (A sb) (b sb)),
                   xi := lieLog env (mat4_mul env
                           (lieExp env (vec_neg (ldlt_solve env (A sb) (b sb))))
                           (lieExp env (xi sb))),
                   error := e\<rparr>"
    by blast
  from k have "xi sb = xi s" by (simp add: keeps_pose_def)
  with s' show ?thesis by simp
qed

theorem iteration_solves_and_composes_on_the_left_witness:
  "\<exists>s s0 v' s'. demo_tracker demo_cublas [Fin 1] False 2 GAUSS_NEWTON = Some s \<and>
     bind_textures 0 1 1 s = Some s0 \<and>
     iteration demo_cublas 0 1 1 VARIANCE_INITIAL s0 = Some (v', s') \<and>
     xi s0 = Zero 6 \<and> xi s' = [Fin (- 1), Fin 0, Fin 0, Fin 0, Fin 0, Fin 0] \<and>
     xi_delta s' = vec_neg (ldlt_solve demo_cublas (A s') (b s')) \<and>
     xi s' = lieLog demo_cublas (mat4_mul demo_cublas
                (lieExp demo_cublas (vec_neg (ldlt_solve demo_cublas (A s') (b s'))))
                (lieExp demo_cublas (xi s0)))"
proof -
  have "Option.bind (Option.bind (demo_tracker demo_cublas [Fin 1] False 2 GAUSS_NEWTON)
            (bind_textures 0 1 1))
          (\<lambda>s0. map_option (\<lambda>p. (xi s0, xi (snd p)))
                   (iteration demo_cublas 0 1 1 VARIANCE_INITIAL s0))
        = Some (Zero 6, [Fin (- 1), Fin 0, Fin 0, Fin 0, Fin 0, Fin 0])"
    by code_simp
  then obtain s s0 v' s' where t: "demo_tracker demo_cublas [Fin 1] False 2 GAUSS_NEWTON = Some s"
    and b0: "bind_textures 0 1 1 s = Some s0"
    and it: "iteration demo_cublas 0 1 1 VARIANCE_INITIAL s0 = Some (v', s')"
    and v: "xi s0 = Zero 6" "xi s' = [Fin (- 1), Fin 0, Fin 0, Fin 0, Fin 0, Fin 0]"
    by (auto simp: bind_eq_Some_conv)
  from iteration_solves_and_composes_on_the_left [OF it] t b0 it v show ?thesis by blast
qed


subsection \<open>The inner loop\<close>

lemma error_after_first:
  assumes "iteration env level lw lh v s = Some (v1, s1)"
  shows "error_after env level lw lh (v, s) (Suc j) = error_after env level lw lh (v1, s1) j"
  using assms by (simp add: error_after_def)

lemma error_before_shift:
  assumes "iteration env level lw lh v s = Some (v1, s1)" and "1 \<le> j"
  shows "error_before env level lw lh ep (v, s) (Suc j) =
         error_before env level lw lh (error s1) (v1, s1) j"
proof (cases "j = 1")
  case True
  then show ?thesis
    using assms(1) by (simp add: error_before_def error_after_def)
next
  case False
  with assms(2) obtain m where m: "j = Suc (Suc m)"
    by (metis One_nat_def Suc_le_D Suc_le_mono le_0_eq not0_implies_Suc)
  then show ?thesis
    using assms(1) by (simp add: error_before_def error_after_def)
qed

text \<open>
  A loop that returns has run \<open>k\<close> passes, not more than its bound allows; the test failed
  in every pass before the last; and when the bound was not reached, there was a last pass
  and the test held in it.
\<close>

lemma iterations_after:
  assumes "iterations env level lw lh n i ep v s = Some s'"
  shows "\<exists>k v'. int k \<le> max 0 (n - i) \<and> after env level lw lh k (v, s) = Some (v', s') \<and>
     (\<forall>j. 1 \<le> j \<and> j < k \<longrightarrow>
        \<not> error_test env (error_after env level lw lh (v, s) j)
                          (error_before env level lw lh ep (v, s) j)) \<and>
     (int k < n - i \<longrightarrow> 1 \<le> k \<and>
        error_test env (error_after env level lw lh (v, s) k)
                      (error_before env level lw lh ep (v, s) k))"
  using assms
proof (induction env level lw lh n i ep v s rule: iterations.induct)
  case (1 env level lw lh n i ep v s)
  show ?case
  proof (cases "i < n")
    case False
    with "1.prems" have "s' = s" by (subst (asm) iterations.simps) simp
    with False show ?thesis by (intro exI [of _ 0] exI [of _ v]) simp
  next
    case True
    with "1.prems" obtain v1 s1 where it: "iteration env level lw lh v s = Some (v1, s1)"
      by (subst (asm) iterations.simps) (auto split: option.splits)
    show ?thesis
    proof (cases "error_test env (error s1) ep")
      case t: True
      with "1.prems" \<open>i < n\<close> it have "s' = s1"
        by (subst (asm) iterations.simps) simp
      with it t True show ?thesis
        by (intro exI [of _ 1] exI [of _ v1]) (simp add: error_after_def error_before_def)
    next
      case f: False
      with "1.prems" \<open>i < n\<close> it
      have "iterations env level lw lh n (i + 1) (error s1) v1 s1 = Some s'"
        by (subst (asm) iterations.simps) simp
      from "1.IH" [OF \<open>i < n\<close> it refl f this] obtain k v' where
        k: "int k \<le> max 0 (n - (i + 1))"
        and a: "after env level lw lh k (v1, s1) = Some (v', s')"
        and b: "\<And>j. 1 \<le> j \<Longrightarrow> j < k \<Longrightarrow>
           \<not> error_test env (error_after env level lw lh (v1, s1) j)
                 (error_before env level lw lh (error s1) (v1, s1) j)"
        and c: "int k < n - (i + 1) \<Longrightarrow> 1 \<le> k \<and>
           error_test env (error_after env level lw lh (v1, s1) k)
                 (error_before env level lw lh (error s1) (v1, s1) k)"
        by blast
      have 1: "int (Suc k) \<le> max 0 (n - i)" using k True by simp
      have 2: "after env level lw lh (Suc k) (v, s) = Some (v', s')" using it a by simp
      have 3: "\<not> error_test env (error_after env level lw lh (v, s) j)
                 (error_before env level lw lh ep (v, s) j)" if "1 \<le> j" "j < Suc k" for j
      proof (cases "j = 1")
        case True
        with it f show ?thesis by (simp add: error_after_def error_before_def)
      next
        case False
        with that obtain m where m: "j = Suc m" "1 \<le> m" "m < k"
          by (cases j) auto
        from b [OF m(2,3)] show ?thesis
          by (simp add: m(1) error_after_first [OF it] error_before_shift [OF it m(2)])
      qed
      have 4: "1 \<le> Suc k \<and> error_test env (error_after env level lw lh (v, s) (Suc k))
                 (error_before env level lw lh ep (v, s) (Suc k))" if "int (Suc k) < n - i"
      proof -
        from that have "int k < n - (i + 1)" by simp
        from c [OF this] show ?thesis
          by (simp add: error_after_first [OF it] error_before_shift [OF it])
      qed
      from 1 2 3 4 show ?thesis by blast
    qed
  qed
qed

lemma after_last:
  "after env level lw lh (Suc k) vs = Some vs' \<Longrightarrow>
     \<exists>vk. after env level lw lh k vs = Some vk \<and>
          iteration env level lw lh (fst vk) (snd vk) = Some vs'"
proof (induction k arbitrary: vs)
  case 0
  then show ?case by (auto split: option.splits)
next
  case (Suc k)
  from Suc.prems obtain v1 where i: "iteration env level lw lh (fst vs) (snd vs) = Some v1"
    and r: "after env level lw lh (Suc k) v1 = Some vs'"
    by (auto split: option.splits)
  from Suc.IH [OF r] i show ?case by simp
qed

lemma iteration_update:
  assumes "iteration env level lw lh v s = Some (v', s')"
  shows "xi s' = lieLog env (mat4_mul env
                   (lieExp env (vec_neg (ldlt_solve env (A s') (b s')))) (lieExp env (xi s)))"
proof -
  from iteration_SomeD [OF assms] obtain sb e where k: "keeps_pose s sb"
    and s': "s' = sb\<lparr>xi_delta := vec_neg (ldlt_solve env (A sb) (b sb)),
                   xi := lieLog env (mat4_mul env
                           (lieExp env (vec_neg (ldlt_solve env (A sb) (b sb))))
                           (lieExp env (xi sb))),
                   error := e\<rparr>"
    by blast
  from k have "xi sb = xi s" by (simp add: keeps_pose_def)
  with s' show ?thesis by simp
qed





subsection \<open>The update comes before the test\<close>

text \<open>
  C9. A level that returns with \<open>maxIterationsPerLevel \<ge> 1\<close> has run at least one pass, and
  the state it leaves is the state at the end of its last pass, textures unbound: the pose
  estimate is the one that the last pass computed from its own solution and from the
  estimate it started with. The error test is applied to that state, so the update of the
  pass in which the test holds (also with an error of 0) is kept.
\<close>

theorem level_keeps_the_update_of_its_last_pass:
  assumes "process_level env level s = Some s'" and "1 \<le> maxIterationsPerLevel s"
  shows "\<exists>s0 k v0 sk v1 s1.
           bind_textures level (level_size (width s) level) (level_size (height s) level) s
             = Some s0 \<and>
           after env level (level_size (width s) level) (level_size (height s) level) k
             (VARIANCE_INITIAL, s0) = Some (v0, sk) \<and>
           iteration env level (level_size (width s) level) (level_size (height s) level) v0 sk
             = Some (v1, s1) \<and>
           s' = unbind_textures s1 \<and>
           xi s' = lieLog env (mat4_mul env
                     (lieExp env (vec_neg (ldlt_solve env (A s1) (b s1)))) (lieExp env (xi sk)))"
proof -
  let ?lw = "level_size (width s) level" and ?lh = "level_size (height s) level"
  from process_level_SomeD [OF assms(1)] obtain s0 s1 where
    b0: "bind_textures level ?lw ?lh s = Some s0"
    and it: "iterations env level ?lw ?lh (maxIterationsPerLevel s) 0 BIG_FLOAT VARIANCE_INITIAL s0
              = Some s1"
    and s': "s' = unbind_textures s1"
    by blast
  from iterations_after [OF it] obtain k v' where
    a: "after env level ?lw ?lh k (VARIANCE_INITIAL, s0) = Some (v', s1)"
    and c: "int k < maxIterationsPerLevel s - 0 \<longrightarrow> 1 \<le> k"
    by blast
  from c assms(2) obtain m where m: "k = Suc m" by (cases k) auto
  from after_last [OF a [unfolded m]] obtain v0 sk where
    am: "after env level ?lw ?lh m (VARIANCE_INITIAL, s0) = Some (v0, sk)"
    and i: "iteration env level ?lw ?lh v0 sk = Some (v', s1)"
    by auto
  from iteration_update [OF i] s'
  have "xi s' = lieLog env (mat4_mul env
                     (lieExp env (vec_neg (ldlt_solve env (A s1) (b s1)))) (lieExp env (xi sk)))"
    by (simp add: unbind_textures_def)
  with b0 am i s' show ?thesis by blast
qed

theorem level_keeps_the_update_of_its_last_pass_witness:
  "\<exists>s s'. demo_tracker demo_cublas [Fin 1] False 2 GAUSS_NEWTON = Some s \<and>
     process_level demo_cublas 0 s = Some s' \<and> 1 \<le> maxIterationsPerLevel s \<and>
     xi s' = [Fin (- 2), Fin 0, Fin 0, Fin 0, Fin 0, Fin 0] \<and>
     (\<exists>s0 k v0 sk v1 s1.
        bind_textures 0 (level_size (width s) 0) (level_size (height s) 0) s = Some s0 \<and>
        after demo_cublas 0 (level_size (width s) 0) (level_size (height s) 0) k
          (VARIANCE_INITIAL, s0) = Some (v0, sk) \<and>
        iteration demo_cublas 0 (level_size (width s) 0) (level_size (height s) 0) v0 sk
          = Some (v1, s1) \<and>
        s' = unbind_textures s1 \<and>
        xi s' = lieLog demo_cublas (mat4_mul demo_cublas
                  (lieExp demo_cublas (vec_neg (ldlt_solve demo_cublas (A s1) (b s1))))
                  (lieExp demo_cublas (xi sk))))"
proof -
  have "Option.bind (demo_tracker demo_cublas [Fin 1] False 2 GAUSS_NEWTON)
          (\<lambda>s. map_option (\<lambda>q. (maxIterationsPerLevel s, xi q)) (process_level demo_cublas 0 s))
        = Some (2, [Fin (- 2), Fin 0, Fin 0, Fin 0, Fin 0, Fin 0])"
    by code_simp
  then obtain s s' where t: "demo_tracker demo_cublas [Fin 1] False 2 GAUSS_NEWTON = Some s"
    and p: "process_level demo_cublas 0 s = Some s'"
    and m: "maxIterationsPerLevel s = 2"
    and x: "xi s' = [Fin (- 2), Fin 0, Fin 0, Fin 0, Fin 0, Fin 0]"
    by (auto simp: bind_eq_Some_conv)
  from m have m1: "1 \<le> maxIterationsPerLevel s" by simp
  from level_keeps_the_update_of_its_last_pass [OF p m1] t p m1 x show ?thesis by blast
qed

subsection \<open>No test of the matrix\<close>

lemma unit_vec_not_positive_definite: "\<not> positive_definite (unit_vec 36 0)"
proof
  assume "positive_definite (unit_vec 36 0)"
  then have q: "\<forall>v :: nat \<Rightarrow> real. (\<exists>i<6. v i \<noteq> 0) \<longrightarrow>
        0 < (\<Sum>i<6. \<Sum>j<6. v i * the_real (unit_vec 36 0 ! (i + 6 * j)) * v j)"
    by (simp add: positive_definite_def)
  let ?v = "\<lambda>i::nat. if i = 1 then (1::real) else 0"
  have e: "\<exists>i<6. ?v i \<noteq> 0" by (intro exI [of _ 1]) simp
  from q [rule_format, of ?v, OF e]
  have "0 < (\<Sum>i<6. \<Sum>j<6. ?v i * the_real (unit_vec 36 0 ! (i + 6 * j)) * ?v j)" .
  moreover have "(\<Sum>i<6. \<Sum>j<6. ?v i * the_real (unit_vec 36 0 ! (i + 6 * j)) * ?v j) = 0"
    by (simp add: eval_nat_numeral unit_vec_def Zero_def)
  ultimately show False by simp
qed

text \<open>
  C3 as stated fails: the code never looks at the matrix. In the run below the matrix of
  every pass is \<open>diag (1, 0, 0, 0, 0, 0)\<close>, which is not positive definite; the first pass
  moves the pose estimate from 0 to \<open>-1\<close> in its first component all the same, and the
  level goes on to a second pass, which moves it to \<open>-2\<close>.
\<close>

theorem indefinite_step_is_applied_counterexample:
  "\<not> positive_definite (unit_vec 36 0) \<and>
   map_option xi (demo_tracker demo_cublas [Fin 1] False 2 GAUSS_NEWTON) = Some (Zero 6) \<and>
   map_option (A \<circ> snd) (Option.bind (Option.bind
       (demo_tracker demo_cublas [Fin 1] False 2 GAUSS_NEWTON) (bind_textures 0 1 1))
       (iteration demo_cublas 0 1 1 VARIANCE_INITIAL)) = Some (unit_vec 36 0) \<and>
   map_option (xi \<circ> snd) (Option.bind (Option.bind
       (demo_tracker demo_cublas [Fin 1] False 2 GAUSS_NEWTON) (bind_textures 0 1 1))
       (iteration demo_cublas 0 1 1 VARIANCE_INITIAL))
     = Some [Fin (- 1), Fin 0, Fin 0, Fin 0, Fin 0, Fin 0] \<and>
   map_option xi (Option.bind (demo_tracker demo_cublas [Fin 1] False 2 GAUSS_NEWTON)
       (process_level demo_cublas 0))
     = Some [Fin (- 2), Fin 0, Fin 0, Fin 0, Fin 0, Fin 0]"
proof -
  have "map_option xi (demo_tracker demo_cublas [Fin 1] False 2 GAUSS_NEWTON) = Some (Zero 6)"
    by code_simp
  moreover have "map_option (A \<circ> snd) (Option.bind (Option.bind
       (demo_tracker demo_cublas [Fin 1] False 2 GAUSS_NEWTON) (bind_textures 0 1 1))
       (iteration demo_cublas 0 1 1 VARIANCE_INITIAL)) = Some (unit_vec 36 0)"
    by code_simp
  moreover have "map_option (xi \<circ> snd) (Option.bind (Option.bind
       (demo_tracker demo_cublas [Fin 1] False 2 GAUSS_NEWTON) (bind_textures 0 1 1))
       (iteration demo_cublas 0 1 1 VARIANCE_INITIAL))
     = Some [Fin (- 1), Fin 0, Fin 0, Fin 0, Fin 0, Fin 0]"
    by code_simp
  moreover have "map_option xi (Option.bind (demo_tracker demo_cublas [Fin 1] False 2 GAUSS_NEWTON)
       (process_level demo_cublas 0))
     = Some [Fin (- 2), Fin 0, Fin 0, Fin 0, Fin 0, Fin 0]"
    by code_simp
  ultimately show ?thesis using unit_vec_not_positive_definite by blast
qed

text \<open>
  C3 (as amended). When the matrix of a pass is not positive definite, the pass applies
  its step like any other: the pose estimate becomes \<open>log (exp (- solve A b) * exp xi)\<close>.
  The inner loop then stops or goes on by the error test alone, and its result is an
  ordinary state: nothing tells the caller.
\<close>

theorem step_is_applied_whatever_the_matrix:
  assumes "iteration env level lw lh v s = Some (v', s')"
    and "\<not> positive_definite (A s')" and "i < n"
  shows "xi s' = lieLog env (mat4_mul env
                   (lieExp env (vec_neg (ldlt_solve env (A s') (b s')))) (lieExp env (xi s))) \<and>
         iterations env level lw lh n i ep v s =
           (if error_test env (error s') ep then Some s'
            else iterations env level lw lh n (i + 1) (error s') v' s')"
  using iteration_update [OF assms(1)] assms(1,3)
  by (subst iterations.simps) simp

theorem step_is_applied_whatever_the_matrix_witness:
  "\<exists>s s0 v' s'. demo_tracker demo_cublas [Fin 1] False 2 GAUSS_NEWTON = Some s \<and>
     bind_textures 0 1 1 s = Some s0 \<and>
     iteration demo_cublas 0 1 1 VARIANCE_INITIAL s0 = Some (v', s') \<and>
     \<not> positive_definite (A s') \<and> (0::int) < 2 \<and>
     xi s' = lieLog demo_cublas (mat4_mul demo_cublas
               (lieExp demo_cublas (vec_neg (ldlt_solve demo_cublas (A s') (b s'))))
               (lieExp demo_cublas (xi s0))) \<and>
     iterations demo_cublas 0 1 1 2 0 BIG_FLOAT VARIANCE_INITIAL s0 =
       (if error_test demo_cublas (error s') BIG_FLOAT then Some s'
        else iterations demo_cublas 0 1 1 2 (0 + 1) (error s') v' s')"
proof -
  have "Option.bind (Option.bind (demo_tracker demo_cublas [Fin 1] False 2 GAUSS_NEWTON)
            (bind_textures 0 1 1))
          (\<lambda>s0. map_option (A \<circ> snd) (iteration demo_cublas 0 1 1 VARIANCE_INITIAL s0))
        = Some (unit_vec 36 0)"
    by code_simp
  then obtain s s0 v' s' where t: "demo_tracker demo_cublas [Fin 1] False 2 GAUSS_NEWTON = Some s"
    and b0: "bind_textures 0 1 1 s = Some s0"
    and it: "iteration demo_cublas 0 1 1 VARIANCE_INITIAL s0 = Some (v', s')"
    and a: "A s' = unit_vec 36 0"
    by (auto simp: bind_eq_Some_conv)
  from a have npd: "\<not> positive_definite (A s')"
    using unit_vec_not_positive_definite by simp
  have l: "(0::int) < 2" by simp
  from step_is_applied_whatever_the_matrix [OF it npd l, of BIG_FLOAT] t b0 it npd l
  show ?thesis by blast
qed


subsection \<open>The variance of the Student-t weights\<close>

lemma variance_at_first:
  assumes "variance_pass env lw lh v s = Some (v1, s1)"
  shows "variance_at env lw lh (v, s) (Suc j) = variance_at env lw lh (v1, s1) j"
  using assms by (simp add: variance_at_def)

lemma variance_loop_passes:
  assumes "variance_loop env lw lh v i s = Some (vi, v', i', s')"
  shows "\<exists>k si. 1 \<le> k \<and> i' = i + int k \<and>
     variance_after env lw lh (k - 1) (v, s) = Some (vi, si) \<and>
     variance_pass env lw lh vi si = Some (v', s') \<and>
     (\<forall>j. 1 \<le> j \<and> j < k \<longrightarrow>
        fgt (variance_gap env (variance_at env lw lh (v, s) j)
                              (variance_at env lw lh (v, s) (j - 1))) DOUBLE_1e_3 \<and>
        i + int j < 5) \<and>
     \<not> (fgt (variance_gap env v' vi) DOUBLE_1e_3 \<and> i' < 5)"
  using assms
proof (induction env lw lh v i s rule: variance_loop.induct)
  case (1 env lw lh v i s)
  from "1.prems" obtain v1 s1 where p: "variance_pass env lw lh v s = Some (v1, s1)"
    by (subst (asm) variance_loop.simps) (auto simp: Let_def split: option.splits)
  show ?case
  proof (cases "fgt (variance_gap env v1 v) DOUBLE_1e_3 \<and> i + 1 < 5")
    case False
    with "1.prems" p have r: "vi = v" "v' = v1" "i' = i + 1" "s' = s1"
      by (subst (asm) variance_loop.simps, auto simp: Let_def)+
    with p False show ?thesis
      by (intro exI [of _ 1] exI [of _ s]) simp
  next
    case True
    with "1.prems" p have "variance_loop env lw lh v1 (i + 1) s1 = Some (vi, v', i', s')"
      by (subst (asm) variance_loop.simps) (simp add: Let_def)
    from "1.IH" [OF refl p refl refl True this] obtain k si where
      k: "1 \<le> k" "i' = i + 1 + int k"
      and a: "variance_after env lw lh (k - 1) (v1, s1) = Some (vi, si)"
      and q: "variance_pass env lw lh vi si = Some (v', s')"
      and b: "\<And>j. 1 \<le> j \<Longrightarrow> j < k \<Longrightarrow>
          fgt (variance_gap env (variance_at env lw lh (v1, s1) j)
                (variance_at env lw lh (v1, s1) (j - 1))) DOUBLE_1e_3 \<and> i + 1 + int j < 5"
      and c: "\<not> (fgt (variance_gap env v' vi) DOUBLE_1e_3 \<and> i' < 5)"
      by blast
    from k(1) obtain m where m: "k = Suc m" by (cases k) auto
    have 1: "variance_after env lw lh (Suc k - 1) (v, s) = Some (vi, si)"
      using a p by (simp add: m)
    have 2: "fgt (variance_gap env (variance_at env lw lh (v, s) j)
                (variance_at env lw lh (v, s) (j - 1))) DOUBLE_1e_3 \<and> i + int j < 5"
      if "1 \<le> j" "j < Suc k" for j
    proof (cases "j = 1")
      case True
      with p \<open>fgt (variance_gap env v1 v) DOUBLE_1e_3 \<and> i + 1 < 5\<close> show ?thesis
        by (simp add: variance_at_def)
    next
      case False
      with that obtain n where n: "j = Suc n" "1 \<le> n" "n < k" by (cases j) auto
      from n(2) obtain n' where n': "n = Suc n'" by (cases n) auto
      from b [OF n(2,3)] show ?thesis
        by (simp add: n(1) n' variance_at_first [OF p])
    qed
    from k 1 q 2 c show ?thesis
      by (intro exI [of _ "Suc k"] exI [of _ si]) simp
  qed
qed

lemma iteration_weightsD:
  assumes "iteration env level lw lh v s = Some (v', s')"
  shows "\<exists>sa sw. keeps_pose s sa \<and>
           calculate_weights env level lw lh v (useTDistWeights s) sa = Some (v', sw)"
proof -
  obtain rot tra where c: "convertSE3ToT env (xi s) = (rot, tra)"
    by (cases "convertSE3ToT env (xi s)")
  from assms c obtain K_inv s0 s1 s2 s3 s4 s5 where
    s0: "s0 = s\<lparr>R := rot, t := tra, RK_inv := mat3_mul env rot K_inv,
                dev := (dev s)\<lparr>const_RK_inv := mat3_mul env rot K_inv, const_translation := tra\<rparr>\<rparr>"
    and t1: "transform_points env level lw lh s0 = Some s1"
    and t2: "calculate_residuals env level lw lh s1 = Some s2"
    and t3: "calculate_jacobian env level lw lh s2 = Some s3"
    and t4: "calculate_error env level lw lh s3 = Some s4"
    and t5: "calculate_weights env level lw lh v (useTDistWeights s4) s4 = Some (v', s5)"
    by (auto simp: iteration_def bind_eq_Some_conv Let_def)
  have k0: "keeps_pose s s0"
    by (simp add: s0 keeps_pose_def keeps_def)
  note k = transform_points_keeps [OF t1] calculate_residuals_keeps [OF t2]
    calculate_jacobian_keeps [OF t3] calculate_error_keeps [OF t4]
  have "keeps_pose s s4"
    using k0 k by (blast intro: keeps_pose_trans)
  moreover from this have "useTDistWeights s4 = useTDistWeights s"
    by (simp add: keeps_pose_def keeps_def)
  ultimately show ?thesis using t5 by auto
qed

text \<open>
  C5 (as amended). Every level starts its passes with \<open>VARIANCE_INITIAL\<close>, the binary32
  value of \<open>0.000625f\<close>, and each pass hands the variance it ends with to the next one.
  With Student-t weights a pass ends with the variance that the loop of
  \<open>calculate_weights\<close> leaves: the loop runs \<open>k\<close> passes, at least one and at most five, each
  assigning the sum of the weighted squared residuals divided by the number of pixels of
  the level (the sum that cuBLAS returns for the array of the weighted squared
  residuals, or in a build without cuBLAS the first value that the reduction of this
  array ends with); the difference \<open>|1 / variance - 1 / variance_init|\<close> was greater than \<open>1e-3\<close>
  after every pass before the last, and after the last pass it is not greater than
  \<open>1e-3\<close> (which a NaN is not, either) unless that was the fifth pass. With uniform
  weights the variance stays what it was.
\<close>

theorem variance_is_reset_per_level_and_reestimated:
  "(process_level env level s = Some s'' \<longrightarrow>
      (\<exists>s0 k v' sk.
         bind_textures level (level_size (width s) level) (level_size (height s) level) s
           = Some s0 \<and>
         after env level (level_size (width s) level) (level_size (height s) level) k
           (VARIANCE_INITIAL, s0) = Some (v', sk) \<and>
         s'' = unbind_textures sk)) \<and>
   (iteration env level lw lh v si = Some (v', si') \<longrightarrow>
      (if useTDistWeights si then
         (\<exists>sa vi k sc sb. keeps_pose si sa \<and>
            variance_loop env lw lh v 0 sa = Some (vi, v', int k, sb) \<and>
            1 \<le> k \<and> k \<le> 5 \<and>
            variance_after env lw lh (k - 1) (v, sa) = Some (vi, sc) \<and>
            variance_pass env lw lh vi sc = Some (v', sb) \<and>
            (\<forall>j. 1 \<le> j \<and> j < k \<longrightarrow>
               fgt (variance_gap env (variance_at env lw lh (v, sa) j)
                      (variance_at env lw lh (v, sa) (j - 1))) DOUBLE_1e_3) \<and>
            (k < 5 \<longrightarrow> \<not> fgt (variance_gap env v' vi) DOUBLE_1e_3))
       else v' = v)) \<and>
   (variance_pass env lw lh vp sp = Some (vp', sp') \<longrightarrow>
      (\<exists>total. vp' = fdiv (round32 env) total (round32 env (real_of_int (lw * lh))) \<and>
         (ENABLE_CUBLAS env \<longrightarrow>
            total = cublasSasum env (lw * lh)
                      (d_calculate_tdist_variance env (d_r sp) lw lh vp)))) \<and>
   (\<not> ENABLE_CUBLAS envp \<longrightarrow> variance_pass envp lwp lhp vq sq = Some (vq', sq') \<longrightarrow>
      (\<exists>part total.
         sum_loop envp
           (d_sum envp (d_calculate_tdist_variance envp (d_r sq) lwp lhp vq) (lwp * lhp)
              (ceil_div_1024 (lwp * lhp)))
           (ceil_div_1024 (lwp * lhp)) (ceil_div_1024 (ceil_div_1024 (lwp * lhp)))
           = Some part \<and>
         vec_at part 0 = Some total \<and>
         vq' = fdiv (round32 envp) total (round32 envp (real_of_int (lwp * lhp))))) \<and>
   VARIANCE_INITIAL = Fin (5368709 / 2 ^ 33) \<and>
   \<bar>5368709 / 2 ^ 33 - 625 / 1000000\<bar> < (1::real) / 2 ^ 35"
proof (intro conjI impI)
  let ?lw = "level_size (width s) level" and ?lh = "level_size (height s) level"
  assume "process_level env level s = Some s''"
  from process_level_SomeD [OF this] obtain s0 s1 where
    b0: "bind_textures level ?lw ?lh s = Some s0"
    and it: "iterations env level ?lw ?lh (maxIterationsPerLevel s) 0 BIG_FLOAT VARIANCE_INITIAL s0
              = Some s1"
    and s'': "s'' = unbind_textures s1"
    by blast
  from iterations_after [OF it] obtain k v' where
    "after env level ?lw ?lh k (VARIANCE_INITIAL, s0) = Some (v', s1)"
    by blast
  with b0 s'' show "\<exists>s0 k v' sk. bind_textures level ?lw ?lh s = Some s0 \<and>
         after env level ?lw ?lh k (VARIANCE_INITIAL, s0) = Some (v', sk) \<and>
         s'' = unbind_textures sk"
    by blast
next
  assume it: "iteration env level lw lh v si = Some (v', si')"
  from iteration_weightsD [OF it] obtain sa sw where k: "keeps_pose si sa"
    and w: "calculate_weights env level lw lh v (useTDistWeights si) sa = Some (v', sw)"
    by blast
  show "if useTDistWeights si then
         (\<exists>sa vi k sc sb. keeps_pose si sa \<and>
            variance_loop env lw lh v 0 sa = Some (vi, v', int k, sb) \<and>
            1 \<le> k \<and> k \<le> 5 \<and>
            variance_after env lw lh (k - 1) (v, sa) = Some (vi, sc) \<and>
            variance_pass env lw lh vi sc = Some (v', sb) \<and>
            (\<forall>j. 1 \<le> j \<and> j < k \<longrightarrow>
               fgt (variance_gap env (variance_at env lw lh (v, sa) j)
                      (variance_at env lw lh (v, sa) (j - 1))) DOUBLE_1e_3) \<and>
            (k < 5 \<longrightarrow> \<not> fgt (variance_gap env v' vi) DOUBLE_1e_3))
       else v' = v"
  proof (cases "useTDistWeights si")
    case False
    with w show ?thesis by (simp add: calculate_weights_def)
  next
    case True
    with w obtain vi i' sb where l: "variance_loop env lw lh v 0 sa = Some (vi, v', i', sb)"
      by (auto simp: calculate_weights_def bind_eq_Some_conv Let_def)
    from variance_loop_passes [OF l] obtain k sc where
      k1: "1 \<le> k" and i': "i' = 0 + int k"
      and a: "variance_after env lw lh (k - 1) (v, sa) = Some (vi, sc)"
      and q: "variance_pass env lw lh vi sc = Some (v', sb)"
      and b: "\<And>j. 1 \<le> j \<Longrightarrow> j < k \<Longrightarrow>
          fgt (variance_gap env (variance_at env lw lh (v, sa) j)
                (variance_at env lw lh (v, sa) (j - 1))) DOUBLE_1e_3 \<and> 0 + int j < 5"
      and c: "\<not> (fgt (variance_gap env v' vi) DOUBLE_1e_3 \<and> i' < 5)"
      by blast
    have k5: "k \<le> 5"
    proof (cases "k = 1")
      case True
      then show ?thesis by simp
    next
      case False
      with k1 have "1 \<le> k - 1" "k - 1 < k" by simp_all
      from b [OF this] have "int (k - 1) < 5" by simp
      with k1 show ?thesis by linarith
    qed
    from c i' have e: "k < 5 \<longrightarrow> \<not> fgt (variance_gap env v' vi) DOUBLE_1e_3" by auto
    from k l [unfolded i'] k1 k5 a q b e True show ?thesis
      by (simp only: if_True) (intro exI [of _ sa] exI [of _ vi] exI [of _ k] exI [of _ sc]
          exI [of _ sb], simp)
  qed
next
  assume p: "variance_pass env lw lh vp sp = Some (vp', sp')"
  show "\<exists>total. vp' = fdiv (round32 env) total (round32 env (real_of_int (lw * lh))) \<and>
         (ENABLE_CUBLAS env \<longrightarrow>
            total = cublasSasum env (lw * lh) (d_calculate_tdist_variance env (d_r sp) lw lh vp))"
    using p by (auto simp: variance_pass_def Let_def split: if_splits option.splits)
next
  assume "\<not> ENABLE_CUBLAS envp" and "variance_pass envp lwp lhp vq sq = Some (vq', sq')"
  then show "\<exists>part total.
         sum_loop envp
           (d_sum envp (d_calculate_tdist_variance envp (d_r sq) lwp lhp vq) (lwp * lhp)
              (ceil_div_1024 (lwp * lhp)))
           (ceil_div_1024 (lwp * lhp)) (ceil_div_1024 (ceil_div_1024 (lwp * lhp)))
           = Some part \<and>
         vec_at part 0 = Some total \<and>
         vq' = fdiv (round32 envp) total (round32 envp (real_of_int (lwp * lhp)))"
    by (auto simp: variance_pass_def reduce_array_GPU_def Let_def bind_eq_Some_conv
        split: option.splits)
next
  show "VARIANCE_INITIAL = Fin (5368709 / 2 ^ 33)" by (simp add: VARIANCE_INITIAL_def)
next
  show "\<bar>5368709 / 2 ^ 33 - 625 / 1000000\<bar> < (1::real) / 2 ^ 35" by simp
qed


theorem variance_is_reset_per_level_and_reestimated_witness:
  "\<exists>s s'' s0 v' si' vp' sp'.
     demo_tracker demo_still [Fin 1] True 2 GAUSS_NEWTON = Some s \<and>
     process_level demo_still 0 s = Some s'' \<and>
     bind_textures 0 1 1 s = Some s0 \<and>
     iteration demo_still 0 1 1 VARIANCE_INITIAL s0 = Some (v', si') \<and>
     variance_pass demo_still 1 1 VARIANCE_INITIAL s0 = Some (vp', sp') \<and>
     useTDistWeights s0 \<and>
     (\<exists>s0 k v' sk.
         bind_textures 0 (level_size (width s) 0) (level_size (height s) 0) s = Some s0 \<and>
         after demo_still 0 (level_size (width s) 0) (level_size (height s) 0) k
           (VARIANCE_INITIAL, s0) = Some (v', sk) \<and>
         s'' = unbind_textures sk) \<and>
     (\<exists>sa vi k sc sb. keeps_pose s0 sa \<and>
         variance_loop demo_still 1 1 VARIANCE_INITIAL 0 sa = Some (vi, v', int k, sb) \<and>
         1 \<le> k \<and> k \<le> 5 \<and>
         variance_after demo_still 1 1 (k - 1) (VARIANCE_INITIAL, sa) = Some (vi, sc) \<and>
         variance_pass demo_still 1 1 vi sc = Some (v', sb) \<and>
         (\<forall>j. 1 \<le> j \<and> j < k \<longrightarrow>
            fgt (variance_gap demo_still (variance_at demo_still 1 1 (VARIANCE_INITIAL, sa) j)
                   (variance_at demo_still 1 1 (VARIANCE_INITIAL, sa) (j - 1))) DOUBLE_1e_3) \<and>
         (k < 5 \<longrightarrow> \<not> fgt (variance_gap demo_still v' vi) DOUBLE_1e_3)) \<and>
     (\<exists>total. vp' = fdiv (round32 demo_still) total (round32 demo_still (real_of_int (1 * 1))) \<and>
        (ENABLE_CUBLAS demo_still \<longrightarrow>
           total = cublasSasum demo_still (1 * 1)
                     (d_calculate_tdist_variance demo_still (d_r s0) 1 1 VARIANCE_INITIAL))) \<and>
     (\<exists>tq tp sq vq' sq'.
        demo_tracker demo_still_plain [Fin 1] True 2 GAUSS_NEWTON = Some tq \<and>
        transform_points demo_still_plain 0 1 1 tq = Some tp \<and>
        calculate_residuals demo_still_plain 0 1 1 tp = Some sq \<and>
        \<not> ENABLE_CUBLAS demo_still_plain \<and>
        variance_pass demo_still_plain 1 1 VARIANCE_INITIAL sq = Some (vq', sq') \<and>
        (\<exists>part total.
           sum_loop demo_still_plain
             (d_sum demo_still_plain
                (d_calculate_tdist_variance demo_still_plain (d_r sq) 1 1 VARIANCE_INITIAL) (1 * 1)
                (ceil_div_1024 (1 * 1)))
             (ceil_div_1024 (1 * 1)) (ceil_div_1024 (ceil_div_1024 (1 * 1)))
             = Some part \<and>
           vec_at part 0 = Some total \<and>
           vq' = fdiv (round32 demo_still_plain) total
                   (round32 demo_still_plain (real_of_int (1 * 1)))))"
proof -
  have pn: "\<not> ENABLE_CUBLAS demo_still_plain"
    by (simp add: demo_still_plain_def demo_env_def)
  have "map_option fst (Option.bind (Option.bind (Option.bind
          (demo_tracker demo_still_plain [Fin 1] True 2 GAUSS_NEWTON)
          (transform_points demo_still_plain 0 1 1))
          (calculate_residuals demo_still_plain 0 1 1))
          (variance_pass demo_still_plain 1 1 VARIANCE_INITIAL)) = Some (Fin 0)"
    by code_simp
  then obtain tq tp sq vq' sq' where
    tq: "demo_tracker demo_still_plain [Fin 1] True 2 GAUSS_NEWTON = Some tq"
    and tp: "transform_points demo_still_plain 0 1 1 tq = Some tp"
    and bq: "calculate_residuals demo_still_plain 0 1 1 tp = Some sq"
    and vq: "variance_pass demo_still_plain 1 1 VARIANCE_INITIAL sq = Some (vq', sq')"
    by (auto simp: bind_eq_Some_conv)
  have "Option.bind (demo_tracker demo_still [Fin 1] True 2 GAUSS_NEWTON)
          (\<lambda>s. Option.bind (process_level demo_still 0 s)
             (\<lambda>p. Option.bind (bind_textures 0 1 1 s)
                (\<lambda>s0. Option.bind (iteration demo_still 0 1 1 VARIANCE_INITIAL s0)
                   (\<lambda>q. map_option (\<lambda>r. useTDistWeights s0)
                           (variance_pass demo_still 1 1 VARIANCE_INITIAL s0)))))
        = Some True"
    by code_simp
  then obtain s s'' s0 q where
    t: "demo_tracker demo_still [Fin 1] True 2 GAUSS_NEWTON = Some s"
    and p: "process_level demo_still 0 s = Some s''"
    and b0: "bind_textures 0 1 1 s = Some s0"
    and it0: "iteration demo_still 0 1 1 VARIANCE_INITIAL s0 = Some q"
    and vp0: "map_option (\<lambda>r. useTDistWeights s0)
               (variance_pass demo_still 1 1 VARIANCE_INITIAL s0) = Some True"
    unfolding bind_eq_Some_conv by blast
  obtain v' si' where it: "iteration demo_still 0 1 1 VARIANCE_INITIAL s0 = Some (v', si')"
    using it0 by (cases q) simp
  from vp0 obtain vp' sp' where
    vp: "variance_pass demo_still 1 1 VARIANCE_INITIAL s0 = Some (vp', sp')"
    and u: "useTDistWeights s0"
    by (cases "variance_pass demo_still 1 1 VARIANCE_INITIAL s0") auto
  note T = variance_is_reset_per_level_and_reestimated
    [of demo_still 0 s s'' 1 1 VARIANCE_INITIAL s0 v' si' VARIANCE_INITIAL s0 vp' sp'
        demo_still_plain 1 1 VARIANCE_INITIAL sq vq' sq']
  note 1 = T [THEN conjunct1, rule_format, OF p]
  have 2: "\<exists>sa vi k sc sb. keeps_pose s0 sa \<and>
         variance_loop demo_still 1 1 VARIANCE_INITIAL 0 sa = Some (vi, v', int k, sb) \<and>
         1 \<le> k \<and> k \<le> 5 \<and>
         variance_after demo_still 1 1 (k - 1) (VARIANCE_INITIAL, sa) = Some (vi, sc) \<and>
         variance_pass demo_still 1 1 vi sc = Some (v', sb) \<and>
         (\<forall>j. 1 \<le> j \<and> j < k \<longrightarrow>
            fgt (variance_gap demo_still (variance_at demo_still 1 1 (VARIANCE_INITIAL, sa) j)
                   (variance_at demo_still 1 1 (VARIANCE_INITIAL, sa) (j - 1))) DOUBLE_1e_3) \<and>
         (k < 5 \<longrightarrow> \<not> fgt (variance_gap demo_still v' vi) DOUBLE_1e_3)"
    using T [THEN conjunct2, THEN conjunct1, THEN mp, OF it] u by (simp only: if_True)
  note 3 = T [THEN conjunct2, THEN conjunct2, THEN conjunct1, THEN mp, OF vp]
  note 4 = T [THEN conjunct2, THEN conjunct2, THEN conjunct2, THEN conjunct1, THEN mp, OF pn,
      THEN mp, OF vq]
  have 5: "\<exists>tq tp sq vq' sq'.
        demo_tracker demo_still_plain [Fin 1] True 2 GAUSS_NEWTON = Some tq \<and>
        transform_points demo_still_plain 0 1 1 tq = Some tp \<and>
        calculate_residuals demo_still_plain 0 1 1 tp = Some sq \<and>
        \<not> ENABLE_CUBLAS demo_still_plain \<and>
        variance_pass demo_still_plain 1 1 VARIANCE_INITIAL sq = Some (vq', sq') \<and>
        (\<exists>part total.
           sum_loop demo_still_plain
             (d_sum demo_still_plain
                (d_calculate_tdist_variance demo_still_plain (d_r sq) 1 1 VARIANCE_INITIAL) (1 * 1)
                (ceil_div_1024 (1 * 1)))
             (ceil_div_1024 (1 * 1)) (ceil_div_1024 (ceil_div_1024 (1 * 1)))
             = Some part \<and>
           vec_at part 0 = Some total \<and>
           vq' = fdiv (round32 demo_still_plain) total
                   (round32 demo_still_plain (real_of_int (1 * 1))))"
    by (rule exI [of _ tq], rule exI [of _ tp], rule exI [of _ sq], rule exI [of _ vq'],
        rule exI [of _ sq'], intro conjI tq tp bq pn vq 4)
  show ?thesis
    by (rule exI [of _ s], rule exI [of _ s''], rule exI [of _ s0], rule exI [of _ v'],
        rule exI [of _ si'], rule exI [of _ vp'], rule exI [of _ sp'],
        intro conjI t p b0 it vp u 1 2 3 5)
qed

text \<open>
  C5 as stated fails where it says that the loop goes on until the difference is less
  than \<open>10\<^sup>-\<^sup>3\<close>. With a residual of 0 the first pass leaves the variance 0 and the second a
  NaN; the difference is then a NaN, which is neither greater nor less than \<open>10\<^sup>-\<^sup>3\<close>, and
  the loop ends after its second pass.
\<close>

theorem variance_loop_ends_on_nan_counterexample:
  "map_option d_r (Option.bind (Option.bind
        (demo_tracker demo_still [Fin 1] True 2 GAUSS_NEWTON) (transform_points demo_still 0 1 1))
        (calculate_residuals demo_still 0 1 1)) = Some [Fin 0] \<and>
   map_option fst (Option.bind (Option.bind (Option.bind
        (demo_tracker demo_still [Fin 1] True 2 GAUSS_NEWTON) (transform_points demo_still 0 1 1))
        (calculate_residuals demo_still 0 1 1)) (variance_loop demo_still 1 1 VARIANCE_INITIAL 0))
      = Some (Fin 0) \<and>
   map_option (fst \<circ> snd) (Option.bind (Option.bind (Option.bind
        (demo_tracker demo_still [Fin 1] True 2 GAUSS_NEWTON) (transform_points demo_still 0 1 1))
        (calculate_residuals demo_still 0 1 1)) (variance_loop demo_still 1 1 VARIANCE_INITIAL 0))
      = Some NaN \<and>
   map_option (fst \<circ> snd \<circ> snd) (Option.bind (Option.bind (Option.bind
        (demo_tracker demo_still [Fin 1] True 2 GAUSS_NEWTON) (transform_points demo_still 0 1 1))
        (calculate_residuals demo_still 0 1 1)) (variance_loop demo_still 1 1 VARIANCE_INITIAL 0))
      = Some 2 \<and>
   variance_gap demo_still NaN (Fin 0) = NaN \<and>
   \<not> flt (variance_gap demo_still NaN (Fin 0)) DOUBLE_1e_3"
  by code_simp


subsection \<open>The depth of the new frame\<close>

text \<open>
  The steps of an iteration neither read nor write \<open>d_cur\<close>: they commute with an
  assignment to it.
\<close>

lemma cur_out:
  "A_update f0 (d_cur_update g s) = d_cur_update g (A_update f0 s)"
  "b_update f1 (d_cur_update g s) = d_cur_update g (b_update f1 s)"
  "error_update f2 (d_cur_update g s) = d_cur_update g (error_update f2 s)"
  "d_x_prime_update f3 (d_cur_update g s) = d_cur_update g (d_x_prime_update f3 s)"
  "d_y_prime_update f4 (d_cur_update g s) = d_cur_update g (d_y_prime_update f4 s)"
  "d_z_prime_update f5 (d_cur_update g s) = d_cur_update g (d_z_prime_update f5 s)"
  "d_u_warped_update f6 (d_cur_update g s) = d_cur_update g (d_u_warped_update f6 s)"
  "d_v_warped_update f7 (d_cur_update g s) = d_cur_update g (d_v_warped_update f7 s)"
  "d_J_update f8 (d_cur_update g s) = d_cur_update g (d_J_update f8 s)"
  "d_JTW_update f9 (d_cur_update g s) = d_cur_update g (d_JTW_update f9 s)"
  "d_W_update f10 (d_cur_update g s) = d_cur_update g (d_W_update f10 s)"
  "d_r_update f11 (d_cur_update g s) = d_cur_update g (d_r_update f11 s)"
  "d_A_update f12 (d_cur_update g s) = d_cur_update g (d_A_update f12 s)"
  "d_error_update f13 (d_cur_update g s) = d_cur_update g (d_error_update f13 s)"
  "R_update f14 (d_cur_update g s) = d_cur_update g (R_update f14 s)"
  "RK_inv_update f15 (d_cur_update g s) = d_cur_update g (RK_inv_update f15 s)"
  "t_update f16 (d_cur_update g s) = d_cur_update g (t_update f16 s)"
  "d_pre_A_update f17 (d_cur_update g s) = d_cur_update g (d_pre_A_update f17 s)"
  "d_pre_A_aux_update f18 (d_cur_update g s) = d_cur_update g (d_pre_A_aux_update f18 s)"
  "d_pre_b_update f19 (d_cur_update g s) = d_cur_update g (d_pre_b_update f19 s)"
  "d_pre_b_aux_update f20 (d_cur_update g s) = d_cur_update g (d_pre_b_aux_update f20 s)"
  "store_update f21 (d_cur_update g s) = d_cur_update g (store_update f21 s)"
  "xi_delta_update f22 (d_cur_update g s) = d_cur_update g (xi_delta_update f22 s)"
  "xi_update f23 (d_cur_update g s) = d_cur_update g (xi_update f23 s)"
  "dev_update f24 (d_cur_update g s) = d_cur_update g (dev_update f24 s)"
  "cuda_log_update f25 (d_cur_update g s) = d_cur_update g (cuda_log_update f25 s)"
  by simp_all

lemma transform_points_cur:
  "transform_points env level lw lh (s\<lparr>d_cur := c\<rparr>) =
     map_option (d_cur_update (\<lambda>_. c)) (transform_points env level lw lh s)"
  by (cases "vec_at (d_prev s) level") (simp_all add: transform_points_def case_prod_beta)

lemma calculate_residuals_cur:
  "calculate_residuals env level lw lh (s\<lparr>d_cur := c\<rparr>) =
     map_option (d_cur_update (\<lambda>_. c)) (calculate_residuals env level lw lh s)"
  by (cases "vec_at (d_prev s) level") (simp_all add: calculate_residuals_def)

lemma calculate_jacobian_cur:
  "calculate_jacobian env level lw lh (s\<lparr>d_cur := c\<rparr>) =
     map_option (d_cur_update (\<lambda>_. c)) (calculate_jacobian env level lw lh s)"
  by (simp add: calculate_jacobian_def)

lemma calculate_error_cur:
  "calculate_error env level lw lh (s\<lparr>d_cur := c\<rparr>) =
     map_option (d_cur_update (\<lambda>_. c)) (calculate_error env level lw lh s)"
  by (simp add: calculate_error_def Let_def cudaMalloc_def cudaFree_def
      split: option.splits bind_splits)

lemma reduce_array_GPU_cur:
  "reduce_array_GPU env arr n (s\<lparr>d_cur := c\<rparr>) =
     map_option (apsnd (d_cur_update (\<lambda>_. c))) (reduce_array_GPU env arr n s)"
  by (simp add: reduce_array_GPU_def Let_def cudaMalloc_def cudaFree_def
      split: option.splits bind_splits)

lemma variance_pass_cur:
  "variance_pass env lw lh v (s\<lparr>d_cur := c\<rparr>) =
     map_option (apsnd (d_cur_update (\<lambda>_. c))) (variance_pass env lw lh v s)"
  by (simp add: variance_pass_def Let_def reduce_array_GPU_cur cur_out
      split: option.splits)


lemma variance_loop_cur:
  "variance_loop env lw lh v i (s\<lparr>d_cur := c\<rparr>) =
     map_option (\<lambda>(vi, v', i', s'). (vi, v', i', s'\<lparr>d_cur := c\<rparr>)) (variance_loop env lw lh v i s)"
proof (induction env lw lh v i s rule: variance_loop.induct)
  case (1 env lw lh v i s)
  show ?case
  proof (cases "variance_pass env lw lh v s")
    case None
    then show ?thesis
      by (subst variance_loop.simps, subst (2) variance_loop.simps) (simp add: variance_pass_cur)
  next
    case (Some p)
    obtain v1 s1 where p: "p = (v1, s1)" by (cases p)
    show ?thesis
    proof (cases "fgt (variance_gap env v1 v) DOUBLE_1e_3 \<and> i + 1 < 5")
      case True
      from "1.IH" [OF refl Some [unfolded p] refl refl True] True Some p show ?thesis
        by (subst variance_loop.simps, subst (2) variance_loop.simps)
           (simp add: variance_pass_cur Let_def)
    next
      case False
      with Some p show ?thesis
        by (subst variance_loop.simps, subst (2) variance_loop.simps)
           (auto simp add: variance_pass_cur Let_def)
    qed
  qed
qed

lemma calculate_weights_cur:
  "calculate_weights env level lw lh v u (s\<lparr>d_cur := c\<rparr>) =
     map_option (apsnd (d_cur_update (\<lambda>_. c))) (calculate_weights env level lw lh v u s)"
  by (cases "variance_loop env lw lh v 0 s")
     (auto simp add: calculate_weights_def variance_loop_cur Let_def)

lemma calculate_A_cur:
  "calculate_A env level lw lh (s\<lparr>d_cur := c\<rparr>) =
     map_option (d_cur_update (\<lambda>_. c)) (calculate_A env level lw lh s)"
  by (simp add: calculate_A_def calculate_jtw_def Let_def case_prod_beta
      split: option.splits bind_splits)

lemma calculate_b_cur:
  "calculate_b env level lw lh (s\<lparr>d_cur := c\<rparr>) =
     map_option (d_cur_update (\<lambda>_. c)) (calculate_b env level lw lh s)"
  by (simp add: calculate_b_def Let_def case_prod_beta
      split: option.splits bind_splits)


lemma iteration_cur:
  "iteration env level lw lh v (s\<lparr>d_cur := c\<rparr>) =
     map_option (apsnd (d_cur_update (\<lambda>_. c))) (iteration env level lw lh v s)"
  by (simp add: iteration_def Let_def case_prod_beta cur_out transform_points_cur
      calculate_residuals_cur calculate_jacobian_cur calculate_error_cur calculate_weights_cur
      calculate_A_cur calculate_b_cur bind_map_option map_option_bind comp_def)

lemma iterations_cur:
  "iterations env level lw lh n i ep v (s\<lparr>d_cur := c\<rparr>) =
     map_option (d_cur_update (\<lambda>_. c)) (iterations env level lw lh n i ep v s)"
proof (induction env level lw lh n i ep v s rule: iterations.induct)
  case (1 env level lw lh n i ep v s)
  show ?case
  proof (cases "i < n")
    case False
    then show ?thesis
      by (subst iterations.simps, subst (2) iterations.simps) simp
  next
    case True
    show ?thesis
    proof (cases "iteration env level lw lh v s")
      case None
      with True show ?thesis
        by (subst iterations.simps, subst (2) iterations.simps) (simp add: iteration_cur)
    next
      case (Some p)
      obtain v1 s1 where p: "p = (v1, s1)" by (cases p)
      show ?thesis
      proof (cases "error_test env (error s1) ep")
        case t: True
        with True Some p show ?thesis
          by (subst iterations.simps, subst (2) iterations.simps) (simp add: iteration_cur)
      next
        case f: False
        from "1.IH" [OF True Some [unfolded p] refl f] True Some p f show ?thesis
          by (subst iterations.simps, subst (2) iterations.simps) (simp add: iteration_cur)
      qed
    qed
  qed
qed


lemma each_rel:
  "(\<forall>level\<in>set levels. \<forall>x1 x2. Rel x1 x2 \<longrightarrow> rel_option Rel (body level x1) (body level x2))
   \<Longrightarrow> Rel x1 x2 \<Longrightarrow> rel_option Rel (each body levels x1) (each body levels x2)"
proof (induction levels arbitrary: x1 x2)
  case Nil
  then show ?case by simp
next
  case (Cons level levels)
  have "level \<in> set (level # levels)" by simp
  from bspec [OF Cons.prems(1) this, rule_format, OF Cons.prems(2)]
  have r: "rel_option Rel (body level x1) (body level x2)" .
  have rest: "\<forall>l\<in>set levels. \<forall>x1 x2. Rel x1 x2 \<longrightarrow> rel_option Rel (body l x1) (body l x2)"
  proof
    fix l assume "l \<in> set levels"
    then have "l \<in> set (level # levels)" by simp
    from bspec [OF Cons.prems(1) this]
    show "\<forall>x1 x2. Rel x1 x2 \<longrightarrow> rel_option Rel (body l x1) (body l x2)" .
  qed
  show ?case
  proof (cases "body level x1")
    case None
    with r have "body level x2 = None" by (cases "body level x2") simp_all
    with None show ?thesis by simp
  next
    case (Some y1)
    with r obtain y2 where y2: "body level x2 = Some y2" "Rel y1 y2"
      by (cases "body level x2") simp_all
    from Cons.IH [OF rest y2(2)] Some y2(1) show ?thesis by simp
  qed
qed

lemma same_but_depth_at:
  assumes "same_but_depth c1 c2"
  shows "rel_option level_eq (vec_at c1 i) (vec_at c2 i)"
  using assms by (auto simp: same_but_depth_def vec_at_def list_all2_conv_all_nth)

lemma same_but_depth_set:
  assumes "same_but_depth c1 c2" and "level_eq l1 l2"
  shows "rel_option same_but_depth (vec_set c1 i l1) (vec_set c2 i l2)"
  using assms
  by (auto simp: same_but_depth_def vec_set_def list_all2_conv_all_nth nth_list_update)


lemma resize_level_rel:
  assumes "same_but_depth c1 c2"
  shows "rel_option same_but_depth (resize_level env s level c1) (resize_level env s level c2)"
proof -
  from assms have len: "length c1 = length c2"
    and eq: "\<And>i. i < length c2 \<Longrightarrow> level_eq (c1 ! i) (c2 ! i)"
    by (auto simp: same_but_depth_def list_all2_conv_all_nth)
  show ?thesis
  proof (cases "0 \<le> level - 1 \<and> level < int (length c2)")
    case False
    then show ?thesis
      by (auto simp: resize_level_def vec_at_def vec_set_def len Let_def)
  next
    case True
    then have i: "nat (level - 1) < length c2" "nat level < length c2" "0 \<le> level" by auto
    from eq [OF i(1)] eq [OF i(2)] True show ?thesis
      by (auto simp: resize_level_def vec_at_def vec_set_def len Let_def same_but_depth_def
          list_all2_conv_all_nth nth_list_update level_eq_def dest: eq)
  qed
qed

lemma derive_level_rel:
  assumes "same_but_depth c1 c2"
  shows "rel_option same_but_depth (derive_level env s level c1) (derive_level env s level c2)"
proof -
  from assms have len: "length c1 = length c2"
    and eq: "\<And>i. i < length c2 \<Longrightarrow> level_eq (c1 ! i) (c2 ! i)"
    by (auto simp: same_but_depth_def list_all2_conv_all_nth)
  show ?thesis
  proof (cases "0 \<le> level \<and> level < int (length c2)")
    case False
    then show ?thesis
      by (auto simp: derive_level_def vec_at_def vec_set_def len Let_def)
  next
    case True
    then have i: "nat level < length c2" by auto
    from eq [OF i] True show ?thesis
      by (auto simp: derive_level_def vec_at_def vec_set_def len Let_def same_but_depth_def
          list_all2_conv_all_nth nth_list_update level_eq_def case_prod_beta dest: eq)
  qed
qed

lemma same_but_depth_refl: "same_but_depth c c"
  by (simp add: same_but_depth_def level_eq_def list_all2_conv_all_nth)

lemma fill_pyramid_rel:
  assumes "length depth1 = length depth2"
  shows "rel_option same_but_depth (fill_pyramid env s p grayImg depth1)
           (fill_pyramid env s p grayImg depth2)"
proof -
  let ?n = "width s * height s"
  show ?thesis
  proof (cases "vec_at p 0")
    case None
    then show ?thesis by (simp add: fill_pyramid_def)
  next
    case (Some base)
    show ?thesis
    proof (cases "memcpy ?n grayImg")
      case None
      with Some show ?thesis by (simp add: fill_pyramid_def)
    next
      case g: (Some g0)
      from Some have p0: "0 < length p" by (auto simp: vec_at_def split: if_splits)
      then have q: "vec_set p 0 (base\<lparr>gray := g0\<rparr>) = Some (p[0 := base\<lparr>gray := g0\<rparr>])"
        "vec_at (p[0 := base\<lparr>gray := g0\<rparr>]) 0 = Some (base\<lparr>gray := g0\<rparr>)"
        by (simp_all add: vec_set_def vec_at_def)
      show ?thesis
      proof (cases "memcpy ?n depth1")
        case None
        with assms have "memcpy ?n depth2 = None"
          by (auto simp: memcpy_def split: if_splits)
        with None Some g q show ?thesis by (simp add: fill_pyramid_def)
      next
        case d1: (Some x1)
        with assms obtain x2 where d2: "memcpy ?n depth2 = Some x2"
          by (auto simp: memcpy_def split: if_splits)
        let ?q1 = "p[0 := base\<lparr>gray := g0, depth := x1\<rparr>]"
        let ?q2 = "p[0 := base\<lparr>gray := g0, depth := x2\<rparr>]"
        have r0: "same_but_depth ?q1 ?q2"
          using p0 by (auto simp: same_but_depth_def level_eq_def list_all2_conv_all_nth nth_list_update)
        have r1: "rel_option same_but_depth
                    (each (resize_level env s) [1..maxLevel s] ?q1)
                    (each (resize_level env s) [1..maxLevel s] ?q2)"
          by (rule each_rel [where Rel = same_but_depth and body = "resize_level env s", OF _ r0])
             (simp add: resize_level_rel)
        have f1: "fill_pyramid env s p grayImg depth1 =
                    Option.bind (each (resize_level env s) [1..maxLevel s] ?q1)
                      (each (derive_level env s) [0..maxLevel s])"
          using Some g d1 q p0
          by (simp add: fill_pyramid_def for_up_each vec_set_def vec_at_def)
        have f2: "fill_pyramid env s p grayImg depth2 =
                    Option.bind (each (resize_level env s) [1..maxLevel s] ?q2)
                      (each (derive_level env s) [0..maxLevel s])"
          using Some g d2 q p0
          by (simp add: fill_pyramid_def for_up_each vec_set_def vec_at_def)
        show ?thesis
        proof (cases "each (resize_level env s) [1..maxLevel s] ?q1")
          case None
          with r1 have "each (resize_level env s) [1..maxLevel s] ?q2 = None"
            by (cases "each (resize_level env s) [1..maxLevel s] ?q2") simp_all
          with None f1 f2 show ?thesis by simp
        next
          case (Some y1)
          with r1 obtain y2 where y2: "each (resize_level env s) [1..maxLevel s] ?q2 = Some y2"
            "same_but_depth y1 y2"
            by (cases "each (resize_level env s) [1..maxLevel s] ?q2") simp_all
          have "rel_option same_but_depth
                    (each (derive_level env s) [0..maxLevel s] y1)
                    (each (derive_level env s) [0..maxLevel s] y2)"
            by (rule each_rel [where Rel = same_but_depth and body = "derive_level env s",
                  OF _ y2(2)])
               (simp add: derive_level_rel)
          with Some y2(1) f1 f2 show ?thesis by simp
        qed
      qed
    qed
  qed
qed


lemma bind_textures_rel:
  assumes "cur_rel s1 s2"
  shows "rel_option (\<lambda>a b. a = b\<lparr>d_cur := d_cur s1\<rparr>)
           (bind_textures level lw lh s1) (bind_textures level lw lh s2)"
proof -
  from assms have e: "s1 = s2\<lparr>d_cur := d_cur s1\<rparr>"
    and r: "same_but_depth (d_cur s1) (d_cur s2)"
    by (simp_all add: cur_rel_def)
  have dv: "dev s1 = dev s2" using arg_cong [OF e, of dev] by simp
  note a = same_but_depth_at [OF r, of level]
  show ?thesis
  proof (cases "vec_at (d_cur s1) level")
    case None
    with a have "vec_at (d_cur s2) level = None"
      by (cases "vec_at (d_cur s2) level") simp_all
    with None show ?thesis by (simp add: bind_textures_def)
  next
    case (Some l1)
    with a obtain l2 where l2: "vec_at (d_cur s2) level = Some l2" "level_eq l1 l2"
      by (cases "vec_at (d_cur s2) level") simp_all
    have "s1\<lparr>dev := (dev s1)\<lparr>texRef_grayImg := Some (gray l1),
                               texRef_gray_dx := Some (gray_dx l1),
                               texRef_gray_dy := Some (gray_dy l1)\<rparr>\<rparr>
          = (s2\<lparr>dev := (dev s2)\<lparr>texRef_grayImg := Some (gray l2),
                               texRef_gray_dx := Some (gray_dx l2),
                               texRef_gray_dy := Some (gray_dy l2)\<rparr>\<rparr>)\<lparr>d_cur := d_cur s1\<rparr>"
      using l2(2) dv by (subst e) (simp add: level_eq_def)
    with Some l2(1) show ?thesis by (simp add: bind_textures_def)
  qed
qed


lemma process_level_rel:
  assumes "cur_rel s1 s2"
  shows "rel_option cur_rel (process_level env level s1) (process_level env level s2)"
proof -
  from assms have e: "s1 = s2\<lparr>d_cur := d_cur s1\<rparr>"
    and r: "same_but_depth (d_cur s1) (d_cur s2)"
    by (simp_all add: cur_rel_def)
  have w: "width s1 = width s2" "height s1 = height s2"
    using arg_cong [OF e, of width] arg_cong [OF e, of height] by simp_all
  let ?lw = "level_size (width s2) level" and ?lh = "level_size (height s2) level"
  note b = bind_textures_rel [OF assms, of level ?lw ?lh]
  show ?thesis
  proof (cases "bind_textures level ?lw ?lh s2")
    case None
    with b have "bind_textures level ?lw ?lh s1 = None"
      by (cases "bind_textures level ?lw ?lh s1") simp_all
    with None w show ?thesis by (simp add: process_level_def)
  next
    case (Some b2)
    with b have b1: "bind_textures level ?lw ?lh s1 = Some (b2\<lparr>d_cur := d_cur s1\<rparr>)"
      by (cases "bind_textures level ?lw ?lh s1") simp_all
    let ?it = "iterations env level ?lw ?lh (maxIterationsPerLevel b2) 0 BIG_FLOAT
                 VARIANCE_INITIAL b2"
    have p2: "process_level env level s2 = map_option unbind_textures ?it"
      using Some by (cases ?it) (simp_all add: process_level_def)
    have p1: "process_level env level s1 =
                map_option (\<lambda>x. unbind_textures (x\<lparr>d_cur := d_cur s1\<rparr>)) ?it"
      using b1 w by (cases ?it) (simp_all add: process_level_def iterations_cur)
    show ?thesis
    proof (cases ?it)
      case None
      with p1 p2 show ?thesis by simp
    next
      case (Some x)
      with p2 have "process_level env level s2 = Some (unbind_textures x)" by simp
      from process_level_keeps [OF this] have "d_cur (unbind_textures x) = d_cur s2"
        by (simp add: keeps_def)
      with r have "cur_rel (unbind_textures (x\<lparr>d_cur := d_cur s1\<rparr>)) (unbind_textures x)"
        by (simp add: cur_rel_def unbind_textures_def)
      with Some p1 p2 show ?thesis by simp
    qed
  qed
qed


text \<open>
  C10. Two calls of \<open>align\<close> on the same state and the same gray image, with depth images
  of the same size, return the same pose, or both do not return; the states they leave
  differ at most in the depth rasters of the frame just stored (\<open>d_prev\<close> after the swap,
  and its copy \<open>temp_swap\<close>), which are read by the next call only.
\<close>

theorem depth_argument_is_not_read:
  assumes "length depth1 = length depth2"
  shows "rel_option (\<lambda>p1 p2. fst p1 = fst p2 \<and> differ_in_new_depth (snd p1) (snd p2))
           (align env grayCur depth1 s) (align env grayCur depth2 s) \<and>
         map_option fst (align env grayCur depth1 s) = map_option fst (align env grayCur depth2 s)"
proof -
  have main: "rel_option (\<lambda>p1 p2. fst p1 = fst p2 \<and> differ_in_new_depth (snd p1) (snd p2))
           (align env grayCur depth1 s) (align env grayCur depth2 s)"
  proof -
  note f = fill_pyramid_rel [OF assms, of env s "d_cur s" grayCur]
  let ?levels = "rev [minLevel s..maxLevel s]"
  let ?tot = "\<lambda>x. lieLog env (mat4_mul env (lieExp env (xi_total x))
                                 (mat4_inverse env (lieExp env (xi x))))"
  let ?fin = "\<lambda>x. x\<lparr>temp_swap := d_cur x, d_cur := d_prev x, d_prev := d_cur x,
                     xi_total := ?tot x\<rparr>"
  have al: "align env grayCur d s =
      Option.bind (fill_pyramid env s (d_cur s) grayCur d)
        (\<lambda>c. map_option (\<lambda>x. (?tot x, ?fin x))
               (each (process_level env) ?levels (s\<lparr>d_cur := c\<rparr>)))" for d
    by (simp add: align_def for_down_each Let_def map_option_bind comp_def
        split: bind_splits option.splits)
  show ?thesis
  proof (cases "fill_pyramid env s (d_cur s) grayCur depth1")
    case None
    with f have "fill_pyramid env s (d_cur s) grayCur depth2 = None"
      by (cases "fill_pyramid env s (d_cur s) grayCur depth2") simp_all
    with None show ?thesis by (simp add: al)
  next
    case (Some c1)
    with f obtain c2 where c2: "fill_pyramid env s (d_cur s) grayCur depth2 = Some c2"
      "same_but_depth c1 c2"
      by (cases "fill_pyramid env s (d_cur s) grayCur depth2") simp_all
    have "cur_rel (s\<lparr>d_cur := c1\<rparr>) (s\<lparr>d_cur := c2\<rparr>)"
      using c2(2) by (simp add: cur_rel_def)
    from each_rel [where Rel = cur_rel and body = "process_level env" and levels = ?levels,
        OF _ this]
    have l: "rel_option cur_rel (each (process_level env) ?levels (s\<lparr>d_cur := c1\<rparr>))
               (each (process_level env) ?levels (s\<lparr>d_cur := c2\<rparr>))"
      by (simp add: process_level_rel)
    show ?thesis
    proof (cases "each (process_level env) ?levels (s\<lparr>d_cur := c1\<rparr>)")
      case None
      with l have "each (process_level env) ?levels (s\<lparr>d_cur := c2\<rparr>) = None"
        by (cases "each (process_level env) ?levels (s\<lparr>d_cur := c2\<rparr>)") simp_all
      with None Some c2(1) show ?thesis by (simp add: al)
    next
      case t1: (Some t1)
      with l obtain t2 where t2: "each (process_level env) ?levels (s\<lparr>d_cur := c2\<rparr>) = Some t2"
        "cur_rel t1 t2"
        by (cases "each (process_level env) ?levels (s\<lparr>d_cur := c2\<rparr>)") simp_all
      from t2(2) have e: "t1 = t2\<lparr>d_cur := d_cur t1\<rparr>"
        and r: "same_but_depth (d_cur t1) (d_cur t2)"
        by (simp_all add: cur_rel_def)
      have x: "xi t1 = xi t2" "xi_total t1 = xi_total t2" "d_prev t1 = d_prev t2"
        using arg_cong [OF e, of xi] arg_cong [OF e, of xi_total] arg_cong [OF e, of d_prev]
        by simp_all
      have a1: "align env grayCur depth1 s = Some (?tot t1, ?fin t1)"
        using Some t1 by (simp add: al)
      have a2: "align env grayCur depth2 s = Some (?tot t2, ?fin t2)"
        using c2(1) t2(1) by (simp add: al)
      have tt: "?tot t1 = ?tot t2" by (simp add: x)
      have "?fin t1 = (t2\<lparr>d_cur := d_cur t1\<rparr>)\<lparr>temp_swap := d_cur t1, d_cur := d_prev t2,
                         d_prev := d_cur t1, xi_total := ?tot t2\<rparr>"
        using arg_cong [OF e, of ?fin] by (simp add: x)
      then have "?fin t1 = (?fin t2)\<lparr>d_prev := d_cur t1, temp_swap := d_cur t1\<rparr>"
        by simp
      with r have "differ_in_new_depth (?fin t1) (?fin t2)"
        by (simp add: differ_in_new_depth_def)
      with a1 a2 tt show ?thesis by simp
    qed
  qed
qed
  moreover from main
  have "map_option fst (align env grayCur depth1 s) = map_option fst (align env grayCur depth2 s)"
    by (cases "align env grayCur depth1 s"; cases "align env grayCur depth2 s") simp_all
  ultimately show ?thesis by simp
qed

theorem depth_argument_is_not_read_witness:
  "length [Fin 0] = length [Fin 5] \<and>
   map_option fst (Option.bind (demo_tracker demo_cublas [Fin 1] False 2 GAUSS_NEWTON)
      (align demo_cublas [Fin 0] [Fin 0])) = Some [Fin 2, Fin 0, Fin 0, Fin 0, Fin 0, Fin 0] \<and>
   map_option (map depth \<circ> d_prev \<circ> snd)
      (Option.bind (demo_tracker demo_cublas [Fin 1] False 2 GAUSS_NEWTON)
         (align demo_cublas [Fin 0] [Fin 0])) = Some [[Fin 0]] \<and>
   map_option (map depth \<circ> d_prev \<circ> snd)
      (Option.bind (demo_tracker demo_cublas [Fin 1] False 2 GAUSS_NEWTON)
         (align demo_cublas [Fin 0] [Fin 5])) = Some [[Fin 5]] \<and>
   (\<exists>s. demo_tracker demo_cublas [Fin 1] False 2 GAUSS_NEWTON = Some s \<and>
      rel_option (\<lambda>p1 p2. fst p1 = fst p2 \<and> differ_in_new_depth (snd p1) (snd p2))
        (align demo_cublas [Fin 0] [Fin 0] s) (align demo_cublas [Fin 0] [Fin 5] s) \<and>
      map_option fst (align demo_cublas [Fin 0] [Fin 0] s) =
        map_option fst (align demo_cublas [Fin 0] [Fin 5] s))"
proof -
  have l: "length [Fin 0] = length [Fin 5]" by simp
  have 1: "map_option fst (Option.bind (demo_tracker demo_cublas [Fin 1] False 2 GAUSS_NEWTON)
      (align demo_cublas [Fin 0] [Fin 0])) = Some [Fin 2, Fin 0, Fin 0, Fin 0, Fin 0, Fin 0]"
    by code_simp
  have 2: "map_option (map depth \<circ> d_prev \<circ> snd)
      (Option.bind (demo_tracker demo_cublas [Fin 1] False 2 GAUSS_NEWTON)
         (align demo_cublas [Fin 0] [Fin 0])) = Some [[Fin 0]]"
    by code_simp
  have 3: "map_option (map depth \<circ> d_prev \<circ> snd)
      (Option.bind (demo_tracker demo_cublas [Fin 1] False 2 GAUSS_NEWTON)
         (align demo_cublas [Fin 0] [Fin 5])) = Some [[Fin 5]]"
    by code_simp
  from 1 obtain s where t: "demo_tracker demo_cublas [Fin 1] False 2 GAUSS_NEWTON = Some s"
    by (cases "demo_tracker demo_cublas [Fin 1] False 2 GAUSS_NEWTON") simp_all
  note T = depth_argument_is_not_read [OF l, of demo_cublas "[Fin 0]" s]
  from T t have 4: "\<exists>s. demo_tracker demo_cublas [Fin 1] False 2 GAUSS_NEWTON = Some s \<and>
      rel_option (\<lambda>p1 p2. fst p1 = fst p2 \<and> differ_in_new_depth (snd p1) (snd p2))
        (align demo_cublas [Fin 0] [Fin 0] s) (align demo_cublas [Fin 0] [Fin 5] s) \<and>
      map_option fst (align demo_cublas [Fin 0] [Fin 0] s) =
        map_option fst (align demo_cublas [Fin 0] [Fin 5] s)"
    by (intro exI [of _ s] conjI) simp_all
  show ?thesis by (intro conjI l 1 2 3 4)
qed

subsection \<open>The constructor\<close>

text \<open>
  A loop whose body returns on every state of an invariant returns, in the invariant;
  the second form lets the invariant depend on the level.
\<close>

lemma each_succeeds:
  "I x \<Longrightarrow> (\<forall>level\<in>set levels. \<forall>z. I z \<longrightarrow> (\<exists>z'. body level z = Some z' \<and> I z')) \<Longrightarrow>
   \<exists>y. each body levels x = Some y \<and> I y"
proof (induction levels arbitrary: x)
  case Nil
  then show ?case by simp
next
  case (Cons level levels)
  have "level \<in> set (level # levels)" by simp
  from bspec [OF Cons.prems(2) this, rule_format, OF Cons.prems(1)]
  obtain x' where x': "body level x = Some x'" "I x'" by blast
  have rest: "\<forall>l\<in>set levels. \<forall>z. I z \<longrightarrow> (\<exists>z'. body l z = Some z' \<and> I z')"
  proof
    fix l assume "l \<in> set levels"
    then have "l \<in> set (level # levels)" by simp
    from bspec [OF Cons.prems(2) this]
    show "\<forall>z. I z \<longrightarrow> (\<exists>z'. body l z = Some z' \<and> I z')" .
  qed
  from Cons.IH [OF x'(2) rest] x'(1) show ?case by simp
qed

lemma each_upto_succeeds:
  assumes "I lo x" and "lo \<le> hi + 1"
    and "\<forall>l z. lo \<le> l \<and> l \<le> hi \<and> I l z \<longrightarrow> (\<exists>z'. body l z = Some z' \<and> I (l + 1) z')"
  shows "\<exists>y. each body [lo..hi] x = Some y \<and> I (hi + 1) y"
  using assms
proof (induction lo hi arbitrary: x rule: upto.induct)
  case (1 i j)
  show ?case
  proof (cases "i \<le> j")
    case False
    with "1.prems"(2) have "i = j + 1" by simp
    with "1.prems"(1) False show ?thesis by simp
  next
    case True
    from "1.prems"(3) [rule_format, of i x] True "1.prems"(1)
    obtain x' where x': "body i x = Some x'" "I (i + 1) x'" by blast
    have rest: "\<forall>l z. i + 1 \<le> l \<and> l \<le> j \<and> I l z \<longrightarrow>
                  (\<exists>z'. body l z = Some z' \<and> I (l + 1) z')"
    proof (intro allI impI)
      fix l z assume a: "i + 1 \<le> l \<and> l \<le> j \<and> I l z"
      then have "i \<le> l \<and> l \<le> j \<and> I l z" by simp
      from "1.prems"(3) [rule_format, OF this]
      show "\<exists>z'. body l z = Some z' \<and> I (l + 1) z'" .
    qed
    from True have "i + 1 \<le> j + 1" by simp
    from "1.IH" [OF True x'(2) this rest]
    obtain y where "each body [i + 1..j] x' = Some y" "I (j + 1) y" by blast
    with x'(1) True show ?thesis by (simp add: upto_rec1)
  qed
qed

text \<open>
  A run of checked requests returns exactly when the runtime grants them one after the
  other, and then it has logged them; so does \<open>allocateGPUMemory\<close>, whose loop over the
  levels moreover needs every level to be at most 30.
\<close>

lemma accepted_append:
  "accepted env calls (xs @ ys) =
     (accepted env calls xs \<and> accepted env (calls @ map Malloc xs) ys)"
  by (induction xs arbitrary: calls) simp_all

lemma cudaMallocs_eq:
  "cudaMallocs env bs s =
     (if accepted env (cuda_log s) bs then Some (s\<lparr>cuda_log := cuda_log s @ map Malloc bs\<rparr>)
      else None)"
proof (induction bs arbitrary: s)
  case Nil
  then show ?case by simp
next
  case (Cons a bs)
  show ?case
    by (simp add: cudaMalloc_checked_def cudaMalloc_def Cons.IH)
qed

lemma replicate_8: "replicate 8 x = [x, x, x, x, x, x, x, x]"
  by (simp add: eval_nat_numeral)

lemma pyramid_mallocs_eq:
  "pyramid_mallocs env level s =
     (if 0 \<le> level \<and> level \<le> 30 \<and> level < int (length (d_cur s)) \<and>
         level < int (length (d_prev s)) \<and>
         accepted env (cuda_log s) (replicate 8 (level_bytes (width s) (height s) level))
      then Some (s\<lparr>cuda_log := cuda_log s @
                   map Malloc (replicate 8 (level_bytes (width s) (height s) level))\<rparr>)
      else None)"
  unfolding replicate_8
  by (simp add: pyramid_mallocs_def cudaMallocs_eq Let_def level_bytes_def)

lemma pyramid_mallocs_each:
  assumes "\<forall>l\<in>set levels. 0 \<le> l \<and> l < int (length (d_cur z)) \<and> l < int (length (d_prev z))"
  shows "each (pyramid_mallocs env) levels z =
           (if (\<forall>l\<in>set levels. l \<le> 30) \<and>
               accepted env (cuda_log z) (pyramid_requests (width z) (height z) levels)
            then Some (z\<lparr>cuda_log := cuda_log z @
                         map Malloc (pyramid_requests (width z) (height z) levels)\<rparr>)
            else None)"
  using assms
proof (induction levels arbitrary: z)
  case Nil
  then show ?case by (simp add: pyramid_requests_def)
next
  case (Cons l levels)
  let ?r = "replicate 8 (level_bytes (width z) (height z) l)"
  let ?z = "z\<lparr>cuda_log := cuda_log z @ map Malloc ?r\<rparr>"
  from Cons.prems
  have b: "0 \<le> l" "l < int (length (d_cur z))" "l < int (length (d_prev z))"
    by simp_all
  from Cons.prems
  have "\<forall>l\<in>set levels. 0 \<le> l \<and> l < int (length (d_cur ?z)) \<and> l < int (length (d_prev ?z))"
    by simp
  note ih = Cons.IH [OF this]
  have r: "pyramid_requests (width z) (height z) (l # levels) =
             ?r @ pyramid_requests (width z) (height z) levels"
    by (simp add: pyramid_requests_def)
  show ?case
  proof (cases "l \<le> 30 \<and> accepted env (cuda_log z) ?r")
    case False
    with b have "pyramid_mallocs env l z = None"
      by (simp add: pyramid_mallocs_eq)
    with False show ?thesis
      by (auto simp: r accepted_append)
  next
    case True
    with b have "pyramid_mallocs env l z = Some ?z"
      by (simp add: pyramid_mallocs_eq)
    with True ih show ?thesis
      by (simp add: r accepted_append)
  qed
qed

lemma allocateGPUMemory_eq:
  assumes "length (d_cur s) = nat (maxLevel s + 1)" "length (d_prev s) = nat (maxLevel s + 1)"
    and "d_pre_A s = Buf_pre_A" "d_pre_A_aux s = Buf_pre_A_aux"
    and "d_pre_b s = Buf_pre_b" "d_pre_b_aux s = Buf_pre_b_aux"
  shows "allocateGPUMemory env s =
           (if maxLevel s \<le> 30 \<and>
               accepted env (cuda_log s)
                 (constructor_requests (ENABLE_CUBLAS env) (width s) (height s) (maxLevel s))
            then Some (s\<lparr>cuda_log := cuda_log s @ map Malloc
                   (constructor_requests (ENABLE_CUBLAS env) (width s) (height s) (maxLevel s))\<rparr>)
            else None)"
proof -
  let ?w = "work_requests (width s) (height s)"
  let ?p = "pyramid_requests (width s) (height s) [0..maxLevel s]"
  let ?q = "partial_sum_requests (width s) (height s)"
  let ?s1 = "s\<lparr>cuda_log := cuda_log s @ map Malloc ?w\<rparr>"
  let ?s2 = "?s1\<lparr>cuda_log := cuda_log ?s1 @ map Malloc ?p\<rparr>"
  have w: "cudaMallocs env
            [float_bytes (mul32 (mul32 6 (width s)) (height s)),
             float_bytes (mul32 (mul32 6 (width s)) (height s)),
             float_bytes (mul32 (width s) (height s)),
             float_bytes (mul32 (width s) (height s)),
             float_bytes (mul32 (width s) (height s)),
             float_bytes (mul32 (width s) (height s)),
             float_bytes (mul32 (width s) (height s)),
             float_bytes (mul32 (width s) (height s)),
             float_bytes (mul32 (width s) (height s)),
             float_bytes 6,
             float_bytes (mul32 6 6),
             size_t sizeof_float] s =
           (if accepted env (cuda_log s) ?w then Some ?s1 else None)"
    unfolding cudaMallocs_eq by (simp add: work_requests_def eval_nat_numeral)
  have "\<forall>l\<in>set [0..maxLevel s]. 0 \<le> l \<and> l < int (length (d_cur ?s1)) \<and>
          l < int (length (d_prev ?s1))"
    using assms(1,2) by auto
  from pyramid_mallocs_each [OF this, of env]
  have p: "each (pyramid_mallocs env) [0..maxLevel s] ?s1 =
       (if maxLevel s \<le> 30 \<and> accepted env (cuda_log ?s1) ?p then Some ?s2 else None)"
    by auto
  have e: "x\<lparr>d_pre_A := Buf_pre_A, d_pre_A_aux := Buf_pre_A_aux,
             d_pre_b := Buf_pre_b, d_pre_b_aux := Buf_pre_b_aux\<rparr> = x"
    if "\<exists>c. x = s\<lparr>cuda_log := c\<rparr>" for x
    using that assms(3-6) by (cases s) auto
  have m: "maxLevel ?s1 = maxLevel s" by simp
  show ?thesis
  proof (cases "ENABLE_CUBLAS env")
    case True
    then show ?thesis
      unfolding allocateGPUMemory_def Let_def w for_up_each
      by (simp add: p constructor_requests_def accepted_append)
  next
    case False
    have "(?s2\<lparr>cuda_log := cuda_log ?s2 @ map Malloc ?q\<rparr>)\<lparr>d_pre_A := Buf_pre_A,
             d_pre_A_aux := Buf_pre_A_aux, d_pre_b := Buf_pre_b, d_pre_b_aux := Buf_pre_b_aux\<rparr>
          = ?s2\<lparr>cuda_log := cuda_log ?s2 @ map Malloc ?q\<rparr>"
      by (rule e) (intro exI [of _ "cuda_log s @ map Malloc ?w @ map Malloc ?p @ map Malloc ?q"],
          simp)
    with False show ?thesis
      unfolding allocateGPUMemory_def Let_def w for_up_each
      by (simp add: p cudaMallocs_eq partial_sum_requests_def eval_nat_numeral
          constructor_requests_def accepted_append del: cudaMallocs.simps)
  qed
qed


text \<open>
  The pyramid of camera matrices: level \<open>l\<close> holds \<open>K\<close> downsampled \<open>l\<close> times, and the loop
  returns when \<open>invertKMat\<close> returns on each of them.
\<close>

lemma fill_K_levels_Some:
  assumes "length (K_pyr s) = nat (maxLevel s + 1)" "length (K_inv_pyr s) = nat (maxLevel s + 1)"
    and "0 \<le> maxLevel s"
    and inv: "\<forall>l. 0 \<le> l \<and> l \<le> maxLevel s \<longrightarrow>
                invertKMat env ((downsampleK env ^^ nat l) K) \<noteq> None"
  shows "\<exists>k ki. fill_K_levels env K s = Some (s\<lparr>K_pyr := k, K_inv_pyr := ki\<rparr>) \<and>
           length k = nat (maxLevel s + 1) \<and> length ki = nat (maxLevel s + 1) \<and>
           k ! 0 = K \<and> invertKMat env K = Some (ki ! 0)"
proof -
  let ?n = "nat (maxLevel s + 1)"
  let ?I = "\<lambda>l z. \<exists>k ki. z = s\<lparr>K_pyr := k, K_inv_pyr := ki\<rparr> \<and> length k = ?n \<and> length ki = ?n \<and>
              k ! 0 = K \<and> invertKMat env K = Some (ki ! 0) \<and>
              (\<forall>j. 0 \<le> j \<and> j < l \<longrightarrow> k ! nat j = (downsampleK env ^^ nat j) K)"
  from assms have pos: "0 < length (K_pyr s)" "0 < length (K_inv_pyr s)" by simp_all
  from inv [rule_format, of 0] assms(3) obtain i0 where i0: "invertKMat env K = Some i0"
    by auto
  let ?s1 = "s\<lparr>K_pyr := (K_pyr s)[0 := K], K_inv_pyr := (K_inv_pyr s)[0 := i0]\<rparr>"
  from pos i0 have f: "fill_K_levels env K s = each (fill_K_level env) [1..maxLevel s] ?s1"
    by (simp add: fill_K_levels_def vec_set_def vec_at_def for_up_each)
  have n0: "(K_pyr s)[0 := K] ! 0 = K" "invertKMat env K = Some ((K_inv_pyr s)[0 := i0] ! 0)"
    using pos i0 by simp_all
  have l0: "length ((K_pyr s)[0 := K]) = ?n" "length ((K_inv_pyr s)[0 := i0]) = ?n"
    using assms(1,2) by simp_all
  have j0: "\<forall>j. 0 \<le> j \<and> j < 1 \<longrightarrow> (K_pyr s)[0 := K] ! nat j = (downsampleK env ^^ nat j) K"
  proof (intro allI impI)
    fix j :: int assume "0 \<le> j \<and> j < 1"
    then have "j = 0" by simp
    with n0(1) show "(K_pyr s)[0 := K] ! nat j = (downsampleK env ^^ nat j) K" by simp
  qed
  have i1: "?I 1 ?s1"
    by (rule exI [of _ "(K_pyr s)[0 := K]"], rule exI [of _ "(K_inv_pyr s)[0 := i0]"],
        intro conjI refl n0 l0 j0)
  have step: "\<forall>level z. 1 \<le> level \<and> level \<le> maxLevel s \<and> ?I level z \<longrightarrow>
                (\<exists>z'. fill_K_level env level z = Some z' \<and> ?I (level + 1) z')"
  proof (intro allI impI)
    fix level z
    assume a: "1 \<le> level \<and> level \<le> maxLevel s \<and> ?I level z"
    then have l: "1 \<le> level" "level \<le> maxLevel s" by simp_all
    from a have "?I level z" by (elim conjE)
    then obtain k ki where z: "z = s\<lparr>K_pyr := k, K_inv_pyr := ki\<rparr>"
      and len: "length k = ?n" "length ki = ?n"
      and first: "k ! 0 = K" "invertKMat env K = Some (ki ! 0)"
      and ds: "\<forall>j. 0 \<le> j \<and> j < level \<longrightarrow> k ! nat j = (downsampleK env ^^ nat j) K"
      by (elim exE conjE) (rule that)
    from l len have b: "0 \<le> level - 1" "level - 1 < int (length k)" "0 \<le> level"
      "level < int (length k)" "level < int (length ki)" "nat level \<noteq> 0"
      by auto
    from ds [rule_format, of "level - 1"] l
    have below: "k ! nat (level - 1) = (downsampleK env ^^ nat (level - 1)) K" by simp
    from l have "nat level = Suc (nat (level - 1))" by simp
    with below have here: "downsampleK env (k ! nat (level - 1)) = (downsampleK env ^^ nat level) K"
      by simp
    from inv [rule_format, of level] l obtain iv where
      iv: "invertKMat env ((downsampleK env ^^ nat level) K) = Some iv"
      by auto
    let ?k = "k[nat level := (downsampleK env ^^ nat level) K]"
    let ?ki = "ki[nat level := iv]"
    have r: "fill_K_level env level z = Some (s\<lparr>K_pyr := ?k, K_inv_pyr := ?ki\<rparr>)"
      using b here iv by (simp add: fill_K_level_def z vec_at_def vec_set_def)
    have d: "\<forall>j. 0 \<le> j \<and> j < level + 1 \<longrightarrow> ?k ! nat j = (downsampleK env ^^ nat j) K"
    proof (intro allI impI)
      fix j assume j: "0 \<le> j \<and> j < level + 1"
      show "?k ! nat j = (downsampleK env ^^ nat j) K"
      proof (cases "j = level")
        case True
        from b(3,4) have "nat level < length k" by linarith
        with True show ?thesis by simp
      next
        case False
        with j have "0 \<le> j \<and> j < level" "nat level \<noteq> nat j" by auto
        with ds [rule_format, of j] show ?thesis by simp
      qed
    qed
    have e1: "?k ! 0 = K" using first(1) b(6) by simp
    have e2: "invertKMat env K = Some (?ki ! 0)" using first(2) b(6) by simp
    have e3: "length ?k = ?n" "length ?ki = ?n" using len by simp_all
    have "?I (level + 1) (s\<lparr>K_pyr := ?k, K_inv_pyr := ?ki\<rparr>)"
      by (rule exI [of _ ?k], rule exI [of _ ?ki], intro conjI refl e1 e2 e3 d)
    with r show "\<exists>z'. fill_K_level env level z = Some z' \<and> ?I (level + 1) z'"
      by (intro exI [of _ "s\<lparr>K_pyr := ?k, K_inv_pyr := ?ki\<rparr>"] conjI)
  qed
  from assms(3) have "(1::int) \<le> maxLevel s + 1" by simp
  from each_upto_succeeds [where I = ?I and body = "fill_K_level env", OF i1 this step]
  obtain y k ki where y: "each (fill_K_level env) [1..maxLevel s] ?s1 = Some y"
    and "y = s\<lparr>K_pyr := k, K_inv_pyr := ki\<rparr>"
      "length k = ?n" "length ki = ?n" "k ! 0 = K" "invertKMat env K = Some (ki ! 0)"
    by (elim exE conjE) (rule that)
  with f show ?thesis
    by (intro exI [of _ k] exI [of _ ki]) simp
qed

lemma fill_K_levels_SomeD:
  assumes "fill_K_levels env K s = Some s'"
  shows "\<exists>k ki. s' = s\<lparr>K_pyr := k, K_inv_pyr := ki\<rparr> \<and> 0 < length (K_pyr s) \<and>
           length k = length (K_pyr s) \<and> k ! 0 = K \<and> invertKMat env K = Some (ki ! 0)"
proof -
  let ?P = "\<lambda>z. \<exists>k ki. z = s\<lparr>K_pyr := k, K_inv_pyr := ki\<rparr> \<and> 0 < length (K_pyr s) \<and>
           length k = length (K_pyr s) \<and> k ! 0 = K \<and> invertKMat env K = Some (ki ! 0)"
  from assms obtain i0 where pos: "0 < length (K_pyr s)" "0 < length (K_inv_pyr s)"
    and i0: "invertKMat env K = Some i0"
    and e: "each (fill_K_level env) [1..maxLevel s]
              (s\<lparr>K_pyr := (K_pyr s)[0 := K], K_inv_pyr := (K_inv_pyr s)[0 := i0]\<rparr>) = Some s'"
    by (auto simp: fill_K_levels_def vec_set_def vec_at_def for_up_each bind_eq_Some_conv
        Let_def split: if_splits)
  have p0: "?P (s\<lparr>K_pyr := (K_pyr s)[0 := K], K_inv_pyr := (K_inv_pyr s)[0 := i0]\<rparr>)"
    using pos i0
    by (intro exI [of _ "(K_pyr s)[0 := K]"] exI [of _ "(K_inv_pyr s)[0 := i0]"]) simp
  have step: "\<forall>level\<in>set [1..maxLevel s]. \<forall>z z'. ?P z \<longrightarrow>
                fill_K_level env level z = Some z' \<longrightarrow> ?P z'"
  proof (intro ballI allI impI)
    fix level z z'
    assume l: "level \<in> set [1..maxLevel s]" and pz: "?P z"
      and b: "fill_K_level env level z = Some z'"
    from pz obtain k ki where z: "z = s\<lparr>K_pyr := k, K_inv_pyr := ki\<rparr>"
      and len: "length k = length (K_pyr s)"
      and first: "k ! 0 = K" "invertKMat env K = Some (ki ! 0)"
      by (elim exE conjE) (rule that)
    from l have l1: "nat level \<noteq> 0" by simp
    from b obtain x iv where
      z': "z' = s\<lparr>K_pyr := k[nat level := x], K_inv_pyr := ki[nat level := iv]\<rparr>"
      by (auto simp: fill_K_level_def z vec_at_def vec_set_def bind_eq_Some_conv
          split: if_splits)
    have e1: "k[nat level := x] ! 0 = K" using first(1) l1 by simp
    have e2: "invertKMat env K = Some (ki[nat level := iv] ! 0)" using first(2) l1 by simp
    have e3: "length (k[nat level := x]) = length (K_pyr s)" using len by simp
    show "?P z'"
      unfolding z'
      by (rule exI [of _ "k[nat level := x]"], rule exI [of _ "ki[nat level := iv]"],
          intro conjI refl e1 e2 e3 pos(1))
  qed
  from each_invariant [where P = ?P, OF e p0 step] show ?thesis .
qed

lemma load_K_to_device_Some:
  assumes "length (K_pyr s) = nat (maxLevel s + 1)"
  shows "\<exists>g. load_K_to_device s = Some (s\<lparr>dev := g\<rparr>)"
proof -
  let ?I = "\<lambda>z. \<exists>g. z = s\<lparr>dev := g\<rparr>"
  have i0: "?I s" by (intro exI [of _ "dev s"]) simp
  have step: "\<forall>level\<in>set [0..maxLevel s]. \<forall>z. ?I z \<longrightarrow>
                (\<exists>z'. load_K_level level z = Some z' \<and> ?I z')"
  proof (intro ballI allI impI)
    fix level z
    assume l: "level \<in> set [0..maxLevel s]" and "?I z"
    then obtain g where z: "z = s\<lparr>dev := g\<rparr>" by blast
    from l assms have b: "0 \<le> level" "level < int (length (K_pyr s))" by auto
    then show "\<exists>z'. load_K_level level z = Some z' \<and> ?I z'"
      by (auto simp: load_K_level_def z vec_at_def)
  qed
  from each_succeeds [where I = ?I and body = load_K_level, OF i0 step]
  show ?thesis by (auto simp: load_K_to_device_def for_up_each)
qed

lemma load_K_to_device_SomeD:
  assumes "load_K_to_device s = Some s'"
  shows "\<exists>g. s' = s\<lparr>dev := g\<rparr>"
proof -
  let ?P = "\<lambda>z. \<exists>g. z = s\<lparr>dev := g\<rparr>"
  from assms have e: "each load_K_level [0..maxLevel s] s = Some s'"
    by (simp add: load_K_to_device_def for_up_each)
  have p0: "?P s" by (intro exI [of _ "dev s"]) simp
  have step: "\<forall>level\<in>set [0..maxLevel s]. \<forall>z z'. ?P z \<longrightarrow>
                load_K_level level z = Some z' \<longrightarrow> ?P z'"
  proof (intro ballI allI impI)
    fix level z z'
    assume pz: "?P z" and b: "load_K_level level z = Some z'"
    from pz obtain g where z: "z = s\<lparr>dev := g\<rparr>" ..
    from b show "?P z'"
      by (auto simp: load_K_level_def z bind_eq_Some_conv)
  qed
  from each_invariant [where P = ?P, OF e p0 step] show ?thesis .
qed

lemma fill_pyramid_Some:
  assumes "length p = nat (maxLevel s + 1)" "0 \<le> maxLevel s"
    and "0 \<le> width s * height s" "nat (width s * height s) \<le> length grayImg"
      "nat (width s * height s) \<le> length depthImg"
  shows "\<exists>q. fill_pyramid env s p grayImg depthImg = Some q \<and> length q = nat (maxLevel s + 1)"
proof -
  let ?n = "nat (maxLevel s + 1)"
  let ?m = "nat (width s * height s)"
  let ?I = "\<lambda>q. length q = ?n"
  let ?q0 = "p[0 := (p ! 0)\<lparr>gray := take ?m grayImg, depth := take ?m depthImg\<rparr>]"
  from assms have pos: "0 < length p" by simp
  with assms(3-5) have f: "fill_pyramid env s p grayImg depthImg =
      Option.bind (each (resize_level env s) [1..maxLevel s] ?q0)
        (each (derive_level env s) [0..maxLevel s])"
    by (simp add: fill_pyramid_def vec_at_def vec_set_def memcpy_def for_up_each)
  have i0: "?I ?q0" using assms(1) by simp
  have step1: "\<forall>level\<in>set [1..maxLevel s]. \<forall>z. ?I z \<longrightarrow>
                (\<exists>z'. resize_level env s level z = Some z' \<and> ?I z')"
    by (auto simp: resize_level_def vec_at_def vec_set_def Let_def)
  from each_succeeds [where I = ?I and body = "resize_level env s", OF i0 step1]
  obtain q1 where q1: "each (resize_level env s) [1..maxLevel s] ?q0 = Some q1" "?I q1"
    by blast
  have step2: "\<forall>level\<in>set [0..maxLevel s]. \<forall>z. ?I z \<longrightarrow>
                (\<exists>z'. derive_level env s level z = Some z' \<and> ?I z')"
    by (auto simp: derive_level_def vec_at_def vec_set_def Let_def case_prod_beta)
  from each_succeeds [where I = ?I and body = "derive_level env s", OF q1(2) step2]
  obtain q2 where "each (derive_level env s) [0..maxLevel s] q1 = Some q2" "?I q2"
    by blast
  with f q1(1) show ?thesis by simp
qed


text \<open>
  What a constructor that returns has done, and when it returns.
\<close>

lemma Tracker_new_SomeD:
  assumes "Tracker_new env grayFirstFrame depthFirstFrame w h K minL maxL useTDist
             maxIterations solving = Some s"
  shows "solvingMethod s = solving \<and> maxIterationsPerLevel s = maxIterations \<and>
         maxLevel s = maxL \<and> minLevel s = minL \<and> width s = w \<and> height s = h \<and>
         useTDistWeights s = useTDist \<and> xi s = Zero 6 \<and> xi_total s = Zero 6 \<and>
         K_pyr s ! 0 = K \<and> invertKMat env K = Some (K_inv_pyr s ! 0) \<and>
         length (K_pyr s) = nat (maxL + 1) \<and> length (d_cur s) = nat (maxL + 1) \<and>
         0 \<le> maxL \<and> maxL \<le> 30 \<and>
         accepted env [] (constructor_requests (ENABLE_CUBLAS env) w h maxL) \<and>
         cuda_log s = map Malloc (constructor_requests (ENABLE_CUBLAS env) w h maxL)"
proof -
  let ?n = "nat (maxL + 1)"
  define s0 where "s0 = (initial_members w h minL maxL useTDist maxIterations solving)
     \<lparr>d_cur := replicate ?n empty_level, d_prev := replicate ?n empty_level\<rparr>"
  have f0: "length (d_cur s0) = nat (maxLevel s0 + 1)" "length (d_prev s0) = nat (maxLevel s0 + 1)"
    "d_pre_A s0 = Buf_pre_A" "d_pre_A_aux s0 = Buf_pre_A_aux"
    "d_pre_b s0 = Buf_pre_b" "d_pre_b_aux s0 = Buf_pre_b_aux"
    by (simp_all add: s0_def initial_members_def)
  have c0: "solvingMethod s0 = solving" "maxIterationsPerLevel s0 = maxIterations"
    "maxLevel s0 = maxL" "minLevel s0 = minL" "width s0 = w" "height s0 = h"
    "useTDistWeights s0 = useTDist" "xi s0 = Zero 6" "xi_total s0 = Zero 6"
    "cuda_log s0 = []" "length (d_cur s0) = ?n"
    by (simp_all add: s0_def initial_members_def)
  from assms obtain s1 s2 s3 q where
    a: "allocateGPUMemory env s0 = Some s1"
    and k: "fill_K_levels env K (s1\<lparr>K_pyr := replicate ?n [], K_inv_pyr := replicate ?n []\<rparr>)
              = Some s2"
    and l: "load_K_to_device s2 = Some s3"
    and s: "s = s3\<lparr>d_prev := q\<rparr>"
    unfolding Tracker_new_def vec_resize_def Let_def s0_def
    by (auto simp: bind_eq_Some_conv split: if_splits)
  from a have m: "maxL \<le> 30"
    and acc: "accepted env [] (constructor_requests (ENABLE_CUBLAS env) w h maxL)"
    and s1: "s1 = s0\<lparr>cuda_log := map Malloc (constructor_requests (ENABLE_CUBLAS env) w h maxL)\<rparr>"
    unfolding allocateGPUMemory_eq [OF f0] by (auto simp: c0 split: if_splits)
  from fill_K_levels_SomeD [OF k] obtain kk ki where
    s2: "s2 = s1\<lparr>K_pyr := kk, K_inv_pyr := ki\<rparr>"
    and pos: "0 < ?n" and len: "length kk = ?n"
    and first: "kk ! 0 = K" "invertKMat env K = Some (ki ! 0)"
    by (auto simp: s1)
  from load_K_to_device_SomeD [OF l] obtain g where s3: "s3 = s2\<lparr>dev := g\<rparr>" ..
  from pos have "0 \<le> maxL" by simp
  with m acc len first show ?thesis
    by (simp add: s s3 s2 s1 c0)
qed

lemma Tracker_new_Some:
  assumes "0 \<le> maxL" and "maxL \<le> 30"
    and acc: "accepted env [] (constructor_requests (ENABLE_CUBLAS env) w h maxL)"
    and inv: "\<forall>l. 0 \<le> l \<and> l \<le> maxL \<longrightarrow>
                invertKMat env ((downsampleK env ^^ nat l) K) \<noteq> None"
    and "0 \<le> w * h"
    and "nat (w * h) \<le> length grayFirstFrame" and "nat (w * h) \<le> length depthFirstFrame"
  shows "\<exists>s. Tracker_new env grayFirstFrame depthFirstFrame w h K minL maxL useTDist
                maxIterations solving = Some s"
proof -
  let ?n = "nat (maxL + 1)"
  define s0 where "s0 = (initial_members w h minL maxL useTDist maxIterations solving)
     \<lparr>d_cur := replicate ?n empty_level, d_prev := replicate ?n empty_level\<rparr>"
  have f0: "length (d_cur s0) = nat (maxLevel s0 + 1)" "length (d_prev s0) = nat (maxLevel s0 + 1)"
    "d_pre_A s0 = Buf_pre_A" "d_pre_A_aux s0 = Buf_pre_A_aux"
    "d_pre_b s0 = Buf_pre_b" "d_pre_b_aux s0 = Buf_pre_b_aux"
    by (simp_all add: s0_def initial_members_def)
  have c0: "maxLevel s0 = maxL" "width s0 = w" "height s0 = h" "cuda_log s0 = []"
    by (simp_all add: s0_def initial_members_def)
  define s1 where
    "s1 = s0\<lparr>cuda_log := map Malloc (constructor_requests (ENABLE_CUBLAS env) w h maxL)\<rparr>"
  have a: "allocateGPUMemory env s0 = Some s1"
    unfolding allocateGPUMemory_eq [OF f0] using assms(2) acc by (simp add: c0 s1_def)
  define s2 where "s2 = s1\<lparr>K_pyr := replicate ?n [], K_inv_pyr := replicate ?n []\<rparr>"
  have c2: "maxLevel s2 = maxL" "width s2 = w" "height s2 = h"
    "length (d_prev s2) = ?n"
    using f0(2) by (simp_all add: s2_def s1_def c0)
  have f2: "length (K_pyr s2) = nat (maxLevel s2 + 1)" "length (K_inv_pyr s2) = nat (maxLevel s2 + 1)"
    "0 \<le> maxLevel s2"
    "\<forall>l. 0 \<le> l \<and> l \<le> maxLevel s2 \<longrightarrow> invertKMat env ((downsampleK env ^^ nat l) K) \<noteq> None"
    using assms(1) inv by (simp_all add: c2) (simp_all add: s2_def)
  from fill_K_levels_Some [OF f2]
  obtain k ki where k: "fill_K_levels env K s2 = Some (s2\<lparr>K_pyr := k, K_inv_pyr := ki\<rparr>)"
    and len: "length k = ?n"
    unfolding c2 by (elim exE conjE) (rule that)
  define s3 where "s3 = s2\<lparr>K_pyr := k, K_inv_pyr := ki\<rparr>"
  have "length (K_pyr s3) = nat (maxLevel s3 + 1)"
    using len by (simp add: s3_def c2)
  from load_K_to_device_Some [OF this]
  obtain g where g: "load_K_to_device s3 = Some (s3\<lparr>dev := g\<rparr>)"
    by (elim exE) (rule that)
  define s4 where "s4 = s3\<lparr>dev := g\<rparr>"
  have c4: "maxLevel s4 = maxL" "width s4 = w" "height s4 = h" "length (d_prev s4) = ?n"
    by (simp_all add: s4_def s3_def c2)
  have "length (d_prev s4) = nat (maxLevel s4 + 1)" "0 \<le> maxLevel s4"
    "0 \<le> width s4 * height s4" "nat (width s4 * height s4) \<le> length grayFirstFrame"
    "nat (width s4 * height s4) \<le> length depthFirstFrame"
    using assms by (simp_all add: c4)
  from fill_pyramid_Some [OF this, of env]
  obtain q where q: "fill_pyramid env s4 (d_prev s4) grayFirstFrame depthFirstFrame = Some q"
    by (elim exE conjE) (rule that)
  have "Tracker_new env grayFirstFrame depthFirstFrame w h K minL maxL useTDist
          maxIterations solving = Some (s4\<lparr>d_prev := q\<rparr>)"
    unfolding Tracker_new_def vec_resize_def
    using assms(1) a k g q
    by (simp add: s0_def [symmetric] s2_def [symmetric] s3_def [symmetric] s4_def [symmetric])
  then show ?thesis ..
qed


text \<open>
  The constructor passes the three options \<open>solvingMethod\<close>, \<open>maxIterationsPerLevel\<close> and
  \<open>minLevel\<close> through: every step commutes with setting them.
\<close>

lemma each_commute:
  assumes "\<forall>level\<in>set levels. \<forall>z. body level (f z) = map_option f (body level z)"
  shows "each body levels (f x) = map_option f (each body levels x)"
  using assms
proof (induction levels arbitrary: x)
  case Nil
  then show ?case by simp
next
  case (Cons level levels)
  have "level \<in> set (level # levels)" by simp
  from bspec [OF Cons.prems this, rule_format, of x]
  have b: "body level (f x) = map_option f (body level x)" .
  have rest: "\<forall>l\<in>set levels. \<forall>z. body l (f z) = map_option f (body l z)"
  proof
    fix l assume "l \<in> set levels"
    then have "l \<in> set (level # levels)" by simp
    from bspec [OF Cons.prems this] show "\<forall>z. body l (f z) = map_option f (body l z)" .
  qed
  show ?case
  proof (cases "body level x")
    case None
    with b show ?thesis by simp
  next
    case (Some x')
    with b Cons.IH [OF rest, of x'] show ?thesis by simp
  qed
qed

lemma with_options_fields [simp]:
  "width (with_options m i l s) = width s" "height (with_options m i l s) = height s"
  "maxLevel (with_options m i l s) = maxLevel s" "cuda_log (with_options m i l s) = cuda_log s"
  "d_cur (with_options m i l s) = d_cur s" "d_prev (with_options m i l s) = d_prev s"
  "K_pyr (with_options m i l s) = K_pyr s" "K_inv_pyr (with_options m i l s) = K_inv_pyr s"
  "dev (with_options m i l s) = dev s"
  "d_pre_A (with_options m i l s) = d_pre_A s" "d_pre_A_aux (with_options m i l s) = d_pre_A_aux s"
  "d_pre_b (with_options m i l s) = d_pre_b s" "d_pre_b_aux (with_options m i l s) = d_pre_b_aux s"
  by (simp_all add: with_options_def)

lemma with_options_out:
  "(with_options m i l s)\<lparr>cuda_log := c\<rparr> = with_options m i l (s\<lparr>cuda_log := c\<rparr>)"
  "(with_options m i l s)\<lparr>K_pyr := k\<rparr> = with_options m i l (s\<lparr>K_pyr := k\<rparr>)"
  "(with_options m i l s)\<lparr>K_inv_pyr := ki\<rparr> = with_options m i l (s\<lparr>K_inv_pyr := ki\<rparr>)"
  "(with_options m i l s)\<lparr>dev := g\<rparr> = with_options m i l (s\<lparr>dev := g\<rparr>)"
  "(with_options m i l s)\<lparr>d_prev := q\<rparr> = with_options m i l (s\<lparr>d_prev := q\<rparr>)"
  by (simp_all add: with_options_def)

lemma fill_K_level_options:
  "fill_K_level env level (with_options m i l z) = map_option (with_options m i l) (fill_K_level env level z)"
  by (simp add: fill_K_level_def vec_at_def vec_set_def with_options_out split: bind_split)

lemma fill_K_levels_options:
  "fill_K_levels env K (with_options m i l z) = map_option (with_options m i l) (fill_K_levels env K z)"
proof -
  have "\<forall>level\<in>set [1..maxLevel z]. \<forall>x. fill_K_level env level (with_options m i l x) =
          map_option (with_options m i l) (fill_K_level env level x)"
    by (simp add: fill_K_level_options)
  from each_commute [where f = "with_options m i l" and body = "fill_K_level env", OF this]
  show ?thesis
    by (simp add: fill_K_levels_def vec_at_def vec_set_def for_up_each with_options_out
        split: bind_split)
qed

lemma load_K_to_device_options:
  "load_K_to_device (with_options m i l z) = map_option (with_options m i l) (load_K_to_device z)"
proof -
  have "\<forall>level\<in>set [0..maxLevel z]. \<forall>x. load_K_level level (with_options m i l x) =
          map_option (with_options m i l) (load_K_level level x)"
    by (simp add: load_K_level_def vec_at_def with_options_out)
  from each_commute [where f = "with_options m i l" and body = load_K_level, OF this]
  show ?thesis
    by (simp add: load_K_to_device_def for_up_each)
qed

lemma fill_pyramid_options:
  "fill_pyramid env (with_options m i l z) p g d = fill_pyramid env z p g d"
proof -
  have "resize_level env (with_options m i l z) = resize_level env z"
    by (intro ext) (simp add: resize_level_def)
  moreover have "derive_level env (with_options m i l z) = derive_level env z"
    by (intro ext) (simp add: derive_level_def)
  ultimately show ?thesis by (simp add: fill_pyramid_def)
qed

lemma allocateGPUMemory_options:
  assumes "length (d_cur s) = nat (maxLevel s + 1)" "length (d_prev s) = nat (maxLevel s + 1)"
    and "d_pre_A s = Buf_pre_A" "d_pre_A_aux s = Buf_pre_A_aux"
    and "d_pre_b s = Buf_pre_b" "d_pre_b_aux s = Buf_pre_b_aux"
  shows "allocateGPUMemory env (with_options m i l s) =
           map_option (with_options m i l) (allocateGPUMemory env s)"
proof -
  have "length (d_cur (with_options m i l s)) = nat (maxLevel (with_options m i l s) + 1)"
    "length (d_prev (with_options m i l s)) = nat (maxLevel (with_options m i l s) + 1)"
    "d_pre_A (with_options m i l s) = Buf_pre_A" "d_pre_A_aux (with_options m i l s) = Buf_pre_A_aux"
    "d_pre_b (with_options m i l s) = Buf_pre_b" "d_pre_b_aux (with_options m i l s) = Buf_pre_b_aux"
    using assms by simp_all
  from allocateGPUMemory_eq [OF this, of env] allocateGPUMemory_eq [OF assms, of env]
  show ?thesis by (simp add: with_options_out)
qed

lemma Tracker_new_options:
  "Tracker_new env grayFirstFrame depthFirstFrame w h K minL maxL useTDist maxIterations solving =
     map_option (with_options solving maxIterations minL)
       (Tracker_new env grayFirstFrame depthFirstFrame w h K minL' maxL useTDist maxIterations'
          solving')"
proof (cases "0 \<le> maxL + 1")
  case False
  then show ?thesis by (simp add: Tracker_new_def vec_resize_def)
next
  case True
  let ?n = "nat (maxL + 1)"
  let ?u = "with_options solving maxIterations minL"
  define s0 where "s0 = (initial_members w h minL' maxL useTDist maxIterations' solving')
     \<lparr>d_cur := replicate ?n empty_level, d_prev := replicate ?n empty_level\<rparr>"
  have f0: "length (d_cur s0) = nat (maxLevel s0 + 1)" "length (d_prev s0) = nat (maxLevel s0 + 1)"
    "d_pre_A s0 = Buf_pre_A" "d_pre_A_aux s0 = Buf_pre_A_aux"
    "d_pre_b s0 = Buf_pre_b" "d_pre_b_aux s0 = Buf_pre_b_aux"
    by (simp_all add: s0_def initial_members_def)
  have i: "(initial_members w h minL maxL useTDist maxIterations solving)
     \<lparr>d_cur := replicate ?n empty_level, d_prev := replicate ?n empty_level\<rparr> = ?u s0"
    by (simp add: s0_def initial_members_def with_options_def)
  have l: "Tracker_new env grayFirstFrame depthFirstFrame w h K minL maxL useTDist
             maxIterations solving =
           Option.bind (allocateGPUMemory env (?u s0)) (\<lambda>s1.
             Option.bind (fill_K_levels env K
                 (s1\<lparr>K_pyr := replicate ?n [], K_inv_pyr := replicate ?n []\<rparr>)) (\<lambda>s2.
               Option.bind (load_K_to_device s2) (\<lambda>s3.
                 Option.bind (fill_pyramid env s3 (d_prev s3) grayFirstFrame depthFirstFrame)
                   (\<lambda>q. Some (s3\<lparr>d_prev := q\<rparr>)))))"
    using True by (simp add: Tracker_new_def vec_resize_def i)
  have r: "Tracker_new env grayFirstFrame depthFirstFrame w h K minL' maxL useTDist
             maxIterations' solving' =
           Option.bind (allocateGPUMemory env s0) (\<lambda>s1.
             Option.bind (fill_K_levels env K
                 (s1\<lparr>K_pyr := replicate ?n [], K_inv_pyr := replicate ?n []\<rparr>)) (\<lambda>s2.
               Option.bind (load_K_to_device s2) (\<lambda>s3.
                 Option.bind (fill_pyramid env s3 (d_prev s3) grayFirstFrame depthFirstFrame)
                   (\<lambda>q. Some (s3\<lparr>d_prev := q\<rparr>)))))"
    using True by (simp add: Tracker_new_def vec_resize_def s0_def)
  show ?thesis
    unfolding l r allocateGPUMemory_options [OF f0]
    by (simp add: bind_map_option map_option_bind o_def with_options_out
        fill_K_levels_options load_K_to_device_options fill_pyramid_options
        split: bind_split)
qed


lemma level_size_pos: "1 \<le> level_size w level \<Longrightarrow> 1 \<le> w"
proof (rule ccontr)
  assume a: "1 \<le> level_size w level" and "\<not> 1 \<le> w"
  then have w: "w \<le> 0" by simp
  have "(0::int) \<le> \<bar>w\<bar> div 2 ^ nat level"
    by (simp add: pos_imp_zdiv_nonneg_iff)
  with w have "level_size w level \<le> 0"
    by (cases "w = 0") (simp_all add: level_size_def c_div_def shl1_def mult_le_0_iff)
  with a show False by simp
qed

text \<open>
  C7 as stated fails: a solving method other than Gauss-Newton is no error. A tracker
  built with \<open>LEVENBERG_MARQUARDT\<close> is built like any other and stores the selector;
  no code reads it afterwards, and \<open>align\<close> returns the pose that it returns with
  \<open>GAUSS_NEWTON\<close>.
\<close>

theorem non_gauss_newton_is_accepted_counterexample:
  "map_option solvingMethod (demo_tracker demo_cublas [Fin 1] False 2 LEVENBERG_MARQUARDT)
     = Some LEVENBERG_MARQUARDT \<and>
   map_option fst (Option.bind (demo_tracker demo_cublas [Fin 1] False 2 LEVENBERG_MARQUARDT)
       (align demo_cublas [Fin 0] [Fin 0]))
     = Some [Fin 2, Fin 0, Fin 0, Fin 0, Fin 0, Fin 0] \<and>
   map_option fst (Option.bind (demo_tracker demo_cublas [Fin 1] False 2 GAUSS_NEWTON)
       (align demo_cublas [Fin 0] [Fin 0]))
     = Some [Fin 2, Fin 0, Fin 0, Fin 0, Fin 0, Fin 0]"
proof -
  have "map_option solvingMethod (demo_tracker demo_cublas [Fin 1] False 2 LEVENBERG_MARQUARDT)
     = Some LEVENBERG_MARQUARDT"
    by code_simp
  moreover have "map_option fst (Option.bind
       (demo_tracker demo_cublas [Fin 1] False 2 LEVENBERG_MARQUARDT)
       (align demo_cublas [Fin 0] [Fin 0]))
     = Some [Fin 2, Fin 0, Fin 0, Fin 0, Fin 0, Fin 0]"
    by code_simp
  moreover have "map_option fst (Option.bind
       (demo_tracker demo_cublas [Fin 1] False 2 GAUSS_NEWTON)
       (align demo_cublas [Fin 0] [Fin 0]))
     = Some [Fin 2, Fin 0, Fin 0, Fin 0, Fin 0, Fin 0]"
    by code_simp
  ultimately show ?thesis by (intro conjI)
qed

text \<open>
  C7 (as amended). The constructor tests none of its options. The solving method, the
  bound on the iterations and the lowest level are stored and not read: construction
  with any values of them returns exactly when construction with \<open>GAUSS_NEWTON\<close> returns,
  and with the same tracker but for the three stored values. A constructor that returns
  has stored the configuration as given, with \<open>K\<close> as level 0 of the pyramid of camera
  matrices and both pose vectors zero; it returns only if \<open>maxLevel\<close> is between 0 and 30
  and the runtime has granted every request for device memory. It does return when
  moreover no level of the pyramid is empty, the two first frames hold
  \<open>width * height\<close> values, and \<open>invertKMat\<close> returns on the camera matrix of every level.
\<close>

theorem constructor_stores_the_options_untested:
  "Tracker_new env grayFirstFrame depthFirstFrame w h K minL maxL useTDist maxIterations solving =
     map_option (with_options solving maxIterations minL)
       (Tracker_new env grayFirstFrame depthFirstFrame w h K minL' maxL useTDist maxIterations'
          GAUSS_NEWTON) \<and>
   (Tracker_new env grayFirstFrame depthFirstFrame w h K minL maxL useTDist maxIterations solving
      = Some s \<longrightarrow>
      solvingMethod s = solving \<and> maxIterationsPerLevel s = maxIterations \<and>
      maxLevel s = maxL \<and> minLevel s = minL \<and> width s = w \<and> height s = h \<and>
      useTDistWeights s = useTDist \<and> xi s = Zero 6 \<and> xi_total s = Zero 6 \<and>
      K_pyr s ! 0 = K \<and> invertKMat env K = Some (K_inv_pyr s ! 0) \<and>
      0 \<le> maxL \<and> maxL \<le> 30 \<and>
      accepted env [] (constructor_requests (ENABLE_CUBLAS env) w h maxL)) \<and>
   (0 \<le> maxL \<and> maxL \<le> 30 \<and> 1 \<le> level_size w maxL \<and> 1 \<le> level_size h maxL \<and>
    nat (w * h) \<le> length grayFirstFrame \<and> nat (w * h) \<le> length depthFirstFrame \<and>
    accepted env [] (constructor_requests (ENABLE_CUBLAS env) w h maxL) \<and>
    (\<forall>l. 0 \<le> l \<and> l \<le> maxL \<longrightarrow> invertKMat env ((downsampleK env ^^ nat l) K) \<noteq> None)
    \<longrightarrow>
      (\<exists>s'. Tracker_new env grayFirstFrame depthFirstFrame w h K minL maxL useTDist
              maxIterations solving = Some s'))"
proof (intro conjI impI)
  show "Tracker_new env grayFirstFrame depthFirstFrame w h K minL maxL useTDist maxIterations
          solving =
        map_option (with_options solving maxIterations minL)
          (Tracker_new env grayFirstFrame depthFirstFrame w h K minL' maxL useTDist maxIterations'
             GAUSS_NEWTON)"
    by (rule Tracker_new_options)
next
  assume t: "Tracker_new env grayFirstFrame depthFirstFrame w h K minL maxL useTDist
               maxIterations solving = Some s"
  note d = Tracker_new_SomeD [OF t]
  from d show "solvingMethod s = solving" by (elim conjE)
  from d show "maxIterationsPerLevel s = maxIterations" by (elim conjE)
  from d show "maxLevel s = maxL" by (elim conjE)
  from d show "minLevel s = minL" by (elim conjE)
  from d show "width s = w" by (elim conjE)
  from d show "height s = h" by (elim conjE)
  from d show "useTDistWeights s = useTDist" by (elim conjE)
  from d show "xi s = Zero 6" by (elim conjE)
  from d show "xi_total s = Zero 6" by (elim conjE)
  from d show "K_pyr s ! 0 = K" by (elim conjE)
  from d show "invertKMat env K = Some (K_inv_pyr s ! 0)" by (elim conjE)
  from d show "0 \<le> maxL" by (elim conjE)
  from d show "maxL \<le> 30" by (elim conjE)
  from d show "accepted env [] (constructor_requests (ENABLE_CUBLAS env) w h maxL)"
    by (elim conjE)
next
  assume a: "0 \<le> maxL \<and> maxL \<le> 30 \<and> 1 \<le> level_size w maxL \<and> 1 \<le> level_size h maxL \<and>
    nat (w * h) \<le> length grayFirstFrame \<and> nat (w * h) \<le> length depthFirstFrame \<and>
    accepted env [] (constructor_requests (ENABLE_CUBLAS env) w h maxL) \<and>
    (\<forall>l. 0 \<le> l \<and> l \<le> maxL \<longrightarrow> invertKMat env ((downsampleK env ^^ nat l) K) \<noteq> None)"
  then have p: "1 \<le> w" "1 \<le> h"
    by (auto dest: level_size_pos)
  then have "0 \<le> w * h" by simp
  with a show "\<exists>s'. Tracker_new env grayFirstFrame depthFirstFrame w h K minL maxL useTDist
              maxIterations solving = Some s'"
    by (intro Tracker_new_Some) simp_all
qed

theorem constructor_stores_the_options_untested_witness:
  "((0::int) \<le> 0 \<and> (0::int) \<le> 30 \<and> 1 \<le> level_size 1 0 \<and> 1 \<le> level_size 1 0 \<and>
    nat (1 * 1) \<le> length [Fin 0] \<and> nat (1 * 1) \<le> length [Fin 1] \<and>
    accepted demo_cublas [] (constructor_requests (ENABLE_CUBLAS demo_cublas) 1 1 0) \<and>
    invertKMat demo_cublas ((downsampleK demo_cublas ^^ nat 0) demo_K) \<noteq> None) \<and>
   (\<exists>s. Tracker_new demo_cublas [Fin 0] [Fin 1] 1 1 demo_K 0 0 False 2 LEVENBERG_MARQUARDT
           = Some s \<and>
      solvingMethod s = LEVENBERG_MARQUARDT \<and> maxIterationsPerLevel s = 2 \<and>
      maxLevel s = 0 \<and> minLevel s = 0 \<and> width s = 1 \<and> height s = 1 \<and>
      useTDistWeights s = False \<and> xi s = Zero 6 \<and> xi_total s = Zero 6 \<and>
      K_pyr s ! 0 = demo_K \<and> invertKMat demo_cublas demo_K = Some (K_inv_pyr s ! 0) \<and>
      (0::int) \<le> 0 \<and> (0::int) \<le> 30 \<and>
      accepted demo_cublas [] (constructor_requests (ENABLE_CUBLAS demo_cublas) 1 1 0)) \<and>
   Tracker_new demo_cublas [Fin 0] [Fin 1] 1 1 demo_K 0 0 False 2 LEVENBERG_MARQUARDT =
     map_option (with_options LEVENBERG_MARQUARDT 2 0)
       (Tracker_new demo_cublas [Fin 0] [Fin 1] 1 1 demo_K 0 0 False 2 GAUSS_NEWTON)"
proof -
  have acc: "accepted demo_cublas [] (constructor_requests (ENABLE_CUBLAS demo_cublas) 1 1 0)"
    by code_simp
  have h: "(0::int) \<le> 0 \<and> (0::int) \<le> 30 \<and> 1 \<le> level_size 1 0 \<and> 1 \<le> level_size 1 0 \<and>
    nat (1 * 1) \<le> length [Fin 0] \<and> nat (1 * 1) \<le> length [Fin 1] \<and>
    accepted demo_cublas [] (constructor_requests (ENABLE_CUBLAS demo_cublas) 1 1 0) \<and>
    (\<forall>l. 0 \<le> l \<and> l \<le> 0 \<longrightarrow>
       invertKMat demo_cublas ((downsampleK demo_cublas ^^ nat l) demo_K) \<noteq> None)"
    using acc by (simp add: level_size_def c_div_def shl1_def demo_cublas_def demo_env_def)
  have h': "(0::int) \<le> 0 \<and> (0::int) \<le> 30 \<and> 1 \<le> level_size 1 0 \<and> 1 \<le> level_size 1 0 \<and>
    nat (1 * 1) \<le> length [Fin 0] \<and> nat (1 * 1) \<le> length [Fin 1] \<and>
    accepted demo_cublas [] (constructor_requests (ENABLE_CUBLAS demo_cublas) 1 1 0) \<and>
    invertKMat demo_cublas ((downsampleK demo_cublas ^^ nat 0) demo_K) \<noteq> None"
    using acc by (simp add: level_size_def c_div_def shl1_def demo_cublas_def demo_env_def)
  note T = constructor_stores_the_options_untested
    [where env = demo_cublas and grayFirstFrame = "[Fin 0]" and depthFirstFrame = "[Fin 1]"
       and w = 1 and h = 1 and K = demo_K and minL = 0 and maxL = 0 and useTDist = False
       and maxIterations = 2 and solving = LEVENBERG_MARQUARDT and minL' = 0
       and maxIterations' = 2]
  from T [THEN conjunct2, THEN conjunct2, THEN mp, OF h]
  obtain s where s: "Tracker_new demo_cublas [Fin 0] [Fin 1] 1 1 demo_K 0 0 False 2
      LEVENBERG_MARQUARDT = Some s" ..
  note b = T [where s = s, THEN conjunct2, THEN conjunct1, THEN mp, OF s]
  have e: "\<exists>s. Tracker_new demo_cublas [Fin 0] [Fin 1] 1 1 demo_K 0 0 False 2 LEVENBERG_MARQUARDT
           = Some s \<and>
      solvingMethod s = LEVENBERG_MARQUARDT \<and> maxIterationsPerLevel s = 2 \<and>
      maxLevel s = 0 \<and> minLevel s = 0 \<and> width s = 1 \<and> height s = 1 \<and>
      useTDistWeights s = False \<and> xi s = Zero 6 \<and> xi_total s = Zero 6 \<and>
      K_pyr s ! 0 = demo_K \<and> invertKMat demo_cublas demo_K = Some (K_inv_pyr s ! 0) \<and>
      (0::int) \<le> 0 \<and> (0::int) \<le> 30 \<and>
      accepted demo_cublas [] (constructor_requests (ENABLE_CUBLAS demo_cublas) 1 1 0)"
    by (rule exI [of _ s], rule conjI, rule s, rule b)
  show ?thesis
    by (rule conjI, rule h', rule conjI, rule e, rule T [THEN conjunct1])
qed

subsection \<open>Requests for device memory\<close>

text \<open>
  What the steps of a pass add to the log of requests in a build without cuBLAS: the
  reduction of the error two requests and two releases, each pass of the variance loop
  the same again, the other steps nothing.
\<close>

lemma calculate_error_log:
  "\<not> ENABLE_CUBLAS env \<Longrightarrow> calculate_error env level lw lh s = Some s' \<Longrightarrow>
     cuda_log s' = cuda_log s @ reduction_calls (lw * lh)"
  by (auto simp: calculate_error_def bind_eq_Some_conv Let_def cudaMalloc_def cudaFree_def
      reduction_calls_def)

lemma reduce_array_GPU_log:
  "reduce_array_GPU env arr n s = Some (x, s') \<Longrightarrow>
     cuda_log s' = cuda_log s @ reduction_calls n"
  by (auto simp: reduce_array_GPU_def bind_eq_Some_conv Let_def cudaMalloc_def cudaFree_def
      reduction_calls_def)

lemma variance_pass_log:
  "\<not> ENABLE_CUBLAS env \<Longrightarrow> variance_pass env lw lh v s = Some (v', s') \<Longrightarrow>
     cuda_log s' = cuda_log s @ reduction_calls (lw * lh)"
  by (auto simp: variance_pass_def Let_def dest!: reduce_array_GPU_log
      split: if_splits option.splits)

lemma variance_loop_log:
  assumes "\<not> ENABLE_CUBLAS env"
    and "variance_loop env lw lh v i s = Some (vi, v', i', s')"
  shows "\<exists>k. 1 \<le> k \<and> i' = i + int k \<and> (k = 1 \<or> i' \<le> 5) \<and>
           cuda_log s' = cuda_log s @ concat (replicate k (reduction_calls (lw * lh)))"
  using assms
proof (induction env lw lh v i s rule: variance_loop.induct)
  case (1 env lw lh v i s)
  note nc = "1.prems"(1)
  from "1.prems"(2) obtain v1 s1 where p: "variance_pass env lw lh v s = Some (v1, s1)"
    by (subst (asm) variance_loop.simps) (auto simp: Let_def split: option.splits)
  note r1 = variance_pass_log [OF nc p]
  show ?case
  proof (cases "fgt (variance_gap env v1 v) DOUBLE_1e_3 \<and> i + 1 < 5")
    case True
    with "1.prems"(2) p have l: "variance_loop env lw lh v1 (i + 1) s1 = Some (vi, v', i', s')"
      by (subst (asm) variance_loop.simps) (simp add: Let_def)
    from "1.IH" [OF refl p refl refl True nc l]
    obtain k where k: "1 \<le> k" "i' = i + 1 + int k" "k = 1 \<or> i' \<le> 5"
      and c: "cuda_log s' = cuda_log s1 @ concat (replicate k (reduction_calls (lw * lh)))"
      by (elim exE conjE) (rule that)
    from True k have b: "i' \<le> 5" by auto
    from c r1 have "cuda_log s' = cuda_log s @ concat (replicate (Suc k) (reduction_calls (lw * lh)))"
      by simp
    with k(2) b show ?thesis
      by (intro exI [of _ "Suc k"]) simp
  next
    case False
    with "1.prems"(2) p have "s' = s1" "i' = i + 1"
      by (subst (asm) variance_loop.simps, auto simp: Let_def)+
    with r1 show ?thesis
      by (intro exI [of _ 1]) simp
  qed
qed

lemma calculate_weights_log:
  assumes "\<not> ENABLE_CUBLAS env"
    and "calculate_weights env level lw lh v u s = Some (v', s')"
  shows "\<exists>k. cuda_log s' = cuda_log s @ concat (replicate k (reduction_calls (lw * lh))) \<and>
           (if u then 1 \<le> k \<and> k \<le> 5 else k = 0)"
proof (cases u)
  case False
  with assms(2) have "cuda_log s' = cuda_log s"
    by (auto simp: calculate_weights_def)
  with False show ?thesis by (intro exI [of _ 0]) simp
next
  case True
  with assms(2) obtain vi vv i' sl where l: "variance_loop env lw lh v 0 s = Some (vi, vv, i', sl)"
    and s': "cuda_log s' = cuda_log sl"
    by (auto simp: calculate_weights_def bind_eq_Some_conv Let_def)
  from variance_loop_log [OF assms(1) l]
  obtain k where k: "1 \<le> k" "i' = 0 + int k" "k = 1 \<or> i' \<le> 5"
    and c: "cuda_log sl = cuda_log s @ concat (replicate k (reduction_calls (lw * lh)))"
    by (elim exE conjE) (rule that)
  from k have "k \<le> 5" by auto
  with True k(1) c s' show ?thesis by (intro exI [of _ k]) simp
qed

lemma iteration_log:
  assumes "\<not> ENABLE_CUBLAS env" and "iteration env level lw lh v s = Some (v', s')"
  shows "\<exists>k. cuda_log s' = cuda_log s @ concat (replicate (Suc k) (reduction_calls (lw * lh))) \<and>
           (if useTDistWeights s then 1 \<le> k \<and> k \<le> 5 else k = 0)"
proof -
  obtain rot tra where c: "convertSE3ToT env (xi s) = (rot, tra)"
    by (cases "convertSE3ToT env (xi s)")
  from assms(2) c obtain K_inv s0 s1 s2 s3 s4 v5 s5 s6 s7 e where
    s0: "s0 = s\<lparr>R := rot, t := tra, RK_inv := mat3_mul env rot K_inv,
                dev := (dev s)\<lparr>const_RK_inv := mat3_mul env rot K_inv, const_translation := tra\<rparr>\<rparr>"
    and t1: "transform_points env level lw lh s0 = Some s1"
    and t2: "calculate_residuals env level lw lh s1 = Some s2"
    and t3: "calculate_jacobian env level lw lh s2 = Some s3"
    and t4: "calculate_error env level lw lh s3 = Some s4"
    and t5: "calculate_weights env level lw lh v (useTDistWeights s4) s4 = Some (v5, s5)"
    and t6: "calculate_A env level lw lh s5 = Some s6"
    and t7: "calculate_b env level lw lh s6 = Some s7"
    and s': "s' = s7\<lparr>xi_delta := vec_neg (ldlt_solve env (A s7) (b s7)),
                    xi := lieLog env (mat4_mul env
                            (lieExp env (vec_neg (ldlt_solve env (A s7) (b s7))))
                            (lieExp env (xi s7))),
                    error := e\<rparr>"
    by (auto simp: iteration_def bind_eq_Some_conv Let_def)
  have k0: "keeps_pose s s0" "cuda_log s0 = cuda_log s"
    by (simp_all add: s0 keeps_pose_def keeps_def)
  note k = transform_points_keeps [OF t1] calculate_residuals_keeps [OF t2]
    calculate_jacobian_keeps [OF t3] calculate_error_keeps [OF t4]
  have "keeps_pose s s4"
    using k0 k by (blast intro: keeps_pose_trans)
  then have u: "useTDistWeights s4 = useTDistWeights s"
    by (simp add: keeps_pose_def keeps_def)
  from k0 k have l3: "cuda_log s3 = cuda_log s" by simp
  note l4 = calculate_error_log [OF assms(1) t4]
  from calculate_weights_log [OF assms(1) t5] obtain k where
    l5: "cuda_log s5 = cuda_log s4 @ concat (replicate k (reduction_calls (lw * lh)))"
    and kb: "if useTDistWeights s4 then 1 \<le> k \<and> k \<le> 5 else k = 0"
    by (elim exE conjE) (rule that)
  from calculate_A_keeps [OF t6] have l6: "cuda_log s6 = cuda_log s5" by simp
  from calculate_b_keeps [OF t7] have l7: "cuda_log s7 = cuda_log s6" by simp
  have "cuda_log s' = cuda_log s7" by (simp add: s')
  with l3 l4 l5 l6 l7
  have "cuda_log s' = cuda_log s @ concat (replicate (Suc k) (reduction_calls (lw * lh)))"
    by simp
  with kb u show ?thesis by (intro exI [of _ k]) simp
qed

text \<open>
  C8 as stated fails twice. The rasters of the pyramid are not sized for level 0: for an
  image of 2 x 2 pixels and two levels the constructor asks for eight rasters of 16
  bytes for level 0 and for eight rasters of 4 bytes for level 1. And in a build without
  cuBLAS \<open>align\<close> does ask for memory: on an image of one pixel the constructor has made
  its 24 requests, and the call of \<open>align\<close>, which makes two passes on its one level,
  adds two requests and two releases for each of them.
\<close>

theorem align_allocates_without_cublas_counterexample:
  "map_option cuda_log (Tracker_new demo_plain
       [Fin 0, Fin 0, Fin 0, Fin 0] [Fin 1, Fin 1, Fin 1, Fin 1] 2 2 demo_K 0 1 False 2 GAUSS_NEWTON)
     = Some (map Malloc [96, 96, 16, 16, 16, 16, 16, 16, 16, 24, 144, 4,
                          16, 16, 16, 16, 16, 16, 16, 16, 4, 4, 4, 4, 4, 4, 4, 4,
                          1, 1, 1, 1]) \<and>
   map_option cuda_log (demo_tracker demo_plain [Fin 1] False 2 GAUSS_NEWTON)
     = Some (map Malloc [24, 24, 4, 4, 4, 4, 4, 4, 4, 24, 144, 4, 4, 4, 4, 4, 4, 4, 4, 4,
                          1, 1, 1, 1]) \<and>
   map_option (cuda_log \<circ> snd) (Option.bind
       (demo_tracker demo_plain [Fin 1] False 2 GAUSS_NEWTON) (align demo_plain [Fin 0] [Fin 0]))
     = Some (map Malloc [24, 24, 4, 4, 4, 4, 4, 4, 4, 24, 144, 4, 4, 4, 4, 4, 4, 4, 4, 4,
                          1, 1, 1, 1] @
         [Malloc 4, Malloc 4, Free, Free, Malloc 4, Malloc 4, Free, Free])"
proof -
  have "map_option cuda_log (Tracker_new demo_plain
       [Fin 0, Fin 0, Fin 0, Fin 0] [Fin 1, Fin 1, Fin 1, Fin 1] 2 2 demo_K 0 1 False 2 GAUSS_NEWTON)
     = Some (map Malloc [96, 96, 16, 16, 16, 16, 16, 16, 16, 24, 144, 4,
                          16, 16, 16, 16, 16, 16, 16, 16, 4, 4, 4, 4, 4, 4, 4, 4,
                          1, 1, 1, 1])"
    by code_simp
  moreover have "map_option cuda_log (demo_tracker demo_plain [Fin 1] False 2 GAUSS_NEWTON)
     = Some (map Malloc [24, 24, 4, 4, 4, 4, 4, 4, 4, 24, 144, 4, 4, 4, 4, 4, 4, 4, 4, 4,
                          1, 1, 1, 1])"
    by code_simp
  moreover have "map_option (cuda_log \<circ> snd) (Option.bind
       (demo_tracker demo_plain [Fin 1] False 2 GAUSS_NEWTON) (align demo_plain [Fin 0] [Fin 0]))
     = Some (map Malloc [24, 24, 4, 4, 4, 4, 4, 4, 4, 24, 144, 4, 4, 4, 4, 4, 4, 4, 4, 4,
                          1, 1, 1, 1] @
         [Malloc 4, Malloc 4, Free, Free, Malloc 4, Malloc 4, Free, Free])"
    by code_simp
  ultimately show ?thesis by (intro conjI)
qed


text \<open>
  C8 (as amended). A constructor that returns has made exactly these requests, once
  each: the work arrays for the pixels of the full image, eight rasters for every level
  of the pyramid, each of the size of its own level, and in a build without cuBLAS the
  four arrays of the partial sums. In a build with cuBLAS a call of \<open>align\<close> leaves the
  log of requests as it was. In a build without cuBLAS every pass of the inner loop
  requests two arrays for the reduction of the error and releases them, and with
  Student-t weights it does the same once more for each of the one to five passes of the
  variance loop; it requests nothing else.
\<close>

theorem device_memory_is_requested_at_construction_and_by_the_reductions:
  "(Tracker_new env grayFirstFrame depthFirstFrame w h K minL maxL useTDist maxIterations solving
      = Some s0 \<longrightarrow>
      cuda_log s0 = map Malloc (work_requests w h @ pyramid_requests w h [0..maxL] @
                      (if ENABLE_CUBLAS env then [] else partial_sum_requests w h))) \<and>
   (ENABLE_CUBLAS env1 \<longrightarrow> align env1 grayCur depthCur s = Some (r, s') \<longrightarrow>
      cuda_log s' = cuda_log s) \<and>
   (\<not> ENABLE_CUBLAS env2 \<longrightarrow> iteration env2 level lw lh v si = Some (v', si') \<longrightarrow>
      (\<exists>k. cuda_log si' = cuda_log si @ concat (replicate (Suc k) (reduction_calls (lw * lh))) \<and>
           (if useTDistWeights si then 1 \<le> k \<and> k \<le> 5 else k = 0)))"
proof (intro conjI impI)
  assume "Tracker_new env grayFirstFrame depthFirstFrame w h K minL maxL useTDist
            maxIterations solving = Some s0"
  from Tracker_new_SomeD [OF this]
  have "cuda_log s0 = map Malloc (constructor_requests (ENABLE_CUBLAS env) w h maxL)"
    by (elim conjE)
  then show "cuda_log s0 = map Malloc (work_requests w h @ pyramid_requests w h [0..maxL] @
                      (if ENABLE_CUBLAS env then [] else partial_sum_requests w h))"
    by (simp only: constructor_requests_def)
next
  assume c: "ENABLE_CUBLAS env1" and a: "align env1 grayCur depthCur s = Some (r, s')"
  from align_SomeD [OF a] c obtain cur s1 where
    "s' = s1\<lparr>temp_swap := cur, d_cur := d_prev s, d_prev := cur,
                   xi_total := lieLog env1 (mat4_mul env1 (lieExp env1 (xi_total s))
                                  (mat4_inverse env1 (lieExp env1 (xi s1))))\<rparr>"
    and "cuda_log s1 = cuda_log s"
    by blast
  then show "cuda_log s' = cuda_log s" by simp
next
  assume "\<not> ENABLE_CUBLAS env2" and "iteration env2 level lw lh v si = Some (v', si')"
  then show "\<exists>k. cuda_log si' = cuda_log si @
                 concat (replicate (Suc k) (reduction_calls (lw * lh))) \<and>
               (if useTDistWeights si then 1 \<le> k \<and> k \<le> 5 else k = 0)"
    by (rule iteration_log)
qed

theorem device_memory_is_requested_at_construction_and_by_the_reductions_witness:
  "\<exists>s0 s r s' sq si v' si'.
     Tracker_new demo_plain [Fin 0] [Fin 1] 1 1 demo_K 0 0 False 2 GAUSS_NEWTON = Some s0 \<and>
     cuda_log s0 = map Malloc (work_requests 1 1 @ pyramid_requests 1 1 [0..0] @
                     (if ENABLE_CUBLAS demo_plain then [] else partial_sum_requests 1 1)) \<and>
     demo_tracker demo_cublas [Fin 1] False 2 GAUSS_NEWTON = Some s \<and>
     ENABLE_CUBLAS demo_cublas \<and> align demo_cublas [Fin 0] [Fin 0] s = Some (r, s') \<and>
     cuda_log s' = cuda_log s \<and>
     demo_tracker demo_still_plain [Fin 1] True 2 GAUSS_NEWTON = Some sq \<and>
     bind_textures 0 1 1 sq = Some si \<and> \<not> ENABLE_CUBLAS demo_still_plain \<and>
     iteration demo_still_plain 0 1 1 VARIANCE_INITIAL si = Some (v', si') \<and>
     (\<exists>k. cuda_log si' = cuda_log si @ concat (replicate (Suc k) (reduction_calls (1 * 1))) \<and>
          (if useTDistWeights si then 1 \<le> k \<and> k \<le> 5 else k = 0))"
proof -
  have c: "ENABLE_CUBLAS demo_cublas" by (simp add: demo_cublas_def demo_env_def)
  have p: "\<not> ENABLE_CUBLAS demo_still_plain" by (simp add: demo_still_plain_def demo_env_def)
  have "map_option width (Tracker_new demo_plain [Fin 0] [Fin 1] 1 1 demo_K 0 0 False 2
          GAUSS_NEWTON) = Some 1"
    by code_simp
  then obtain s0 where
    t0: "Tracker_new demo_plain [Fin 0] [Fin 1] 1 1 demo_K 0 0 False 2 GAUSS_NEWTON = Some s0"
    by auto
  have "map_option fst (Option.bind (demo_tracker demo_cublas [Fin 1] False 2 GAUSS_NEWTON)
          (align demo_cublas [Fin 0] [Fin 0]))
        = Some [Fin 2, Fin 0, Fin 0, Fin 0, Fin 0, Fin 0]"
    by code_simp
  then obtain s r s' where t: "demo_tracker demo_cublas [Fin 1] False 2 GAUSS_NEWTON = Some s"
    and a: "align demo_cublas [Fin 0] [Fin 0] s = Some (r, s')"
    by (auto simp: bind_eq_Some_conv)
  have "map_option (error \<circ> snd) (Option.bind (Option.bind
          (demo_tracker demo_still_plain [Fin 1] True 2 GAUSS_NEWTON) (bind_textures 0 1 1))
          (iteration demo_still_plain 0 1 1 VARIANCE_INITIAL))
        = Some (Fin 0)"
    by code_simp
  then obtain sq si v' si' where
    tq: "demo_tracker demo_still_plain [Fin 1] True 2 GAUSS_NEWTON = Some sq"
    and b0: "bind_textures 0 1 1 sq = Some si"
    and it: "iteration demo_still_plain 0 1 1 VARIANCE_INITIAL si = Some (v', si')"
    by (auto simp: bind_eq_Some_conv)
  note T = device_memory_is_requested_at_construction_and_by_the_reductions
    [where env = demo_plain and grayFirstFrame = "[Fin 0]" and depthFirstFrame = "[Fin 1]"
       and w = 1 and h = 1 and K = demo_K and minL = 0 and maxL = 0 and useTDist = False
       and maxIterations = 2 and solving = GAUSS_NEWTON and ?s0.0 = s0
       and ?env1.0 = demo_cublas and grayCur = "[Fin 0]" and depthCur = "[Fin 0]"
       and s = s and r = r and s' = s'
       and ?env2.0 = demo_still_plain and level = 0 and lw = 1 and lh = 1
       and v = VARIANCE_INITIAL and si = si and v' = v' and si' = si']
  note g1 = T [THEN conjunct1, THEN mp, OF t0]
  note g2 = T [THEN conjunct2, THEN conjunct1, THEN mp, OF c, THEN mp, OF a]
  note g3 = T [THEN conjunct2, THEN conjunct2, THEN mp, OF p, THEN mp, OF it]
  show ?thesis
    by (rule exI [of _ s0], rule exI [of _ s], rule exI [of _ r], rule exI [of _ s'],
        rule exI [of _ sq], rule exI [of _ si], rule exI [of _ v'], rule exI [of _ si'],
        intro conjI t0 g1 t c a g2 tq b0 p it g3)
qed

subsection \<open>A frame without valid pixels\<close>

























end
